(* ===== verification/Hugo_Prelude.thy ===== *)
theory Hugo_Prelude
  imports Main "HOL-Library.Word" "HOL-Library.Sublist"
begin

text \<open>
  Shared material of the development: the machine integers and byte strings of Go, slices and
  the built-in \<^verbatim>\<open>copy\<close>, little-endian integers as \<^verbatim>\<open>encoding/binary\<close> writes them, decimal
  printing and parsing as \<^verbatim>\<open>fmt\<close> and \<^verbatim>\<open>strconv\<close> do them, and a few functions of
  \<^verbatim>\<open>strings\<close> that the sources use to build and take apart keys.
\<close>

unbundle bit_operations_syntax

section \<open>Machine integers and byte strings\<close>

type_synonym u8 = "8 word"
type_synonym u16 = "16 word"
type_synonym u32 = "32 word"
type_synonym u64 = "64 word"
type_synonym bytes = "8 word list"

named_theorems subrange_simps \<open>rewrite rules for slices and in-place copies\<close>
named_theorems key_simps \<open>rewrite rules for keys built from numbers and names\<close>

lemma unat_of_nat_u8 [simp]: "n < 256 \<Longrightarrow> unat (of_nat n :: u8) = n"
  by (simp add: unat_of_nat)

lemma unat_lt_256 [simp]: "unat (b :: u8) < 256"
  using unsigned_less [where ?'a = nat, of b] by simp

lemma u64_bound [simp]: "unat (w :: u64) < 18446744073709551616"
  using unsigned_less [where ?'a = nat, of w] by simp

lemma u32_bound [simp]: "unat (w :: u32) < 4294967296"
  using unsigned_less [where ?'a = nat, of w] by simp

lemma unat_inject [key_simps]: "unat a = unat b \<longleftrightarrow> a = (b :: 'w::len word)"
  by (simp add: word_unat_eq_iff)

section \<open>Slices\<close>

text \<open>
  \<open>subrange a b xs\<close> is Go's \<^verbatim>\<open>xs[a:b]\<close> for indices in range; a definition that may leave the range
  tests it first. \<open>blit off ys xs\<close> is \<^verbatim>\<open>copy(xs[off:], ys)\<close>: it overwrites from position
  \<open>off\<close> and stops at the end of either operand.
\<close>

definition subrange :: "nat \<Rightarrow> nat \<Rightarrow> 'a list \<Rightarrow> 'a list" where
  "subrange a b xs = take (b - a) (drop a xs)"

definition blit :: "nat \<Rightarrow> 'a list \<Rightarrow> 'a list \<Rightarrow> 'a list" where
  "blit off ys xs =
     (let n = min (length ys) (length xs - off)
      in take off xs @ take n ys @ drop (off + n) xs)"

lemma length_subrange [simp]: "length (subrange a b xs) = min (b - a) (length xs - a)"
  by (simp add: subrange_def)

lemma nth_subrange [subrange_simps]:
  "i < b - a \<Longrightarrow> i < length xs - a \<Longrightarrow> subrange a b xs ! i = xs ! (a + i)"
  by (simp add: subrange_def)

lemma length_blit [simp]: "length (blit off ys xs) = length xs"
  by (auto simp: blit_def Let_def)

lemma nth_blit [subrange_simps]:
  assumes "i < length xs"
  shows "blit off ys xs ! i =
    (if off \<le> i \<and> i < off + length ys then ys ! (i - off) else xs ! i)"
proof (cases "off \<le> length xs")
  case True
  with assms show ?thesis by (auto simp: blit_def Let_def nth_append min_def)
next
  case False
  with assms show ?thesis by (auto simp: blit_def Let_def)
qed

text \<open>
  Reading back what was written, and reading beside it: the two laws that every layout of fields
  in a buffer rests on.
\<close>

lemma subrange_blit_same:
  assumes "off + length ys \<le> length xs"
  shows "subrange off (off + length ys) (blit off ys xs) = ys"
  by (rule nth_equalityI) (use assms in \<open>auto simp: nth_subrange nth_blit\<close>)

lemma subrange_blit_other:
  assumes "b \<le> off \<or> off + length ys \<le> a"
  shows "subrange a b (blit off ys xs) = subrange a b xs"
  by (rule nth_equalityI) (use assms in \<open>auto simp: nth_subrange nth_blit\<close>)

lemma subrange_update_other:
  assumes "i < a \<or> b \<le> i"
  shows "subrange a b (xs[i := v]) = subrange a b xs"
  by (rule nth_equalityI) (use assms in \<open>auto simp: nth_subrange\<close>)

lemma blit_Nil [simp]: "blit off [] xs = xs"
  by (simp add: blit_def Let_def)

section \<open>Little-endian integers\<close>

text \<open>\<open>put_le k n\<close> are the \<open>k\<close> bytes of \<open>n\<close>, least significant first.\<close>

fun put_le :: "nat \<Rightarrow> nat \<Rightarrow> bytes" where
  "put_le 0 n = []"
| "put_le (Suc k) n = of_nat (n mod 256) # put_le k (n div 256)"

fun get_le :: "bytes \<Rightarrow> nat" where
  "get_le [] = 0"
| "get_le (b # bs) = unat b + 256 * get_le bs"

lemma length_put_le [simp]: "length (put_le k n) = k"
  by (induction k arbitrary: n) auto

lemma get_le_put_le: "get_le (put_le k n) = n mod 256 ^ k"
  by (induction k arbitrary: n) (auto simp: mod_mult2_eq)

lemma get_le_bound: "get_le bs < 256 ^ length bs"
proof (induction bs)
  case (Cons b bs)
  have "unat b < 256" by simp
  moreover have "256 * Suc (get_le bs) \<le> 256 * 256 ^ length bs"
    using Cons by (intro mult_le_mono2) simp
  ultimately show ?case by (simp del: unat_lt_256)
qed simp

lemma put_le_get_le: "length bs = k \<Longrightarrow> put_le k (get_le bs) = bs"
  by (induction bs arbitrary: k) auto

definition le64 :: "u64 \<Rightarrow> bytes" where "le64 w = put_le 8 (unat w)"
definition le32 :: "u32 \<Rightarrow> bytes" where "le32 w = put_le 4 (unat w)"
definition un_le64 :: "bytes \<Rightarrow> u64" where "un_le64 bs = of_nat (get_le bs)"
definition un_le32 :: "bytes \<Rightarrow> u32" where "un_le32 bs = of_nat (get_le bs)"

lemma length_le64 [simp]: "length (le64 w) = 8" by (simp add: le64_def)
lemma length_le32 [simp]: "length (le32 w) = 4" by (simp add: le32_def)

lemma un_le64_le64 [simp]: "un_le64 (le64 w) = w"
  by (simp add: un_le64_def le64_def get_le_put_le)

lemma un_le32_le32 [simp]: "un_le32 (le32 w) = w"
  by (simp add: un_le32_def le32_def get_le_put_le)

lemma le64_un_le64 [simp]: "length bs = 8 \<Longrightarrow> le64 (un_le64 bs) = bs"
  using get_le_bound [of bs]
  by (simp add: un_le64_def le64_def unat_of_nat put_le_get_le)

lemma le32_un_le32 [simp]: "length bs = 4 \<Longrightarrow> le32 (un_le32 bs) = bs"
  using get_le_bound [of bs]
  by (simp add: un_le32_def le32_def unat_of_nat put_le_get_le)

section \<open>Decimal numbers in strings\<close>

definition digit :: "nat \<Rightarrow> char" where "digit d = char_of (48 + d)"

definition is_digit :: "char \<Rightarrow> bool" where
  "is_digit c \<longleftrightarrow> 48 \<le> (of_char c :: nat) \<and> (of_char c :: nat) \<le> 57"

text \<open>\<open>fmt_d n\<close> is \<^verbatim>\<open>fmt.Sprintf("%d", n)\<close> of an unsigned integer.\<close>

fun fmt_d :: "nat \<Rightarrow> string" where
  "fmt_d n = (if n < 10 then [digit n] else fmt_d (n div 10) @ [digit (n mod 10)])"

declare fmt_d.simps [simp del]

definition dec_value :: "string \<Rightarrow> nat" where
  "dec_value s = foldl (\<lambda>a c. 10 * a + (of_char c - 48)) 0 s"

text \<open>
  \<^verbatim>\<open>n, _ := strconv.ParseUint(s, 10, 64)\<close>: 0 on a syntax error, the greatest value on a range
  error, since the callers drop the error.
\<close>

definition parse_uint :: "string \<Rightarrow> u64" where
  "parse_uint s =
     (if s = [] \<or> \<not> list_all is_digit s then 0
      else if dec_value s < 2 ^ 64 then of_nat (dec_value s) else -1)"

lemma of_char_digit [simp]: "d < 10 \<Longrightarrow> of_char (digit d) = 48 + d"
  by (simp add: digit_def)

lemma is_digit_digit [simp]: "d < 10 \<Longrightarrow> is_digit (digit d)"
  by (simp add: is_digit_def)

lemma fmt_d_nonempty [simp]: "fmt_d n \<noteq> []"
  by (subst fmt_d.simps) simp

lemma fmt_d_digits: "list_all is_digit (fmt_d n)"
  by (induction n rule: fmt_d.induct) (subst fmt_d.simps, simp)

lemma dec_value_snoc [simp]: "dec_value (s @ [c]) = 10 * dec_value s + (of_char c - 48)"
  by (simp add: dec_value_def)

lemma dec_value_fmt_d [simp]: "dec_value (fmt_d n) = n"
proof (induction n rule: fmt_d.induct)
  case (1 n)
  show ?case
  proof (cases "n < 10")
    case True
    then show ?thesis by (subst fmt_d.simps) (simp add: dec_value_def)
  next
    case False
    with 1 have "dec_value (fmt_d (n div 10)) = n div 10" by simp
    with False show ?thesis by (subst fmt_d.simps) simp
  qed
qed

lemma fmt_d_inject [simp]: "fmt_d m = fmt_d n \<longleftrightarrow> m = n"
  by (metis dec_value_fmt_d)

lemma parse_uint_fmt_d [simp]: "n < 2 ^ 64 \<Longrightarrow> parse_uint (fmt_d n) = of_nat n"
  by (simp add: parse_uint_def fmt_d_digits)

lemma parse_uint_fmt_d_unat [simp]: "parse_uint (fmt_d (unat (w :: u64))) = w"
  by (subst parse_uint_fmt_d) simp_all

text \<open>A character that is no digit does not occur in a printed number.\<close>

lemma fmt_d_no [key_simps]: "\<not> is_digit c \<Longrightarrow> c \<notin> set (fmt_d n)"
  using fmt_d_digits [of n] by (auto simp: list_all_iff)

lemma not_is_digit [simp]:
  "\<not> is_digit CHR ''/''" "\<not> is_digit CHR '',''" "\<not> is_digit CHR ''-''"
  "\<not> is_digit CHR '':''" "\<not> is_digit CHR ''i''"
  by (simp_all add: is_digit_def)

text \<open>\<open>fmt_i n\<close> is \<^verbatim>\<open>fmt.Sprintf("%d", n)\<close>, and \<^verbatim>\<open>strconv.Itoa(n)\<close>, of a signed integer.\<close>

definition fmt_i :: "int \<Rightarrow> string" where
  "fmt_i n = (if n < 0 then CHR ''-'' # fmt_d (nat (- n)) else fmt_d (nat n))"

lemma fmt_i_nonempty [simp]: "fmt_i n \<noteq> []"
  by (simp add: fmt_i_def)

lemma fmt_i_inject [simp]: "fmt_i m = fmt_i n \<longleftrightarrow> m = n"
proof -
  have "CHR ''-'' # s \<noteq> fmt_d k" for s k
    using fmt_d_no [of "CHR ''-''" k] by (metis list.set_intros(1) not_is_digit(3))
  from this this [symmetric] show ?thesis by (auto simp: fmt_i_def)
qed

section \<open>Cutting and trimming strings\<close>

text \<open>
  \<^verbatim>\<open>strings.Cut(s, sep)\<close> for a one-character separator: the text before and after the first
  occurrence; without one, all of \<open>s\<close> and the empty string.
\<close>

definition cut :: "char \<Rightarrow> string \<Rightarrow> string \<times> string" where
  "cut c s = (takeWhile (\<lambda>x. x \<noteq> c) s, tl (dropWhile (\<lambda>x. x \<noteq> c) s))"

lemma cut_append [key_simps]: "c \<notin> set a \<Longrightarrow> cut c (a @ c # b) = (a, b)"
  by (induction a) (auto simp: cut_def)

text \<open>\<^verbatim>\<open>strings.TrimSuffix(s, "/")\<close>.\<close>

definition trim_slash :: "string \<Rightarrow> string" where
  "trim_slash s = (if s \<noteq> [] \<and> last s = CHR ''/'' then butlast s else s)"

lemma trim_slash_snoc [key_simps]: "trim_slash (s @ [CHR ''/'']) = s"
  by (simp add: trim_slash_def)

lemma trim_slash_id [key_simps]: "last s \<noteq> CHR ''/'' \<Longrightarrow> trim_slash s = s"
  by (simp add: trim_slash_def)

text \<open>Two strings that start with numbers and a separator are equal only part by part.\<close>

lemma sep_append_inject:
  assumes "a @ c # x = b @ c # y" and "c \<notin> set a" and "c \<notin> set b"
  shows "a = b \<and> x = y"
  using assms
proof (induction a arbitrary: b)
  case Nil
  then show ?case by (cases b) auto
next
  case (Cons u a)
  then show ?case by (cases b) auto
qed

lemma fmt_d_sep_inject [key_simps]:
  assumes "\<not> is_digit c"
  shows "fmt_d m @ c # x = fmt_d n @ c # y \<longleftrightarrow> m = n \<and> x = y"
  using sep_append_inject [of "fmt_d m" c x "fmt_d n" y] fmt_d_no [OF assms]
  by auto

end
