(* ===== verification/Go_Hash.thy ===== *)
theory Go_Hash
  imports Hugo_Prelude
begin

text \<open>
  The two digests of Go's standard library that block headers carry: \<^verbatim>\<open>crc32.ChecksumIEEE\<close>
  (reflected polynomial \<^verbatim>\<open>0xedb88320\<close>) and \<^verbatim>\<open>crypto/sha256\<close>.
\<close>

section \<open>CRC-32\<close>

definition crc_bit :: "u32 \<Rightarrow> u32" where
  "crc_bit c = (if bit c 0 then drop_bit 1 c XOR 0xedb88320 else drop_bit 1 c)"

definition crc_byte :: "u32 \<Rightarrow> u8 \<Rightarrow> u32" where
  "crc_byte c b = (crc_bit ^^ 8) (c XOR ucast b)"

definition crc32 :: "bytes \<Rightarrow> u32" where
  "crc32 bs = NOT (foldl crc_byte (NOT 0) bs)"

lemma crc32_Nil [simp]: "crc32 [] = 0"
  by (simp add: crc32_def)

section \<open>SHA-256\<close>

text \<open>The round constants: the fractional parts of the cube roots of the first 64 primes.\<close>

definition sha_k :: "u32 list" where
  "sha_k = [
    1116352408, 1899447441, 3049323471, 3921009573, 961987163, 1508970993, 2453635748,
    2870763221, 3624381080, 310598401, 607225278, 1426881987, 1925078388, 2162078206,
    2614888103, 3248222580, 3835390401, 4022224774, 264347078, 604807628, 770255983,
    1249150122, 1555081692, 1996064986, 2554220882, 2821834349, 2952996808, 3210313671,
    3336571891, 3584528711, 113926993, 338241895, 666307205, 773529912, 1294757372,
    1396182291, 1695183700, 1986661051, 2177026350, 2456956037, 2730485921, 2820302411,
    3259730800, 3345764771, 3516065817, 3600352804, 4094571909, 275423344, 430227734,
    506948616, 659060556, 883997877, 958139571, 1322822218, 1537002063, 1747873779,
    1955562222, 2024104815, 2227730452, 2361852424, 2428436474, 2756734187, 3204031479,
    3329325298]"

type_synonym sha_state = "u32 \<times> u32 \<times> u32 \<times> u32 \<times> u32 \<times> u32 \<times> u32 \<times> u32"

definition sha_init :: sha_state where
  "sha_init = (1779033703, 3144134277, 1013904242, 2773480762,
               1359893119, 2600822924, 528734635, 1541459225)"

definition rotr32 :: "nat \<Rightarrow> u32 \<Rightarrow> u32" where
  "rotr32 n x = drop_bit n x OR push_bit (32 - n) x"

definition sha_small0 :: "u32 \<Rightarrow> u32" where
  "sha_small0 x = rotr32 7 x XOR rotr32 18 x XOR drop_bit 3 x"

definition sha_small1 :: "u32 \<Rightarrow> u32" where
  "sha_small1 x = rotr32 17 x XOR rotr32 19 x XOR drop_bit 10 x"

definition sha_round :: "sha_state \<Rightarrow> u32 \<times> u32 \<Rightarrow> sha_state" where
  "sha_round st kw = (case (st, kw) of ((a, b, c, d, e, f, g, h), (k, w)) \<Rightarrow>
     let t1 = h + (rotr32 6 e XOR rotr32 11 e XOR rotr32 25 e)
                + ((e AND f) XOR (NOT e AND g)) + k + w;
         t2 = (rotr32 2 a XOR rotr32 13 a XOR rotr32 22 a)
                + ((a AND b) XOR (a AND c) XOR (b AND c))
     in (t1 + t2, a, b, c, d + t1, e, f, g))"

text \<open>The message schedule, kept with its latest word first.\<close>

fun sha_expand :: "nat \<Rightarrow> u32 list \<Rightarrow> u32 list" where
  "sha_expand 0 ws = ws"
| "sha_expand (Suc n) ws =
     sha_expand n ((sha_small1 (ws ! 1) + ws ! 6 + sha_small0 (ws ! 14) + ws ! 15) # ws)"

definition be32 :: "u32 \<Rightarrow> bytes" where "be32 w = rev (le32 w)"

fun be_words :: "bytes \<Rightarrow> u32 list" where
  "be_words (a # b # c # d # r) = un_le32 [d, c, b, a] # be_words r"
| "be_words _ = []"

definition sha_add :: "sha_state \<Rightarrow> sha_state \<Rightarrow> sha_state" where
  "sha_add s t = (case (s, t) of
     ((a, b, c, d, e, f, g, h), (a', b', c', d', e', f', g', h')) \<Rightarrow>
       (a + a', b + b', c + c', d + d', e + e', f + f', g + g', h + h'))"

definition sha_block :: "sha_state \<Rightarrow> bytes \<Rightarrow> sha_state" where
  "sha_block st blk =
     sha_add st (foldl sha_round st (zip sha_k (rev (sha_expand 48 (rev (be_words blk))))))"

fun sha_blocks :: "nat \<Rightarrow> sha_state \<Rightarrow> bytes \<Rightarrow> sha_state" where
  "sha_blocks 0 st bs = st"
| "sha_blocks (Suc n) st bs = sha_blocks n (sha_block st (take 64 bs)) (drop 64 bs)"

definition sha_pad :: "bytes \<Rightarrow> bytes" where
  "sha_pad m =
     m @ [0x80] @ replicate ((119 - length m mod 64) mod 64) 0 @ rev (put_le 8 (8 * length m))"

definition sha256 :: "bytes \<Rightarrow> bytes" where
  "sha256 m = (let p = sha_pad m in
     case sha_blocks (length p div 64) sha_init p of (a, b, c, d, e, f, g, h) \<Rightarrow>
       be32 a @ be32 b @ be32 c @ be32 d @ be32 e @ be32 f @ be32 g @ be32 h)"

lemma length_be32 [simp]: "length (be32 w) = 4"
  by (simp add: be32_def)

lemma length_sha256 [simp]: "length (sha256 m) = 32"
  by (simp add: sha256_def Let_def split: prod.split)

text \<open>The padded message is a whole number of 64-byte blocks, so no byte of it is dropped.\<close>

lemma sha_pad_blocks: "64 dvd length (sha_pad m)"
proof -
  define r where "r = length m mod 64"
  have "r < 64" by (simp add: r_def)
  have "length (sha_pad m) = length m + ((119 - r) mod 64 + 9)"
    by (simp add: sha_pad_def r_def)
  then have "length (sha_pad m) mod 64 = (r + ((119 - r) mod 64 + 9)) mod 64"
    by (simp only: r_def mod_add_left_eq)
  also have "\<dots> = ((119 - r) mod 64 + (r + 9)) mod 64" by (simp only: ac_simps)
  also have "\<dots> = (119 - r + (r + 9)) mod 64" by (simp only: mod_add_left_eq)
  also have "\<dots> = 0" using \<open>r < 64\<close> by simp
  finally show ?thesis by presburger
qed

end
