(* ===== verification/Block_Format.thy ===== *)
theory Block_Format
  imports Go_Hash
begin

text \<open>
  The on-disk block of \<^verbatim>\<open>src/pkg/storage/block/block.go\<close>: a 54-byte header (kind, data length,
  index, CRC-32, SHA-256 and the cancel mark) followed by the data. Every accessor of the source is
  one definition; methods with a pointer receiver that write return the changed block.
\<close>

section \<open>Layout\<close>

definition headerKindOffset :: nat where "headerKindOffset = 0"
definition headerDataLenOffset :: nat where "headerDataLenOffset = headerKindOffset + 1"
definition headerIndexOffset :: nat where "headerIndexOffset = headerDataLenOffset + 8"
definition headerCrc32Offset :: nat where "headerCrc32Offset = headerIndexOffset + 8"
definition headerChecksumOffset :: nat where "headerChecksumOffset = headerCrc32Offset + 4"
definition headerCancelOffset :: nat where "headerCancelOffset = headerChecksumOffset + 32"
definition HeaderSize :: nat where "HeaderSize = headerCancelOffset + 1"

lemmas header_layout = headerKindOffset_def headerDataLenOffset_def headerIndexOffset_def
  headerCrc32Offset_def headerChecksumOffset_def headerCancelOffset_def HeaderSize_def

lemma HeaderSize_val: "HeaderSize = 54"
  by (simp add: header_layout)

datatype block_error = ErrInvalidBlock

record Header =
  Kind :: u8
  DataLen :: u64
  Index :: u64
  Crc32 :: u32
  Checksum :: bytes
  Canceled :: u8

record Block =
  data :: bytes

section \<open>Operations\<close>

text \<open>\<^verbatim>\<open>binary.PutUvarint\<close>: seven bits per byte, the high bit set on all but the last.\<close>

fun uvarint :: "nat \<Rightarrow> bytes" where
  "uvarint n = (if n < 128 then [of_nat n] else of_nat (128 + n mod 128) # uvarint (n div 128))"

declare uvarint.simps [simp del]

definition NewBlockWithHash :: "u64 \<Rightarrow> bytes \<Rightarrow> bytes \<Rightarrow> Block" where
  "NewBlockWithHash index d hash = (
     let buf = replicate (HeaderSize + length d) 0;
         buf = buf[headerKindOffset := 1];
         buf = blit headerDataLenOffset (le64 (of_nat (length d))) buf;
         buf = blit headerIndexOffset (le64 index) buf;
         buf = blit headerCrc32Offset (le32 (crc32 d)) buf;
         buf = blit headerChecksumOffset hash buf;
         buf = buf[headerCancelOffset := 0];
         buf = blit HeaderSize d buf
     in \<lparr> data = buf \<rparr>)"

definition NewBlock :: "u64 \<Rightarrow> bytes \<Rightarrow> Block" where
  "NewBlock index d = NewBlockWithHash index d (sha256 d)"

definition DecodeBlockHeader :: "bytes \<Rightarrow> block_error + Header" where
  "DecodeBlockHeader src = (
     if length src < HeaderSize then Inl ErrInvalidBlock
     else Inr \<lparr> Kind = src ! headerKindOffset,
                DataLen = un_le64 (subrange headerDataLenOffset (headerDataLenOffset + 8) src),
                Index = un_le64 (subrange headerIndexOffset (headerIndexOffset + 8) src),
                Crc32 = un_le32 (subrange headerCrc32Offset (headerCrc32Offset + 4) src),
                Checksum = subrange headerChecksumOffset (headerChecksumOffset + 32) src,
                Canceled = src ! headerCancelOffset \<rparr>)"

definition Encode :: "Header \<Rightarrow> bytes" where
  "Encode h = (
     let out = replicate HeaderSize 0;
         out = out[0 := Kind h];
         out = blit headerDataLenOffset (le64 (DataLen h)) out;
         out = blit headerIndexOffset (le64 (Index h)) out;
         out = blit headerCrc32Offset (le32 (Crc32 h)) out;
         out = blit headerChecksumOffset (take 32 (Checksum h)) out
     in out[headerCancelOffset := Canceled h])"

definition EncodeBlockHeader :: "Header \<Rightarrow> bytes" where
  "EncodeBlockHeader header = Encode header"

definition Block_Header :: "Block \<Rightarrow> block_error + Header" where
  "Block_Header b = DecodeBlockHeader (data b)"

text \<open>\<^verbatim>\<open>Hash\<close> slices without a length test; \<open>None\<close> is the resulting panic.\<close>

definition Hash :: "Block \<Rightarrow> bytes option" where
  "Hash b = (if length (data b) < headerChecksumOffset + 32 then None
             else Some (subrange headerChecksumOffset (headerChecksumOffset + 32) (data b)))"

definition Raw :: "Block \<Rightarrow> bytes" where "Raw b = data b"

definition SetLen :: "u64 \<Rightarrow> Block \<Rightarrow> block_error + Block" where
  "SetLen v b = (if length (data b) < HeaderSize then Inl ErrInvalidBlock
     else Inr (b \<lparr> data := blit headerDataLenOffset (uvarint (unat v)) (data b) \<rparr>))"

definition SetKind :: "u8 \<Rightarrow> Block \<Rightarrow> block_error + Block" where
  "SetKind v b = (if length (data b) = 0 then Inl ErrInvalidBlock
     else Inr (b \<lparr> data := (data b)[0 := v] \<rparr>))"

definition SetIndex :: "u64 \<Rightarrow> Block \<Rightarrow> block_error + Block" where
  "SetIndex v b = (if length (data b) < HeaderSize then Inl ErrInvalidBlock
     else Inr (b \<lparr> data := blit headerIndexOffset (uvarint (unat v)) (data b) \<rparr>))"

definition SetCanceled :: "Block \<Rightarrow> block_error + Block" where
  "SetCanceled b = (if length (data b) < HeaderSize then Inl ErrInvalidBlock
     else Inr (b \<lparr> data := (data b)[headerCancelOffset := 1] \<rparr>))"

definition GetIndex :: "Block \<Rightarrow> block_error + u64" where
  "GetIndex b = (if length (data b) < HeaderSize then Inl ErrInvalidBlock
     else Inr (un_le64 (subrange headerIndexOffset (headerIndexOffset + 8) (data b))))"

definition GetLen :: "Block \<Rightarrow> block_error + u64" where
  "GetLen b = (if length (data b) < HeaderSize then Inl ErrInvalidBlock
     else Inr (un_le64 (subrange headerDataLenOffset (headerDataLenOffset + 8) (data b))))"

definition GetKind :: "Block \<Rightarrow> block_error + u8" where
  "GetKind b = (if length (data b) < HeaderSize then Inl ErrInvalidBlock
     else Inr (data b ! headerKindOffset))"

definition GetCrc32 :: "Block \<Rightarrow> block_error + u32" where
  "GetCrc32 b = (if length (data b) < HeaderSize then Inl ErrInvalidBlock
     else Inr (un_le32 (subrange headerCrc32Offset (headerCrc32Offset + 4) (data b))))"

definition IsCanceled :: "Block \<Rightarrow> block_error + bool" where
  "IsCanceled b = (if length (data b) < HeaderSize then Inl ErrInvalidBlock
     else Inr (data b ! headerCancelOffset = 1))"

definition DecodeObjectBlock :: "bytes \<Rightarrow> block_error + Block" where
  "DecodeObjectBlock src = (if length src < HeaderSize then Inl ErrInvalidBlock
     else Inr \<lparr> data = drop HeaderSize src \<rparr>)"

definition IsCommitted :: "Header \<Rightarrow> bool" where
  "IsCommitted h \<longleftrightarrow> Canceled h = 1"

section \<open>Reading a buffer of written fields\<close>

lemma subrange_blit_at:
  assumes "off + length ys \<le> length xs" and "b = off + length ys"
  shows "subrange off b (blit off ys xs) = ys"
  using assms by (simp add: subrange_blit_same)

lemma subrange_blit_pad:
  assumes "off + k \<le> length xs" and "length ys \<le> k"
  shows "subrange off (off + k) (blit off ys xs) = ys @ subrange (off + length ys) (off + k) xs"
  by (rule nth_equalityI) (use assms in \<open>auto simp: nth_subrange nth_blit nth_append\<close>)

lemma drop_blit_same: "off + length ys = length xs \<Longrightarrow> drop off (blit off ys xs) = ys"
  by (rule nth_equalityI) (auto simp: nth_blit)

lemmas field_simps_le = subrange_blit_at subrange_blit_other subrange_update_other nth_blit
  nth_list_update header_layout

text \<open>The fields a block carries, as one equation per field of the decoded header.\<close>

lemma NewBlockWithHash_data:
  assumes "length hash = 32"
  shows "length (data (NewBlockWithHash i d hash)) = 54 + length d"
    and "data (NewBlockWithHash i d hash) ! 0 = 1"
    and "data (NewBlockWithHash i d hash) ! 53 = 0"
    and "subrange (Suc 0) 9 (data (NewBlockWithHash i d hash)) = le64 (of_nat (length d))"
    and "subrange 9 17 (data (NewBlockWithHash i d hash)) = le64 i"
    and "subrange 17 21 (data (NewBlockWithHash i d hash)) = le32 (crc32 d)"
    and "subrange 21 53 (data (NewBlockWithHash i d hash)) = hash"
    and "drop 54 (data (NewBlockWithHash i d hash)) = d"
  using assms by (simp_all add: NewBlockWithHash_def Let_def field_simps_le drop_blit_same)

lemma length_Encode [simp]: "length (Encode h) = HeaderSize"
  by (simp add: Encode_def Let_def)

lemma Encode_fields:
  assumes "length (Checksum h) = 32"
  shows "Encode h ! 0 = Kind h" and "Encode h ! 53 = Canceled h"
    and "subrange (Suc 0) 9 (Encode h) = le64 (DataLen h)"
    and "subrange 9 17 (Encode h) = le64 (Index h)"
    and "subrange 17 21 (Encode h) = le32 (Crc32 h)"
    and "subrange 21 53 (Encode h) = Checksum h"
  using assms by (simp_all add: Encode_def Let_def field_simps_le)


text \<open>A buffer of header size is the concatenation of its fields.\<close>

lemma subrange_append:
  "a \<le> b \<Longrightarrow> b \<le> c \<Longrightarrow> subrange a b xs @ subrange b c xs = subrange a c xs"
  using take_add [of "b - a" "c - b" "drop a xs"] by (simp add: subrange_def)

lemma subrange_single: "i < length xs \<Longrightarrow> subrange i (Suc i) xs = [xs ! i]"
  by (simp add: subrange_def take_Suc_conv_app_nth)

lemma header_split:
  assumes "length xs \<ge> 54"
  shows "take 54 xs = [xs ! 0] @ subrange (Suc 0) 9 xs @ subrange 9 17 xs @ subrange 17 21 xs @ subrange 21 53 xs
    @ [xs ! 53]"
proof -
  have "[xs ! 0] = subrange 0 (Suc 0) xs" "[xs ! 53] = subrange 53 54 xs"
    using assms subrange_single [of 0 xs] subrange_single [of 53 xs] by (cases xs; simp)+
  then show ?thesis by (simp add: subrange_append subrange_def [of 0 54])
qed

section \<open>Variable-length numbers read as little-endian\<close>

lemma get_le_append: "get_le (a @ b) = get_le a + 256 ^ length a * get_le b"
  by (induction a) (auto simp: algebra_simps)

lemma get_le_uvarint:
  assumes "128 \<le> n"
  shows "get_le (uvarint n) = 128 + n mod 128 + 256 * get_le (uvarint (n div 128))"
proof -
  have "unat (of_nat (128 + n mod 128) :: u8) = 128 + n mod 128"
    by (rule unat_of_nat_u8) simp
  with assms show ?thesis by (subst uvarint.simps) (simp del: of_nat_add)
qed

lemma uvarint_ge: "n \<le> get_le (uvarint n)"
proof (induction n rule: uvarint.induct)
  case (1 n)
  show ?case
  proof (cases "n < 128")
    case False
    then have "get_le (uvarint n) = 128 + n mod 128 + 256 * get_le (uvarint (n div 128))"
      by (simp add: get_le_uvarint)
    with 1 [OF False] show ?thesis
      using div_mult_mod_eq [of n 128] by linarith
  qed (subst uvarint.simps, simp)
qed

lemma uvarint_gt: "128 \<le> n \<Longrightarrow> n < get_le (uvarint n)"
  using uvarint_ge [of "n div 128"] div_mult_mod_eq [of n 128] get_le_uvarint [of n]
  by linarith

lemma length_uvarint: "n < 128 ^ Suc k \<Longrightarrow> length (uvarint n) \<le> Suc k"
proof (induction k arbitrary: n)
  case (Suc k)
  then have "n div 128 < 128 ^ Suc k"
    by (metis div_less_iff_less_mult mult.commute power_Suc zero_less_numeral)
  from Suc.IH [OF this] show ?case by (subst uvarint.simps) simp
qed (subst uvarint.simps, simp)

lemma unat_un_le64: "length bs = 8 \<Longrightarrow> unat (un_le64 bs) = get_le bs"
  using get_le_bound [of bs] by (simp add: un_le64_def unat_of_nat)

lemma subrange_blit_index:
  assumes "54 \<le> length xs" and "length ys \<le> 8"
  shows "subrange 9 17 (blit 9 ys xs) = ys @ subrange (9 + length ys) 17 xs"
  using subrange_blit_pad [of 9 8 xs ys] assms by simp

lemma SetIndex_large:
  assumes "SetIndex v b = Inr c" and "128 \<le> unat v" and "unat v < 2 ^ 56"
  shows "GetIndex c \<noteq> Inr v"
proof -
  define i where "i = subrange 9 17 (data c)"
  have len: "54 \<le> length (data b)" and c: "data c = blit 9 (uvarint (unat v)) (data b)"
    using assms(1) by (auto simp: SetIndex_def header_layout split: if_splits)
  have "length (uvarint (unat v)) \<le> 8" using length_uvarint [of "unat v" 7] assms(3) by simp
  then have "i = uvarint (unat v) @ subrange (9 + length (uvarint (unat v))) 17 (data b)"
    unfolding i_def c by (intro subrange_blit_index len)
  then have "unat v < get_le i" using uvarint_gt [OF assms(2)] by (simp add: get_le_append)
  moreover have "length i = 8" using len by (simp add: i_def c)
  ultimately show ?thesis
    using len unat_un_le64 [of i] by (auto simp: GetIndex_def header_layout i_def)
qed

lemma SetIndex_small:
  assumes "SetIndex v b = Inr c" and "unat v < 128"
  shows "\<exists>w. GetIndex b = Inr w \<and> GetIndex c = Inr (of_nat (unat v + 256 * (unat w div 256)))"
proof -
  have len: "54 \<le> length (data b)" and c: "data c = blit 9 (uvarint (unat v)) (data b)"
    using assms(1) by (auto simp: SetIndex_def header_layout split: if_splits)
  have u: "uvarint (unat v) = [of_nat (unat v)]" using assms(2) by (subst uvarint.simps) simp
  have old: "subrange 9 17 (data b) = data b ! 9 # subrange 10 17 (data b)"
    using subrange_append [of 9 10 17 "data b"] subrange_single [of 9 "data b"] len by simp
  have new: "subrange 9 17 (data c) = of_nat (unat v) # subrange 10 17 (data b)"
    unfolding c u using subrange_blit_index [OF len, of "[of_nat (unat v)]"] by simp
  have "unat (un_le64 (subrange 9 17 (data b))) = get_le (subrange 9 17 (data b))"
    using unat_un_le64 [of "subrange 9 17 (data b)"] len by simp
  then have "unat (un_le64 (subrange 9 17 (data b))) div 256 = get_le (subrange 10 17 (data b))"
    by (simp add: old)
  moreover have "get_le (subrange 9 17 (data c)) = unat v + 256 * get_le (subrange 10 17 (data b))"
    using assms(2) unat_of_nat_u8 [of "unat v"] by (simp only: new get_le.simps)
  ultimately show ?thesis
    using len by (simp add: GetIndex_def header_layout un_le64_def c)
qed

section \<open>Properties\<close>

text \<open>
  C38. Decoding the raw bytes of a new block gives back its header: kind 1, the length and index, the
  CRC-32 and SHA-256 of the data, not cancelled; and the bytes after the header are the data.
\<close>

theorem NewBlock_decode:
  "DecodeBlockHeader (Raw (NewBlock i d)) =
     Inr \<lparr> Kind = 1, DataLen = of_nat (length d), Index = i, Crc32 = crc32 d,
           Checksum = sha256 d, Canceled = 0 \<rparr>
   \<and> DecodeObjectBlock (Raw (NewBlock i d)) = Inr \<lparr> data = d \<rparr>"
  by (simp add: DecodeBlockHeader_def DecodeObjectBlock_def Raw_def NewBlock_def header_layout
      NewBlockWithHash_data)

text \<open>
  A header with a 32-byte checksum survives encoding, whatever follows it in the buffer, and
  re-encoding a decoded header gives back exactly the header bytes of the source; decoding fails on
  exactly the buffers that are shorter than a header.
\<close>

theorem header_roundtrip:
  "(length (Checksum h) = 32 \<longrightarrow> DecodeBlockHeader (EncodeBlockHeader h @ rest) = Inr h)
   \<and> (case DecodeBlockHeader src of
        Inl e \<Rightarrow> e = ErrInvalidBlock \<and> length src < HeaderSize
      | Inr k \<Rightarrow> HeaderSize \<le> length src \<and> EncodeBlockHeader k = take HeaderSize src)"
proof
  have app: "subrange a b (xs @ ys) = subrange a b xs" if "b \<le> length xs" for a b and xs ys :: bytes
    using that by (simp add: subrange_def)
  show "length (Checksum h) = 32 \<longrightarrow> DecodeBlockHeader (EncodeBlockHeader h @ rest) = Inr h"
    using Encode_fields [of h]
    by (simp add: DecodeBlockHeader_def EncodeBlockHeader_def header_layout app nth_append)
  show "case DecodeBlockHeader src of
      Inl e \<Rightarrow> e = ErrInvalidBlock \<and> length src < HeaderSize
    | Inr k \<Rightarrow> HeaderSize \<le> length src \<and> EncodeBlockHeader k = take HeaderSize src"
  proof (cases "length src < HeaderSize")
    case False
    then obtain k where k: "DecodeBlockHeader src = Inr k" "length (Checksum k) = 32"
      "Kind k = src ! 0" "Canceled k = src ! 53" "le64 (DataLen k) = subrange (Suc 0) 9 src"
      "le64 (Index k) = subrange 9 17 src" "le32 (Crc32 k) = subrange 17 21 src"
      "Checksum k = subrange 21 53 src"
      by (simp add: DecodeBlockHeader_def header_layout)
    then have "take 54 (Encode k) = take 54 src"
      using False Encode_fields [of k] header_split [of src] header_split [of "Encode k"]
      by (simp add: HeaderSize_val)
    with k False show ?thesis by (simp add: EncodeBlockHeader_def header_layout)
  qed (simp add: DecodeBlockHeader_def)
qed

text \<open>
  Witness of C37 at a header with non-zero fields.
\<close>

theorem header_roundtrip_witness:
  "DecodeBlockHeader (EncodeBlockHeader
      \<lparr> Kind = 1, DataLen = 300, Index = 7, Crc32 = 5, Checksum = replicate 32 9, Canceled = 1 \<rparr>
      @ [1, 2]) =
    Inr \<lparr> Kind = 1, DataLen = 300, Index = 7, Crc32 = 5, Checksum = replicate 32 9, Canceled = 1 \<rparr>"
  using header_roundtrip [of "\<lparr> Kind = 1, DataLen = 300, Index = 7, Crc32 = 5,
      Checksum = replicate 32 9, Canceled = 1 \<rparr>" "[1, 2]" "[]"]
  by simp

text \<open>
  Cancelling a block with a full header succeeds and is seen by \<^verbatim>\<open>IsCanceled\<close>; kind, length,
  index and CRC read as before, and the data is untouched. On a shorter block it reports
  \<^verbatim>\<open>ErrInvalidBlock\<close>.
\<close>

theorem SetCanceled_spec:
  "case SetCanceled b of
     Inl e \<Rightarrow> e = ErrInvalidBlock \<and> length (Raw b) < HeaderSize
   | Inr c \<Rightarrow> IsCanceled c = Inr True \<and> GetKind c = GetKind b \<and> GetLen c = GetLen b
       \<and> GetIndex c = GetIndex b \<and> GetCrc32 c = GetCrc32 b \<and> Hash c = Hash b
       \<and> DecodeObjectBlock (Raw c) = DecodeObjectBlock (Raw b)"
  by (simp add: SetCanceled_def IsCanceled_def GetKind_def GetLen_def GetIndex_def GetCrc32_def
      Hash_def DecodeObjectBlock_def Raw_def header_layout subrange_update_other)

text \<open>
  \<^verbatim>\<open>SetIndex\<close> writes a variable-length number where \<^verbatim>\<open>GetIndex\<close> reads eight little-endian
  bytes. Below 128 only the lowest byte of the index is replaced; from 128 up to \<^verbatim>\<open>2^56\<close> the index
  read back is never the one that was set.
\<close>

theorem SetIndex_GetIndex:
  assumes "SetIndex v b = Inr c"
  shows "(unat v < 128 \<longrightarrow>
      (\<exists>w. GetIndex b = Inr w \<and> GetIndex c = Inr (of_nat (unat v + 256 * (unat w div 256)))))
    \<and> (128 \<le> unat v \<and> unat v < 2 ^ 56 \<longrightarrow> GetIndex c \<noteq> Inr v)"
  using SetIndex_small [OF assms] SetIndex_large [OF assms] by blast

text \<open>Witness of C45 at index 300 of a block that holds no data, where 684 is read back.\<close>

theorem SetIndex_GetIndex_witness:
  "\<exists>c. SetIndex 300 (NewBlock 5 []) = Inr c \<and> GetIndex c \<noteq> Inr 300"
proof -
  obtain c where "SetIndex 300 (NewBlock 5 []) = Inr c"
    by (simp add: SetIndex_def NewBlock_def NewBlockWithHash_data HeaderSize_val)
  with SetIndex_GetIndex [of 300 "NewBlock 5 []" c] show ?thesis by simp
qed

end
