(* ===== verification/KV_Store.thy ===== *)
theory KV_Store
  imports Hugo_Prelude "HOL-Library.Char_ord" "HOL-Library.List_Lexorder"
begin

text \<open>
  The key-value store interface of \<^verbatim>\<open>src/pkg/store\<close>: the errors, the \<^verbatim>\<open>Store\<close> and
  \<^verbatim>\<open>Serializer\<close> interfaces as records of functions, the generic operations of \<^verbatim>\<open>store.go\<close>
  and transactions by \<^verbatim>\<open>DoInTxn\<close>. A function of the source that may fail and that changes the store
  is a function from the store's state to a result and the next state. What a store promises is in
  \<open>Store_Spec\<close>.
\<close>

section \<open>Errors\<close>

datatype grpc_code = InvalidArgument | NotFound | Internal | Aborted | Unknown | FailedPrecondition
  | AlreadyExists | Unavailable

datatype errno = ENOENT | EPERM | EACCES | EEXIST | ENOTDIR | ENOTEMPTY | EINVAL | ENOTSUP | EIO

text \<open>
  \<open>Status\<close> and \<open>Errno\<close> are gRPC status errors (their text is left out) and \<^verbatim>\<open>syscall.Errno\<close>;
  \<open>Wrapped\<close> is \<^verbatim>\<open>fmt.Errorf\<close> with \<^verbatim>\<open>%w\<close>; \<open>DbErr\<close> an error of the database with a number
  that tells errors apart; \<open>Panic\<close> a run-time panic, which no error test of the source sees.
\<close>

datatype error =
    ErrNilSerializer | ErrEmptyKey | ErrEmptyPrefix | ErrNotFound | ErrKeyEqPrefix
  | BadgerErrKeyNotFound | DbErr nat | JsonErr | ErrOther string
  | Status grpc_code | Errno errno | Wrapped error | Panic

text \<open>\<^verbatim>\<open>errors.Is(err, target)\<close>.\<close>

fun errors_Is :: "error \<Rightarrow> error \<Rightarrow> bool" where
  "errors_Is (Wrapped e) t \<longleftrightarrow> Wrapped e = t \<or> errors_Is e t"
| "errors_Is e t \<longleftrightarrow> e = t"

section \<open>Functions with a state and errors\<close>

type_synonym ('a, 's) gom = "'s \<Rightarrow> (error + 'a) \<times> 's"

definition returnE :: "'a \<Rightarrow> ('a, 's) gom" where "returnE x = (\<lambda>s. (Inr x, s))"

definition throwE :: "error \<Rightarrow> ('a, 's) gom" where "throwE e = (\<lambda>s. (Inl e, s))"

definition bindE :: "('a, 's) gom \<Rightarrow> ('a \<Rightarrow> ('b, 's) gom) \<Rightarrow> ('b, 's) gom" where
  "bindE m f = (\<lambda>s. case m s of (Inl e, t) \<Rightarrow> (Inl e, t) | (Inr x, t) \<Rightarrow> f x t)"

text \<open>\<open>tryE m f\<close> passes the result and error pair of \<open>m\<close> on to \<open>f\<close>; a panic is not passed on.\<close>

definition tryE :: "('a, 's) gom \<Rightarrow> (error + 'a \<Rightarrow> ('b, 's) gom) \<Rightarrow> ('b, 's) gom" where
  "tryE m f = (\<lambda>s. case m s of (r, t) \<Rightarrow> if r = Inl Panic then (Inl Panic, t) else f r t)"

definition liftE :: "error + 'a \<Rightarrow> ('a, 's) gom" where "liftE r = (\<lambda>s. (r, s))"

fun mapE :: "('a \<Rightarrow> ('b, 's) gom) \<Rightarrow> 'a list \<Rightarrow> ('b list, 's) gom" where
  "mapE f [] = returnE []"
| "mapE f (x # xs) = bindE (f x) (\<lambda>y. bindE (mapE f xs) (\<lambda>ys. returnE (y # ys)))"

named_theorems run_simps \<open>symbolic execution of functions with a state and errors\<close>

lemma returnE_run [run_simps]: "returnE x s = (Inr x, s)"
  by (simp add: returnE_def)

lemma throwE_run [run_simps]: "throwE e s = (Inl e, s)"
  by (simp add: throwE_def)

lemma liftE_run [run_simps]: "liftE r s = (r, s)"
  by (simp add: liftE_def)

lemma bindE_run [run_simps]:
  "bindE m f s = (case m s of (r, t) \<Rightarrow> (case r of Inl e \<Rightarrow> (Inl e, t) | Inr x \<Rightarrow> f x t))"
  by (simp add: bindE_def split: prod.split sum.split)

lemma tryE_run [run_simps]:
  "tryE m f s = (case m s of (r, t) \<Rightarrow> if r = Inl Panic then (Inl Panic, t) else f r t)"
  by (simp add: tryE_def)

section \<open>Stored values\<close>

text \<open>
  The store keeps byte strings. The metadata services write JSON documents and protobuf messages;
  a JSON document is kept as its syntax tree, so that only the text rendering of \<^verbatim>\<open>encoding/json\<close>
  is left out.
\<close>

datatype json = JNull | JBool bool | JNum int | JStr string | JArr "json list"
  | JObj "(string \<times> json) list"

datatype blob = JsonDoc json | Bytes bytes

section \<open>The interfaces\<close>

text \<open>
  Whether the context of a call carries the open transaction (\<^verbatim>\<open>TxnFromContext(ctx) != nil\<close>).
\<close>

type_synonym ctx = bool

record Entry_KV =
  Key :: string
  Val :: blob

text \<open>
  The methods of \<^verbatim>\<open>Store\<close> that the sources call, with the three methods of \<^verbatim>\<open>Transaction\<close>
  for the transaction of the context. A Go map is returned as an association list.
\<close>

record 's Store =
  Save :: "ctx \<Rightarrow> string \<Rightarrow> blob \<Rightarrow> (unit, 's) gom"
  Get :: "ctx \<Rightarrow> string \<Rightarrow> (blob, 's) gom"
  Scan :: "ctx \<Rightarrow> string \<Rightarrow> string \<Rightarrow> string \<Rightarrow> (Entry_KV list, 's) gom"
  Delete :: "ctx \<Rightarrow> string \<Rightarrow> (unit, 's) gom"
  SaveInBucket :: "ctx \<Rightarrow> string \<Rightarrow> string \<Rightarrow> blob \<Rightarrow> (unit, 's) gom"
  GetInBucket :: "ctx \<Rightarrow> string \<Rightarrow> string \<Rightarrow> (blob, 's) gom"
  DeleteInBucket :: "ctx \<Rightarrow> string \<Rightarrow> string \<Rightarrow> (unit, 's) gom"
  GetByBucket :: "ctx \<Rightarrow> string \<Rightarrow> ((string \<times> blob) list, 's) gom"
  DeleteByBucket :: "ctx \<Rightarrow> string \<Rightarrow> (unit, 's) gom"
  Incr :: "ctx \<Rightarrow> string \<Rightarrow> u64 \<Rightarrow> (u64, 's) gom"
  BatchSave :: "ctx \<Rightarrow> bool \<Rightarrow> Entry_KV list \<Rightarrow> (unit, 's) gom"
  BatchDeleteByKey :: "ctx \<Rightarrow> bool \<Rightarrow> string list \<Rightarrow> (unit, 's) gom"
  NewTransaction :: "(unit, 's) gom"
  Begin :: "(unit, 's) gom"
  Commit :: "(unit, 's) gom"
  Rollback :: "(unit, 's) gom"

record 'a Serializer =
  FormatKey :: string
  FormatPrefix :: string
  Serialize :: "error + blob"
  Deserialize :: "blob \<Rightarrow> error + 'a"
  BeforeSerialize :: "error option"
  AfterSerialize :: "error option"
  BeforeDeserialize :: "error option"
  AfterDeserialize :: "error option"

text \<open>A value of interface type may be nil; a builder may fail.\<close>

type_synonym 'a ser = "'a Serializer option"
type_synonym 'a builder = "error + 'a Serializer option"

text \<open>\<^verbatim>\<open>if err := ...; err != nil { return err }\<close> for a call that only yields an error.\<close>

definition checkE :: "error option \<Rightarrow> (unit, 's) gom" where
  "checkE r = (case r of None \<Rightarrow> returnE () | Some e \<Rightarrow> throwE e)"

section \<open>The generic operations\<close>

text \<open>
  \<^verbatim>\<open>DoInTxn\<close>: the deferred function rolls back when the callback returned an error and commits
  otherwise, also while a panic unwinds; errors of \<^verbatim>\<open>Begin\<close>, \<^verbatim>\<open>Commit\<close> and
  \<^verbatim>\<open>Rollback\<close> are dropped.
\<close>

definition ignoreE :: "(unit, 's) gom \<Rightarrow> (unit, 's) gom" where
  "ignoreE m = tryE m (\<lambda>_. returnE ())"

definition DoInTxn :: "'s Store \<Rightarrow> (ctx \<Rightarrow> ('a, 's) gom) \<Rightarrow> ('a, 's) gom" where
  "DoInTxn S cb =
     bindE (NewTransaction S) (\<lambda>_.
     bindE (ignoreE (Begin S)) (\<lambda>_ s.
       case cb True s of (r, t) \<Rightarrow>
         (case r of
            Inr x \<Rightarrow> bindE (ignoreE (Commit S)) (\<lambda>_. returnE x) t
          | Inl e \<Rightarrow> if e = Panic then bindE (ignoreE (Commit S)) (\<lambda>_. throwE Panic) t
                    else bindE (ignoreE (Rollback S)) (\<lambda>_. throwE e) t)))"

definition DoSaveInKVPair :: "'s Store \<Rightarrow> ctx \<Rightarrow> 'a ser \<Rightarrow> (unit, 's) gom" where
  "DoSaveInKVPair S c so = (case so of None \<Rightarrow> throwE ErrNilSerializer | Some z \<Rightarrow>
     if FormatKey z = [] then throwE ErrEmptyKey
     else if FormatKey z = FormatPrefix z then throwE ErrKeyEqPrefix
     else bindE (checkE (BeforeSerialize z)) (\<lambda>_.
          bindE (liftE (Serialize z)) (\<lambda>value.
          bindE (checkE (AfterSerialize z)) (\<lambda>_.
          Save S c (FormatKey z) value))))"

definition DoGetValueByKey :: "'s Store \<Rightarrow> ctx \<Rightarrow> 'a ser \<Rightarrow> ('a, 's) gom" where
  "DoGetValueByKey S c so = (case so of None \<Rightarrow> throwE ErrNilSerializer | Some z \<Rightarrow>
     if FormatKey z = [] then throwE ErrEmptyKey
     else if FormatKey z = FormatPrefix z then throwE ErrKeyEqPrefix
     else bindE (checkE (BeforeDeserialize z)) (\<lambda>_.
          bindE (Get S c (FormatKey z)) (\<lambda>buf.
          bindE (liftE (Deserialize z buf)) (\<lambda>value.
          bindE (checkE (AfterDeserialize z)) (\<lambda>_. returnE value)))))"

definition DoGetValuesByPrefix :: "'s Store \<Rightarrow> ctx \<Rightarrow> 'a ser \<Rightarrow> ((string \<times> 'a) list, 's) gom" where
  "DoGetValuesByPrefix S c so = (case so of None \<Rightarrow> throwE ErrNilSerializer | Some z \<Rightarrow>
     if FormatPrefix z = [] then throwE ErrEmptyPrefix
     else bindE (GetByBucket S c (FormatPrefix z)) (\<lambda>bufMap.
          mapE (\<lambda>(key, buf). bindE (liftE (Deserialize z buf)) (\<lambda>value. returnE (key, value))) bufMap))"

definition DoDeleteByKey :: "'s Store \<Rightarrow> ctx \<Rightarrow> 'a ser \<Rightarrow> (unit, 's) gom" where
  "DoDeleteByKey S c so = (case so of None \<Rightarrow> throwE ErrNilSerializer | Some z \<Rightarrow>
     if FormatKey z = [] then throwE ErrEmptyKey
     else if FormatKey z = FormatPrefix z then throwE ErrKeyEqPrefix
     else Delete S c (FormatKey z))"

definition DoDeleteByPrefix :: "'s Store \<Rightarrow> ctx \<Rightarrow> 'a ser \<Rightarrow> (unit, 's) gom" where
  "DoDeleteByPrefix S c so = (case so of None \<Rightarrow> throwE ErrNilSerializer | Some z \<Rightarrow>
     if FormatPrefix z = [] then throwE ErrEmptyPrefix
     else if FormatPrefix z = FormatKey z then throwE ErrKeyEqPrefix
     else Delete S c (FormatPrefix z))"

text \<open>\<^verbatim>\<open>s.Serialize()\<close> on a nil interface value panics.\<close>

definition batch_entry :: "'a ser \<Rightarrow> error + Entry_KV" where
  "batch_entry so = (case so of None \<Rightarrow> Inl Panic | Some z \<Rightarrow>
     (case Serialize z of Inl e \<Rightarrow> Inl e | Inr v \<Rightarrow> Inr \<lparr> Key = FormatKey z, Val = v \<rparr>))"

definition DoBatchSaveStrictly :: "'s Store \<Rightarrow> ctx \<Rightarrow> 'a ser list \<Rightarrow> (unit, 's) gom" where
  "DoBatchSaveStrictly S c sers =
     bindE (mapE (\<lambda>z. liftE (batch_entry z)) sers) (\<lambda>entries. BatchSave S c False entries)"

text \<open>\<^verbatim>\<open>LossySerializer\<close> is the part of a serializer that \<^verbatim>\<open>DoBatchSaveAnyStrictly\<close> needs.\<close>

record LossySerializer =
  lossy_Serialize :: "error + blob"
  lossy_FormatKey :: string

definition DoBatchSaveAnyStrictly :: "'s Store \<Rightarrow> ctx \<Rightarrow> LossySerializer list \<Rightarrow> (unit, 's) gom" where
  "DoBatchSaveAnyStrictly S c sers =
     bindE (mapE (\<lambda>z. bindE (liftE (lossy_Serialize z))
                        (\<lambda>v. returnE \<lparr> Key = lossy_FormatKey z, Val = v \<rparr>)) sers)
       (\<lambda>entries. BatchSave S c False entries)"

definition DoBatchDeleteStrictly :: "'s Store \<Rightarrow> ctx \<Rightarrow> 'a Serializer list \<Rightarrow> (unit, 's) gom" where
  "DoBatchDeleteStrictly S c sers = BatchDeleteByKey S c False (map FormatKey sers)"

definition GetValueByKey :: "'s Store \<Rightarrow> ctx \<Rightarrow> 'a builder \<Rightarrow> ('a, 's) gom" where
  "GetValueByKey S c b = bindE (liftE b) (\<lambda>z. DoGetValueByKey S c z)"

definition SaveInKVPair :: "'s Store \<Rightarrow> ctx \<Rightarrow> 'a builder \<Rightarrow> (unit, 's) gom" where
  "SaveInKVPair S c b = bindE (liftE b) (\<lambda>z. DoSaveInKVPair S c z)"

definition GetValuesByPrefix :: "'s Store \<Rightarrow> ctx \<Rightarrow> 'a builder \<Rightarrow> ((string \<times> 'a) list, 's) gom" where
  "GetValuesByPrefix S c b = bindE (liftE b) (\<lambda>z. DoGetValuesByPrefix S c z)"

definition Incr_generic :: "'s Store \<Rightarrow> ctx \<Rightarrow> 'a ser \<Rightarrow> (u64, 's) gom" where
  "Incr_generic S c so = (case so of None \<Rightarrow> throwE ErrNilSerializer | Some z \<Rightarrow>
     if FormatKey z = [] then throwE ErrEmptyPrefix else Incr S c (FormatKey z) 1)"

definition DeleteByKey :: "'s Store \<Rightarrow> ctx \<Rightarrow> 'a builder \<Rightarrow> (unit, 's) gom" where
  "DeleteByKey S c b = bindE (liftE b) (\<lambda>z. DoDeleteByKey S c z)"

definition DeleteByPrefix :: "'s Store \<Rightarrow> ctx \<Rightarrow> 'a builder \<Rightarrow> (unit, 's) gom" where
  "DeleteByPrefix S c b = bindE (liftE b) (\<lambda>z. DoDeleteByPrefix S c z)"

text \<open>
  The two batch readers first make a slice of the final length and then append to it, so their
  slices start with as many nil values as there are arguments.
\<close>

definition BatchDoGetValueByKey :: "'s Store \<Rightarrow> ctx \<Rightarrow> 'a ser list \<Rightarrow> ('a option list, 's) gom" where
  "BatchDoGetValueByKey S c sers =
     bindE (mapE (\<lambda>z. bindE (DoGetValueByKey S c z) (\<lambda>v. returnE (Some v))) sers)
       (\<lambda>vals. returnE (replicate (length sers) None @ vals))"

definition BatchGetValueByKey :: "'s Store \<Rightarrow> ctx \<Rightarrow> 'a builder list \<Rightarrow> ('a option list, 's) gom" where
  "BatchGetValueByKey S c bs =
     bindE (mapE liftE bs)
       (\<lambda>sers. BatchDoGetValueByKey S c (replicate (length bs) None @ sers))"

end
