(* ===== verification/Store_Spec.thy ===== *)
theory Store_Spec
  imports KV_Store
begin

text \<open>
  What a store promises. \<open>spec_store\<close> is a store whose content is a sorted association list, with
  at most one open transaction that works on a copy of it, and numbered sequences beside it. The
  relation \<open>sim\<close> compares a program run on some store with the same program run on \<open>spec_store\<close>;
  the locale \<open>kv_refines\<close> is the contract of a store, from which \<open>sim\<close> follows for every program
  built with the combinators of the model.
\<close>

section \<open>Sorted association lists\<close>

type_synonym kv = "(string \<times> blob) list"

fun kv_ins :: "string \<Rightarrow> blob \<Rightarrow> kv \<Rightarrow> kv" where
  "kv_ins k v [] = [(k, v)]"
| "kv_ins k v ((a, b) # r) =
     (if k < a then (k, v) # (a, b) # r else if k = a then (k, v) # r else (a, b) # kv_ins k v r)"

definition kv_del :: "string \<Rightarrow> kv \<Rightarrow> kv" where
  "kv_del k xs = filter (\<lambda>(a, _). a \<noteq> k) xs"

definition kv_ok :: "kv \<Rightarrow> bool" where
  "kv_ok xs \<longleftrightarrow> sorted_wrt (<) (map fst xs)"

section \<open>The specification of a store\<close>

text \<open>
  The key of the inode sequence is kept by the database itself and is no ordinary key.
\<close>

definition InoKey :: string where "InoKey = ''i''"

text \<open>
  The keys the contract speaks of: not empty, not the sequence key, and outside the name space the
  database reserves for itself.
\<close>

definition plain_key :: "string \<Rightarrow> bool" where
  "plain_key k \<longleftrightarrow> k \<noteq> [] \<and> k \<noteq> InoKey \<and> \<not> prefix ''!badger!'' k"

record spec =
  committed :: kv
  pending :: "kv option"
  seqs :: "string \<Rightarrow> u64"

definition spec_view :: "ctx \<Rightarrow> spec \<Rightarrow> kv option" where
  "spec_view c m = (if c then pending m else Some (committed m))"

definition spec_read :: "ctx \<Rightarrow> (kv \<Rightarrow> error + 'a) \<Rightarrow> ('a, spec) gom" where
  "spec_read c g m = (case spec_view c m of None \<Rightarrow> (Inl Panic, m) | Some kv \<Rightarrow> (g kv, m))"

definition spec_write :: "ctx \<Rightarrow> (kv \<Rightarrow> kv) \<Rightarrow> (unit, spec) gom" where
  "spec_write c f m = (if c
     then (case pending m of None \<Rightarrow> (Inl Panic, m)
           | Some kv \<Rightarrow> (Inr (), m \<lparr> pending := Some (f kv) \<rparr>))
     else (Inr (), m \<lparr> committed := f (committed m) \<rparr>))"

text \<open>A trailing separator is no part of a key that is looked up, unless it is the whole key.\<close>

definition norm_key :: "string \<Rightarrow> string" where
  "norm_key k = (if k = ''/'' then k else trim_slash k)"

definition bucket_prefix :: "string \<Rightarrow> string" where
  "bucket_prefix k = (if norm_key k = ''/'' then ''/'' else norm_key k @ ''/'')"

definition in_bucket :: "string \<Rightarrow> string \<Rightarrow> bool" where
  "in_bucket k x \<longleftrightarrow> prefix (bucket_prefix k) x \<and> x \<noteq> norm_key k
     \<and> \<not> (norm_key k = ''/'' \<and> count_list x CHR ''/'' > 1)"

definition lookup_kv :: "string \<Rightarrow> kv \<Rightarrow> error + blob" where
  "lookup_kv k kv = (case map_of kv (norm_key k) of None \<Rightarrow> Inl ErrNotFound | Some v \<Rightarrow> Inr v)"

definition bucket_kv :: "string \<Rightarrow> kv \<Rightarrow> kv" where
  "bucket_kv k kv = filter (\<lambda>(x, _). in_bucket k x) kv"

definition to_entry :: "string \<times> blob \<Rightarrow> Entry_KV" where
  "to_entry p = \<lparr> Key = fst p, Val = snd p \<rparr>"

definition scan_kv :: "string \<Rightarrow> string \<Rightarrow> string \<Rightarrow> kv \<Rightarrow> Entry_KV list" where
  "scan_kv pre lo hi kv = map to_entry
     (takeWhile (\<lambda>(x, _). \<not> (hi \<noteq> [] \<and> hi < x))
       (takeWhile (\<lambda>(x, _). prefix pre x) (dropWhile (\<lambda>(x, _). x < lo) kv)))"

definition del_bucket_kv :: "string \<Rightarrow> kv \<Rightarrow> kv" where
  "del_bucket_kv p kv =
     (let q = (if suffix ''/'' p then p else p @ ''/'') in filter (\<lambda>(x, _). \<not> prefix q x) kv)"

definition spec_incr :: "string \<Rightarrow> u64 \<Rightarrow> (u64, spec) gom" where
  "spec_incr k n m = (if n = 0 then (Inl (DbErr 0), m)
     else (Inr (seqs m k + 1), m \<lparr> seqs := (seqs m)(k := seqs m k + 1) \<rparr>))"

definition spec_begin :: "(unit, spec) gom" where
  "spec_begin m = (Inr (), m \<lparr> pending := Some (committed m) \<rparr>)"

definition spec_commit :: "(unit, spec) gom" where
  "spec_commit m = (case pending m of None \<Rightarrow> (Inl Panic, m)
     | Some kv \<Rightarrow> (Inr (), m \<lparr> committed := kv, pending := None \<rparr>))"

definition spec_rollback :: "(unit, spec) gom" where
  "spec_rollback m = (case pending m of None \<Rightarrow> (Inl Panic, m)
     | Some kv \<Rightarrow> (Inr (), m \<lparr> pending := None \<rparr>))"

definition spec_store :: "spec Store" where
  "spec_store = \<lparr>
     Save = \<lambda>c k v. spec_write c (kv_ins k v),
     Get = \<lambda>c k. spec_read c (lookup_kv k),
     Scan = \<lambda>c p lo hi. spec_read c (\<lambda>kv. Inr (scan_kv p lo hi kv)),
     Delete = \<lambda>c k. spec_write c (kv_del k),
     SaveInBucket = \<lambda>c b k v. spec_write c (kv_ins (b @ ''/'' @ k) v),
     GetInBucket = \<lambda>c b k. spec_read c (lookup_kv (b @ ''/'' @ k)),
     DeleteInBucket = \<lambda>c b k. spec_write c (kv_del (b @ ''/'' @ k)),
     GetByBucket = \<lambda>c k. spec_read c (\<lambda>kv. Inr (bucket_kv k kv)),
     DeleteByBucket = \<lambda>c p. spec_write c (del_bucket_kv p),
     Incr = \<lambda>c. spec_incr,
     BatchSave = \<lambda>c ign es. spec_write c (fold (\<lambda>e. kv_ins (Key e) (Val e)) es),
     BatchDeleteByKey = \<lambda>c ign ks. spec_write c (fold kv_del ks),
     NewTransaction = returnE (),
     Begin = spec_begin,
     Commit = spec_commit,
     Rollback = spec_rollback \<rparr>"

section \<open>Laws of sorted association lists\<close>

lemma map_of_kv_ins [simp]: "map_of (kv_ins k v xs) = (map_of xs)(k \<mapsto> v)"
  by (induction xs rule: kv_ins.induct) (auto simp: fun_eq_iff)

lemma map_of_kv_del [simp]: "map_of (kv_del k xs) = (map_of xs)(k := None)"
  by (induction xs) (auto simp: kv_del_def fun_eq_iff)

lemma keys_kv_ins [simp]: "fst ` set (kv_ins k v xs) = insert k (fst ` set xs)"
  by (induction xs rule: kv_ins.induct) auto

lemma keys_kv_del [simp]: "fst ` set (kv_del k xs) = fst ` set xs - {k}"
  by (auto simp: kv_del_def)

lemma kv_ok_Cons: "kv_ok ((a, b) # r) \<longleftrightarrow> (\<forall>x \<in> fst ` set r. a < x) \<and> kv_ok r"
  by (auto simp: kv_ok_def)

lemma kv_ok_Nil [simp]: "kv_ok []"
  by (simp add: kv_ok_def)

lemma kv_ok_ins [intro]: "kv_ok xs \<Longrightarrow> kv_ok (kv_ins k v xs)"
  by (induction xs rule: kv_ins.induct) (auto simp: kv_ok_Cons simp del: image_iff)

lemma kv_ok_filter [intro]: "kv_ok xs \<Longrightarrow> kv_ok (filter P xs)"
  by (induction xs) (auto simp: kv_ok_Cons)

lemma kv_ok_del [intro]: "kv_ok xs \<Longrightarrow> kv_ok (kv_del k xs)"
  by (auto simp: kv_del_def)

lemma kv_ok_distinct: "kv_ok xs \<Longrightarrow> distinct (map fst xs)"
  by (simp add: kv_ok_def strict_sorted_iff)

text \<open>A sorted association list is determined by its map.\<close>

lemma alist_eta:
  "distinct (map fst xs) \<Longrightarrow> map (\<lambda>k. (k, the (map_of xs k))) (map fst xs) = xs"
  by (auto simp: o_def intro!: map_idI)

lemma kv_ok_keys: "kv_ok xs \<Longrightarrow> sorted_list_of_set (fst ` set xs) = map fst xs"
  using strict_sorted_equal [of "sorted_list_of_set (fst ` set xs)" "map fst xs"]
  by (simp add: kv_ok_def)

lemma kv_ok_map_of_eq:
  assumes "kv_ok xs" and "kv_ok ys" and "map_of xs = map_of ys"
  shows "xs = ys"
proof -
  have d: "distinct (map fst xs)" "distinct (map fst ys)"
    using assms kv_ok_distinct by auto
  have "fst ` set xs = fst ` set ys" using assms(3) by (metis dom_map_of_conv_image_fst)
  then have "map fst xs = map fst ys" using assms by (metis kv_ok_keys)
  then show ?thesis using alist_eta [OF d(1)] alist_eta [OF d(2)] assms(3) by simp
qed

lemma map_of_filter_keys:
  "map_of (filter (\<lambda>(x, _). P x) xs) k = (if P k then map_of xs k else None)"
  by (induction xs) auto

lemma filter_kv_eq:
  assumes "kv_ok xs" and "kv_ok ys" and "\<And>k. P k \<Longrightarrow> map_of xs k = map_of ys k"
  shows "filter (\<lambda>(x, _). P x) xs = filter (\<lambda>(x, _). P x) ys"
  by (rule kv_ok_map_of_eq) (use assms in \<open>auto simp: map_of_filter_keys\<close>)

section \<open>Running programs on the specification\<close>

lemma spec_store_simps [run_simps]:
  "Save spec_store c k v = spec_write c (kv_ins k v)"
  "Get spec_store c k = spec_read c (lookup_kv k)"
  "Delete spec_store c k = spec_write c (kv_del k)"
  "GetByBucket spec_store c k = spec_read c (\<lambda>kv. Inr (bucket_kv k kv))"
  "Incr spec_store c = spec_incr"
  "BatchSave spec_store c ign es = spec_write c (fold (\<lambda>e. kv_ins (Key e) (Val e)) es)"
  "BatchDeleteByKey spec_store c ign ks = spec_write c (fold kv_del ks)"
  "Scan spec_store c p lo hi = spec_read c (\<lambda>kv. Inr (scan_kv p lo hi kv))"
  "NewTransaction spec_store = returnE ()"
  "Begin spec_store = spec_begin"
  "Commit spec_store = spec_commit"
  "Rollback spec_store = spec_rollback"
  by (simp_all add: spec_store_def)

lemma spec_read_run [run_simps]:
  "spec_read False g m = (g (committed m), m)"
  "pending m = Some kv \<Longrightarrow> spec_read True g m = (g kv, m)"
  by (simp_all add: spec_read_def spec_view_def)

lemma spec_write_run [run_simps]:
  "spec_write False f m = (Inr (), m \<lparr> committed := f (committed m) \<rparr>)"
  "pending m = Some kv \<Longrightarrow> spec_write True f m = (Inr (), m \<lparr> pending := Some (f kv) \<rparr>)"
  by (simp_all add: spec_write_def)

text \<open>
  A transaction on the specification: the callback runs on a copy of the content, which becomes the
  content when the callback succeeds and is dropped when it returns an error.
\<close>

definition txn_end :: "error + 'a \<Rightarrow> spec \<Rightarrow> (error + 'a) \<times> spec" where
  "txn_end r t = (case pending t of None \<Rightarrow> (Inl Panic, t)
     | Some kv \<Rightarrow> (r, if r \<in> range Inr \<or> r = Inl Panic then t \<lparr> committed := kv, pending := None \<rparr>
                      else t \<lparr> pending := None \<rparr>))"

lemma DoInTxn_run [run_simps]:
  "DoInTxn spec_store cb m =
     (case cb True (m \<lparr> pending := Some (committed m) \<rparr>) of (r, t) \<Rightarrow> txn_end r t)"
  by (auto simp: DoInTxn_def run_simps spec_begin_def spec_commit_def spec_rollback_def ignoreE_def
      txn_end_def split: prod.split sum.split option.split)

lemma txn_end_run [run_simps]:
  "pending t = Some kv \<Longrightarrow> txn_end (Inr x) t = (Inr x, t \<lparr> committed := kv, pending := None \<rparr>)"
  "pending t = Some kv \<Longrightarrow> e \<noteq> Panic \<Longrightarrow> txn_end (Inl e) t = (Inl e, t \<lparr> pending := None \<rparr>)"
  "pending t = Some kv \<Longrightarrow> txn_end (Inl Panic) t = (Inl Panic, t \<lparr> committed := kv, pending := None \<rparr>)"
  by (auto simp: txn_end_def)

section \<open>Refinement of programs\<close>

definition sim :: "('s \<Rightarrow> 't \<Rightarrow> bool) \<Rightarrow> ('a, 's) gom \<Rightarrow> ('a, 't) gom \<Rightarrow> bool" where
  "sim R p q \<longleftrightarrow> (\<forall>s m. R s m \<longrightarrow> fst (p s) = fst (q m) \<and> R (snd (p s)) (snd (q m)))"

named_theorems sim_intros \<open>introduction rules for refinement of programs\<close>

lemma simD: "sim R p q \<Longrightarrow> R s m \<Longrightarrow> fst (p s) = fst (q m) \<and> R (snd (p s)) (snd (q m))"
  by (simp add: sim_def)

lemma simE:
  assumes "sim R p q" and "R s m"
  obtains r s' m' where "p s = (r, s')" and "q m = (r, m')" and "R s' m'"
  using assms by (cases "p s"; cases "q m") (force simp: sim_def)

lemma sim_returnE [sim_intros]: "sim R (returnE x) (returnE x)"
  by (simp add: sim_def run_simps)

lemma sim_throwE [sim_intros]: "sim R (throwE e) (throwE e)"
  by (simp add: sim_def run_simps)

lemma sim_liftE [sim_intros]: "sim R (liftE r) (liftE r)"
  by (simp add: sim_def run_simps)

lemma sim_bindE [sim_intros]:
  assumes "sim R p q" and "\<And>x. sim R (f x) (g x)"
  shows "sim R (bindE p f) (bindE q g)"
  unfolding sim_def
proof (intro allI impI)
  fix s m assume "R s m"
  with assms(1) obtain r s' m' where "p s = (r, s')" "q m = (r, m')" "R s' m'" by (rule simE)
  with assms(2) show "fst (bindE p f s) = fst (bindE q g m) \<and>
      R (snd (bindE p f s)) (snd (bindE q g m))"
    by (cases r) (auto simp: run_simps dest: simD)
qed

lemma sim_tryE [sim_intros]:
  assumes "sim R p q" and "\<And>r. sim R (f r) (g r)"
  shows "sim R (tryE p f) (tryE q g)"
  unfolding sim_def
proof (intro allI impI)
  fix s m assume "R s m"
  with assms(1) obtain r s' m' where "p s = (r, s')" "q m = (r, m')" "R s' m'" by (rule simE)
  with assms(2) show "fst (tryE p f s) = fst (tryE q g m) \<and>
      R (snd (tryE p f s)) (snd (tryE q g m))"
    by (auto simp: run_simps dest: simD)
qed

lemma sim_mapE [sim_intros]:
  assumes "\<And>x. sim R (f x) (g x)"
  shows "sim R (mapE f xs) (mapE g xs)"
  by (induction xs) (auto intro!: sim_intros assms)

lemma sim_if [sim_intros]:
  "(b \<Longrightarrow> sim R p q) \<Longrightarrow> (\<not> b \<Longrightarrow> sim R p' q') \<Longrightarrow> sim R (if b then p else p') (if b then q else q')"
  by simp

lemma sim_option [sim_intros]:
  "(x = None \<Longrightarrow> sim R p q) \<Longrightarrow> (\<And>y. x = Some y \<Longrightarrow> sim R (p' y) (q' y)) \<Longrightarrow>
   sim R (case x of None \<Rightarrow> p | Some y \<Rightarrow> p' y) (case x of None \<Rightarrow> q | Some y \<Rightarrow> q' y)"
  by (simp split: option.split)

lemma sim_sum [sim_intros]:
  "(\<And>y. x = Inl y \<Longrightarrow> sim R (p y) (q y)) \<Longrightarrow> (\<And>y. x = Inr y \<Longrightarrow> sim R (p' y) (q' y)) \<Longrightarrow>
   sim R (case x of Inl y \<Rightarrow> p y | Inr y \<Rightarrow> p' y) (case x of Inl y \<Rightarrow> q y | Inr y \<Rightarrow> q' y)"
  by (simp split: sum.split)

lemma sim_prod [sim_intros]:
  "(\<And>y z. x = (y, z) \<Longrightarrow> sim R (p y z) (q y z)) \<Longrightarrow>
   sim R (case x of (y, z) \<Rightarrow> p y z) (case x of (y, z) \<Rightarrow> q y z)"
  by (simp split: prod.split)

lemma sim_checkE [sim_intros]: "sim R (checkE r) (checkE r)"
  by (simp add: checkE_def sim_intros split: option.split)


text \<open>The batch operations fix their entries before the store is called.\<close>

fun sum_map :: "('a \<Rightarrow> error + 'b) \<Rightarrow> 'a list \<Rightarrow> error + 'b list" where
  "sum_map f [] = Inr []"
| "sum_map f (x # xs) = (case f x of Inl e \<Rightarrow> Inl e | Inr y \<Rightarrow>
     (case sum_map f xs of Inl e \<Rightarrow> Inl e | Inr ys \<Rightarrow> Inr (y # ys)))"

lemma mapE_liftE: "mapE (\<lambda>z. liftE (f z)) xs = liftE (sum_map f xs)"
proof (induction xs)
  case (Cons x xs)
  then show ?case by (auto simp: fun_eq_iff run_simps split: sum.split)
qed (simp add: fun_eq_iff run_simps)

lemma mapE_liftE_run [run_simps]: "mapE (\<lambda>z. liftE (f z)) xs s = (sum_map f xs, s)"
  by (simp add: mapE_liftE run_simps)

lemma sim_bind_lift:
  "(\<And>x. r = Inr x \<Longrightarrow> sim R (f x) (g x)) \<Longrightarrow> sim R (bindE (liftE r) f) (bindE (liftE r) g)"
  by (cases r) (auto simp: sim_def run_simps)

lemma sum_map_in:
  "sum_map f xs = Inr ys \<Longrightarrow> y \<in> set ys \<Longrightarrow> \<exists>x \<in> set xs. f x = Inr y"
  by (induction xs arbitrary: ys) (auto split: sum.splits)

lemma batch_keys:
  assumes "sum_map batch_entry sers = Inr es" and "e \<in> set es"
  shows "\<exists>z. Some z \<in> set sers \<and> Key e = FormatKey z"
  using sum_map_in [OF assms] by (force simp: batch_entry_def split: option.splits sum.splits)

definition lossy_entry :: "LossySerializer \<Rightarrow> error + Entry_KV" where
  "lossy_entry z = (case lossy_Serialize z of Inl e \<Rightarrow> Inl e
     | Inr v \<Rightarrow> Inr \<lparr> Key = lossy_FormatKey z, Val = v \<rparr>)"

lemma DoBatchSaveAnyStrictly_lift:
  "DoBatchSaveAnyStrictly S c sers =
     bindE (liftE (sum_map lossy_entry sers)) (\<lambda>entries. BatchSave S c False entries)"
proof -
  have "bindE (liftE (lossy_Serialize z)) (\<lambda>v. returnE \<lparr> Key = lossy_FormatKey z, Val = v \<rparr>)
      = (liftE (lossy_entry z) :: (Entry_KV, 'a) gom)" for z
    by (auto simp: lossy_entry_def run_simps fun_eq_iff split: sum.split)
  then show ?thesis by (simp add: DoBatchSaveAnyStrictly_def mapE_liftE)
qed

lemma lossy_keys:
  assumes "sum_map lossy_entry sers = Inr es" and "e \<in> set es"
  shows "\<exists>z \<in> set sers. Key e = lossy_FormatKey z"
  using sum_map_in [OF assms] by (force simp: lossy_entry_def split: sum.splits)

section \<open>The contract of a store\<close>

text \<open>
  \<open>R False\<close> relates the states of the store and of the specification while no transaction is open,
  \<open>R True\<close> while one is. The contract covers the calls the metadata services make: plain keys, the
  context of the open transaction while there is one, and the inode sequence at any time.
\<close>

locale kv_refines =
  fixes S :: "'s Store" and R :: "bool \<Rightarrow> 's \<Rightarrow> spec \<Rightarrow> bool"
  assumes sim_Save: "plain_key k \<Longrightarrow> sim (R c) (Save S c k v) (Save spec_store c k v)"
    and sim_Get: "plain_key (norm_key k) \<Longrightarrow> sim (R c) (Get S c k) (Get spec_store c k)"
    and sim_Delete: "plain_key k \<Longrightarrow> sim (R c) (Delete S c k) (Delete spec_store c k)"
    and sim_GetByBucket: "sim (R c) (GetByBucket S c k) (GetByBucket spec_store c k)"
    and sim_Incr: "sim (R c) (Incr S c InoKey n) (Incr spec_store c InoKey n)"
    and sim_BatchSave: "list_all (\<lambda>e. plain_key (Key e)) es \<Longrightarrow>
      sim (R c) (BatchSave S c ign es) (BatchSave spec_store c ign es)"
    and sim_BatchDeleteByKey: "list_all plain_key ks \<Longrightarrow>
      sim (R c) (BatchDeleteByKey S c ign ks) (BatchDeleteByKey spec_store c ign ks)"
    and sim_NewTransaction: "sim (R False) (NewTransaction S) (NewTransaction spec_store)"
    and begin_txn: "R False s m \<Longrightarrow>
      \<exists>t. Begin S s = (Inr (), t) \<and> R True t (snd (spec_begin m))"
    and commit_txn: "R True s m \<Longrightarrow>
      \<exists>t. Commit S s = (Inr (), t) \<and> R False t (snd (spec_commit m)) \<and> fst (spec_commit m) = Inr ()"
    and rollback_txn: "R True s m \<Longrightarrow>
      \<exists>t. Rollback S s = (Inr (), t) \<and> R False t (snd (spec_rollback m))
          \<and> fst (spec_rollback m) = Inr ()"
begin

text \<open>A transaction refines when its callback does, inside the transaction.\<close>

lemma sim_DoInTxn:
  assumes "sim (R True) (cb True) (cb' True)"
  shows "sim (R False) (DoInTxn S cb) (DoInTxn spec_store cb')"
  unfolding sim_def
proof (intro allI impI)
  fix s m assume "R False s m"
  with sim_NewTransaction obtain r s0 m0 where 0: "NewTransaction S s = (r, s0)"
    "NewTransaction spec_store m = (r, m0)" "R False s0 m0" by (rule simE)
  then have r: "r = Inr ()" "m0 = m" by (simp_all add: run_simps)
  from begin_txn [OF 0(3)] obtain t where t: "Begin S s0 = (Inr (), t)" "R True t (snd (spec_begin m0))"
    by blast
  from assms t(2) obtain q t' m' where q: "cb True t = (q, t')"
    "cb' True (snd (spec_begin m0)) = (q, m')" "R True t' m'" by (rule simE)
  obtain mb where mb: "spec_begin m = (Inr (), mb)" by (simp add: spec_begin_def)
  from commit_txn [OF q(3)] obtain tc mc where c: "Commit S t' = (Inr (), tc)"
    "spec_commit m' = (Inr (), mc)" "R False tc mc" by (metis prod.collapse)
  from rollback_txn [OF q(3)] obtain tr mr where b: "Rollback S t' = (Inr (), tr)"
    "spec_rollback m' = (Inr (), mr)" "R False tr mr" by (metis prod.collapse)
  show "fst (DoInTxn S cb s) = fst (DoInTxn spec_store cb' m) \<and>
      R False (snd (DoInTxn S cb s)) (snd (DoInTxn spec_store cb' m))"
    using 0 r t q mb b c by (cases q) (auto simp: DoInTxn_def ignoreE_def run_simps)
qed

lemma sim_DoSaveInKVPair:
  assumes "\<And>z. so = Some z \<Longrightarrow> FormatKey z \<noteq> [] \<Longrightarrow> plain_key (FormatKey z)"
  shows "sim (R c) (DoSaveInKVPair S c so) (DoSaveInKVPair spec_store c so)"
  using assms unfolding DoSaveInKVPair_def by (intro sim_intros sim_Save) auto

lemma sim_DoGetValueByKey:
  assumes "\<And>z. so = Some z \<Longrightarrow> FormatKey z \<noteq> [] \<Longrightarrow> FormatKey z \<noteq> FormatPrefix z \<Longrightarrow>
    plain_key (norm_key (FormatKey z))"
  shows "sim (R c) (DoGetValueByKey S c so) (DoGetValueByKey spec_store c so)"
  using assms unfolding DoGetValueByKey_def by (intro sim_intros sim_Get) auto

lemma sim_DoGetValuesByPrefix:
  "sim (R c) (DoGetValuesByPrefix S c so) (DoGetValuesByPrefix spec_store c so)"
  unfolding DoGetValuesByPrefix_def by (intro sim_intros sim_GetByBucket)

lemma sim_DoDeleteByKey:
  assumes "\<And>z. so = Some z \<Longrightarrow> FormatKey z \<noteq> [] \<Longrightarrow> plain_key (FormatKey z)"
  shows "sim (R c) (DoDeleteByKey S c so) (DoDeleteByKey spec_store c so)"
  using assms unfolding DoDeleteByKey_def by (intro sim_intros sim_Delete) auto

lemma sim_DoBatchSaveStrictly:
  assumes "\<And>z. Some z \<in> set sers \<Longrightarrow> plain_key (FormatKey z)"
  shows "sim (R c) (DoBatchSaveStrictly S c sers) (DoBatchSaveStrictly spec_store c sers)"
  unfolding DoBatchSaveStrictly_def mapE_liftE
  by (intro sim_bind_lift sim_BatchSave) (use assms batch_keys in \<open>fastforce simp: list_all_iff\<close>)

lemma sim_DoBatchSaveAnyStrictly:
  assumes "\<And>z. z \<in> set sers \<Longrightarrow> plain_key (lossy_FormatKey z)"
  shows "sim (R c) (DoBatchSaveAnyStrictly S c sers) (DoBatchSaveAnyStrictly spec_store c sers)"
  unfolding DoBatchSaveAnyStrictly_lift
  by (intro sim_bind_lift sim_BatchSave) (use assms lossy_keys in \<open>fastforce simp: list_all_iff\<close>)

lemma sim_DoBatchDeleteStrictly:
  assumes "\<And>z. z \<in> set sers \<Longrightarrow> plain_key (FormatKey z)"
  shows "sim (R c) (DoBatchDeleteStrictly S c sers) (DoBatchDeleteStrictly spec_store c sers)"
  using assms unfolding DoBatchDeleteStrictly_def
  by (intro sim_BatchDeleteByKey) (auto simp: list_all_iff)

end

end
