(* ===== verification/Inode_Types.thy ===== *)
theory Inode_Types
  imports Store_Spec
begin

text \<open>
  The data of the inode service: \<^verbatim>\<open>src/pkg/meta/inode/attr.go\<close>, \<^verbatim>\<open>entry.go\<close> and
  \<^verbatim>\<open>helper.go\<close>, the messages \<^verbatim>\<open>Attr\<close> and \<^verbatim>\<open>ModifyAttr\<close> of \<^verbatim>\<open>src/pb/meta\<close>, the flags of
  \<^verbatim>\<open>src/global/const.go\<close> and the caller's credentials of \<^verbatim>\<open>src/pkg/util/context.go\<close>. Attributes and
  entries are stored as JSON documents under keys made of numbers and names; the codec is the
  reflection of the struct tags.
\<close>

section \<open>Messages and records\<close>

type_synonym Ino = u64

text \<open>\<^verbatim>\<open>pb.Attr\<close>; the times are signed 64-bit numbers.\<close>

record pb_attr =
  pb_Size :: u64
  pb_Mtime :: u64
  pb_Mtimens :: u32
  pb_Atime :: u64
  pb_Atimens :: u32
  pb_Ctime :: u64
  pb_Ctimens :: u32
  pb_Uid :: u32
  pb_Gid :: u32
  pb_Mode :: u32
  pb_Nlink :: u32
  pb_Rdev :: u32
  pb_Inode :: u64
  pb_LinkTarget :: string
  pb_Flags :: u32
  pb_Epoch :: u32

definition zero_pb :: pb_attr where
  "zero_pb = \<lparr> pb_Size = 0, pb_Mtime = 0, pb_Mtimens = 0, pb_Atime = 0, pb_Atimens = 0,
     pb_Ctime = 0, pb_Ctimens = 0, pb_Uid = 0, pb_Gid = 0, pb_Mode = 0, pb_Nlink = 0, pb_Rdev = 0,
     pb_Inode = 0, pb_LinkTarget = [], pb_Flags = 0, pb_Epoch = 0 \<rparr>"

record ModifyAttr =
  md_Size :: "u64 option"
  md_Atime :: "u64 option"
  md_Atimens :: "u32 option"
  md_Mtime :: "u64 option"
  md_Mtimens :: "u32 option"
  md_Ctime :: "u64 option"
  md_Ctimens :: "u32 option"
  md_Uid :: "u32 option"
  md_Gid :: "u32 option"
  md_Mode :: "u32 option"
  md_Nlink :: "u32 option"
  md_Rdev :: "u32 option"
  md_LinkTarget :: "string option"
  md_Flags :: "u32 option"

text \<open>The embedded \<^verbatim>\<open>*pb.Attr\<close> of an \<^verbatim>\<open>Attr\<close> may be nil.\<close>

record Attr =
  at_pb :: "pb_attr option"
  at_ParentIno :: Ino
  at_Name :: string

record Entry =
  en_ParentIno :: Ino
  en_Name :: string
  en_Ino :: Ino
  en_Mode :: u32

text \<open>
  Functions of third-party packages: \<^verbatim>\<open>copier.Copy\<close> at the three types it is used at,
  \<^verbatim>\<open>mapstructure.Decode\<close>, and the operating system the program was built for.
\<close>

datatype goos = Darwin | Linux | OtherOS

record libs =
  copy_modify_to_attr :: "ModifyAttr option \<Rightarrow> error + Attr"
  copy_attr_to_modify :: "Attr \<Rightarrow> error + ModifyAttr"
  copy_attr :: "Attr \<Rightarrow> error + Attr"
  mapstructure_Decode :: "pb_attr \<Rightarrow> error + pb_attr"
  GOOS :: goos

section \<open>Flags and modes\<close>

definition SetAttrMode :: u32 where "SetAttrMode = push_bit 0 1"
definition SetAttrUID :: u32 where "SetAttrUID = push_bit 1 1"
definition SetAttrGID :: u32 where "SetAttrGID = push_bit 2 1"
definition SetAttrSize :: u32 where "SetAttrSize = push_bit 3 1"
definition SetAttrAtime :: u32 where "SetAttrAtime = push_bit 4 1"
definition SetAttrMtime :: u32 where "SetAttrMtime = push_bit 5 1"
definition SetAttrCtime :: u32 where "SetAttrCtime = push_bit 6 1"
definition SetAttrAtimeNow :: u32 where "SetAttrAtimeNow = push_bit 7 1"
definition SetAttrMtimeNow :: u32 where "SetAttrMtimeNow = push_bit 8 1"
definition SetAttrFlag :: u32 where "SetAttrFlag = push_bit 15 1"

text \<open>\<^verbatim>\<open>iota\<close> counts the lines of the group, so the first flag of renaming is \<^verbatim>\<open>1 << 1\<close>.\<close>

definition RenameEmptyFlag :: u32 where "RenameEmptyFlag = 0"
definition RenameNoReplace :: u32 where "RenameNoReplace = push_bit 1 1"
definition RenameExchange :: u32 where "RenameExchange = push_bit 2 1"
definition RenameWhiteout :: u32 where "RenameWhiteout = push_bit 3 1"

definition FlagImmutable :: u32 where "FlagImmutable = push_bit 0 1"
definition FlagAppend :: u32 where "FlagAppend = push_bit 1 1"

definition MODE_MASK_R :: u8 where "MODE_MASK_R = 4"
definition MODE_MASK_W :: u8 where "MODE_MASK_W = 2"
definition MODE_MASK_X :: u8 where "MODE_MASK_X = 1"

text \<open>\<^verbatim>\<open>os.FileMode\<close>: the type bits of the standard library.\<close>

definition ModeDir :: u32 where "ModeDir = push_bit 31 1"
definition ModeSymlink :: u32 where "ModeSymlink = push_bit 27 1"
definition ModeType :: u32 where
  "ModeType = ModeDir OR ModeSymlink OR push_bit 26 1 OR push_bit 25 1 OR push_bit 24 1
     OR push_bit 21 1 OR push_bit 19 1"

definition mode_IsDir :: "u32 \<Rightarrow> bool" where "mode_IsDir m \<longleftrightarrow> m AND ModeDir \<noteq> 0"
definition mode_IsRegular :: "u32 \<Rightarrow> bool" where "mode_IsRegular m \<longleftrightarrow> m AND ModeType = 0"

text \<open>
  The predicates of \<^verbatim>\<open>Attr\<close> and \<^verbatim>\<open>Entry\<close>; those of \<^verbatim>\<open>Attr\<close> are given on its message.
\<close>

definition Attr_IsDir :: "pb_attr \<Rightarrow> bool" where "Attr_IsDir p \<longleftrightarrow> mode_IsDir (pb_Mode p)"
definition Attr_IsFile :: "pb_attr \<Rightarrow> bool" where "Attr_IsFile p \<longleftrightarrow> mode_IsRegular (pb_Mode p)"
definition Attr_IsSymlink :: "pb_attr \<Rightarrow> bool" where
  "Attr_IsSymlink p \<longleftrightarrow> pb_Mode p AND ModeSymlink \<noteq> 0"
definition Entry_IsDir :: "Entry \<Rightarrow> bool" where "Entry_IsDir e \<longleftrightarrow> mode_IsDir (en_Mode e)"
definition Entry_IsFile :: "Entry \<Rightarrow> bool" where "Entry_IsFile e \<longleftrightarrow> mode_IsRegular (en_Mode e)"

section \<open>The JSON codec\<close>

definition to_lower :: "char \<Rightarrow> char" where
  "to_lower c = (if 65 \<le> (of_char c :: nat) \<and> (of_char c :: nat) \<le> 90
     then char_of ((of_char c :: nat) + 32) else c)"

text \<open>Fields with \<^verbatim>\<open>omitempty\<close> are left out when zero.\<close>

definition omit_num :: "string \<Rightarrow> int \<Rightarrow> (string \<times> json) list" where
  "omit_num k n = (if n = 0 then [] else [(k, JNum n)])"

definition omit_str :: "string \<Rightarrow> string \<Rightarrow> (string \<times> json) list" where
  "omit_str k s = (if s = [] then [] else [(k, JStr s)])"

definition pb_fields :: "pb_attr \<Rightarrow> (string \<times> json) list" where
  "pb_fields p =
     omit_num ''size'' (uint (pb_Size p)) @ omit_num ''mtime'' (sint (pb_Mtime p))
     @ omit_num ''mtimens'' (uint (pb_Mtimens p)) @ omit_num ''atime'' (sint (pb_Atime p))
     @ omit_num ''atimens'' (uint (pb_Atimens p)) @ omit_num ''ctime'' (sint (pb_Ctime p))
     @ omit_num ''ctimens'' (uint (pb_Ctimens p)) @ omit_num ''uid'' (uint (pb_Uid p))
     @ omit_num ''gid'' (uint (pb_Gid p)) @ omit_num ''mode'' (uint (pb_Mode p))
     @ omit_num ''nlink'' (uint (pb_Nlink p)) @ omit_num ''rdev'' (uint (pb_Rdev p))
     @ omit_num ''inode'' (uint (pb_Inode p)) @ omit_str ''link_target'' (pb_LinkTarget p)
     @ omit_num ''flags'' (uint (pb_Flags p)) @ omit_num ''epoch'' (uint (pb_Epoch p))"

definition Attr_Serialize :: "Attr \<Rightarrow> error + blob" where
  "Attr_Serialize a = Inr (JsonDoc (JObj (
     (case at_pb a of None \<Rightarrow> [] | Some p \<Rightarrow> pb_fields p)
     @ [(''ParentIno'', JNum (uint (at_ParentIno a))), (''Name'', JStr (at_Name a))])))"

text \<open>
  Decoding a number or a string into a field: \<^verbatim>\<open>null\<close> leaves the field as it is, a value of
  another type or out of range is an error.
\<close>

definition dec_uint :: "json \<Rightarrow> 'w::len word \<Rightarrow> error + 'w word" where
  "dec_uint j old = (case j of
     JNum n \<Rightarrow> if 0 \<le> n \<and> n < 2 ^ LENGTH('w) then Inr (word_of_int n) else Inl JsonErr
   | JNull \<Rightarrow> Inr old | _ \<Rightarrow> Inl JsonErr)"

definition dec_sint :: "json \<Rightarrow> 'w::len word \<Rightarrow> error + 'w word" where
  "dec_sint j old = (case j of
     JNum n \<Rightarrow> if - (2 ^ (LENGTH('w) - 1)) \<le> n \<and> n < 2 ^ (LENGTH('w) - 1)
               then Inr (word_of_int n) else Inl JsonErr
   | JNull \<Rightarrow> Inr old | _ \<Rightarrow> Inl JsonErr)"

definition dec_str :: "json \<Rightarrow> string \<Rightarrow> error + string" where
  "dec_str j old = (case j of JStr s \<Rightarrow> Inr s | JNull \<Rightarrow> Inr old | _ \<Rightarrow> Inl JsonErr)"

definition mapR :: "('a \<Rightarrow> 'b) \<Rightarrow> error + 'a \<Rightarrow> error + 'b" where
  "mapR f r = (case r of Inl e \<Rightarrow> Inl e | Inr x \<Rightarrow> Inr (f x))"

text \<open>A field of the embedded message: the message is allocated when the field occurs.\<close>

definition in_pb :: "(pb_attr \<Rightarrow> error + pb_attr) \<Rightarrow> Attr \<Rightarrow> error + Attr" where
  "in_pb f a = mapR (\<lambda>p. a \<lparr> at_pb := Some p \<rparr>)
     (f (case at_pb a of None \<Rightarrow> zero_pb | Some p \<Rightarrow> p))"

definition Attr_member :: "string \<Rightarrow> json \<Rightarrow> Attr \<Rightarrow> error + Attr" where
  "Attr_member k j a = (let l = map to_lower k in
     if l = ''size'' then in_pb (\<lambda>p. mapR (\<lambda>v. p \<lparr> pb_Size := v \<rparr>) (dec_uint j (pb_Size p))) a
     else if l = ''mtime'' then in_pb (\<lambda>p. mapR (\<lambda>v. p \<lparr> pb_Mtime := v \<rparr>) (dec_sint j (pb_Mtime p))) a
     else if l = ''mtimens'' then in_pb (\<lambda>p. mapR (\<lambda>v. p \<lparr> pb_Mtimens := v \<rparr>) (dec_uint j (pb_Mtimens p))) a
     else if l = ''atime'' then in_pb (\<lambda>p. mapR (\<lambda>v. p \<lparr> pb_Atime := v \<rparr>) (dec_sint j (pb_Atime p))) a
     else if l = ''atimens'' then in_pb (\<lambda>p. mapR (\<lambda>v. p \<lparr> pb_Atimens := v \<rparr>) (dec_uint j (pb_Atimens p))) a
     else if l = ''ctime'' then in_pb (\<lambda>p. mapR (\<lambda>v. p \<lparr> pb_Ctime := v \<rparr>) (dec_sint j (pb_Ctime p))) a
     else if l = ''ctimens'' then in_pb (\<lambda>p. mapR (\<lambda>v. p \<lparr> pb_Ctimens := v \<rparr>) (dec_uint j (pb_Ctimens p))) a
     else if l = ''uid'' then in_pb (\<lambda>p. mapR (\<lambda>v. p \<lparr> pb_Uid := v \<rparr>) (dec_uint j (pb_Uid p))) a
     else if l = ''gid'' then in_pb (\<lambda>p. mapR (\<lambda>v. p \<lparr> pb_Gid := v \<rparr>) (dec_uint j (pb_Gid p))) a
     else if l = ''mode'' then in_pb (\<lambda>p. mapR (\<lambda>v. p \<lparr> pb_Mode := v \<rparr>) (dec_uint j (pb_Mode p))) a
     else if l = ''nlink'' then in_pb (\<lambda>p. mapR (\<lambda>v. p \<lparr> pb_Nlink := v \<rparr>) (dec_uint j (pb_Nlink p))) a
     else if l = ''rdev'' then in_pb (\<lambda>p. mapR (\<lambda>v. p \<lparr> pb_Rdev := v \<rparr>) (dec_uint j (pb_Rdev p))) a
     else if l = ''inode'' then in_pb (\<lambda>p. mapR (\<lambda>v. p \<lparr> pb_Inode := v \<rparr>) (dec_uint j (pb_Inode p))) a
     else if l = ''link_target'' then in_pb (\<lambda>p. mapR (\<lambda>v. p \<lparr> pb_LinkTarget := v \<rparr>) (dec_str j (pb_LinkTarget p))) a
     else if l = ''flags'' then in_pb (\<lambda>p. mapR (\<lambda>v. p \<lparr> pb_Flags := v \<rparr>) (dec_uint j (pb_Flags p))) a
     else if l = ''epoch'' then in_pb (\<lambda>p. mapR (\<lambda>v. p \<lparr> pb_Epoch := v \<rparr>) (dec_uint j (pb_Epoch p))) a
     else if l = ''parentino'' then mapR (\<lambda>v. a \<lparr> at_ParentIno := v \<rparr>) (dec_uint j (at_ParentIno a))
     else if l = ''name'' then mapR (\<lambda>v. a \<lparr> at_Name := v \<rparr>) (dec_str j (at_Name a))
     else Inr a)"

fun members :: "(string \<Rightarrow> json \<Rightarrow> 'a \<Rightarrow> error + 'a) \<Rightarrow> (string \<times> json) list \<Rightarrow> 'a \<Rightarrow> error + 'a" where
  "members f [] a = Inr a"
| "members f ((k, j) # r) a = (case f k j a of Inl e \<Rightarrow> Inl e | Inr b \<Rightarrow> members f r b)"

text \<open>
  \<^verbatim>\<open>json.Unmarshal\<close> into a struct: an object sets its fields one after the other, \<^verbatim>\<open>null\<close> sets
  nothing, anything else is an error.
\<close>

definition unmarshal :: "(string \<Rightarrow> json \<Rightarrow> 'a \<Rightarrow> error + 'a) \<Rightarrow> 'a \<Rightarrow> blob \<Rightarrow> error + 'a" where
  "unmarshal f zero b = (case b of
     JsonDoc (JObj ms) \<Rightarrow> members f ms zero
   | JsonDoc JNull \<Rightarrow> Inr zero
   | _ \<Rightarrow> Inl JsonErr)"

definition Attr_Deserialize :: "blob \<Rightarrow> error + Attr" where
  "Attr_Deserialize b = unmarshal Attr_member \<lparr> at_pb = None, at_ParentIno = 0, at_Name = [] \<rparr> b"

definition Entry_Serialize :: "Entry \<Rightarrow> error + blob" where
  "Entry_Serialize e = Inr (JsonDoc (JObj [
     (''ParentIno'', JNum (uint (en_ParentIno e))), (''Name'', JStr (en_Name e)),
     (''Ino'', JNum (uint (en_Ino e))), (''Mode'', JNum (uint (en_Mode e)))]))"

definition Entry_member :: "string \<Rightarrow> json \<Rightarrow> Entry \<Rightarrow> error + Entry" where
  "Entry_member k j e = (let l = map to_lower k in
     if l = ''parentino'' then mapR (\<lambda>v. e \<lparr> en_ParentIno := v \<rparr>) (dec_uint j (en_ParentIno e))
     else if l = ''name'' then mapR (\<lambda>v. e \<lparr> en_Name := v \<rparr>) (dec_str j (en_Name e))
     else if l = ''ino'' then mapR (\<lambda>v. e \<lparr> en_Ino := v \<rparr>) (dec_uint j (en_Ino e))
     else if l = ''mode'' then mapR (\<lambda>v. e \<lparr> en_Mode := v \<rparr>) (dec_uint j (en_Mode e))
     else Inr e)"

definition Entry_Deserialize :: "blob \<Rightarrow> error + Entry" where
  "Entry_Deserialize b =
     unmarshal Entry_member \<lparr> en_ParentIno = 0, en_Name = [], en_Ino = 0, en_Mode = 0 \<rparr> b"


section \<open>Keys and serializers\<close>

definition Attr_FormatPrefix :: string where "Attr_FormatPrefix = ''a/''"

definition attr_key :: "Ino \<Rightarrow> string" where
  "attr_key ino = Attr_FormatPrefix @ fmt_d (unat ino)"

definition entry_prefix :: "Ino \<Rightarrow> string" where
  "entry_prefix parent = ''e/'' @ fmt_d (unat parent) @ ''/''"

definition entry_key :: "Ino \<Rightarrow> string \<Rightarrow> string" where
  "entry_key parent name = ''e/'' @ fmt_d (unat parent) @ ''/'' @ name"

text \<open>The key of an \<^verbatim>\<open>Attr\<close>; the service formats it only of attributes whose message is there.\<close>

definition Attr_FormatKey :: "Attr \<Rightarrow> string" where
  "Attr_FormatKey a = attr_key (case at_pb a of None \<Rightarrow> 0 | Some p \<Rightarrow> pb_Inode p)"

definition Entry_FormatKey :: "Entry \<Rightarrow> string" where
  "Entry_FormatKey e = entry_key (en_ParentIno e) (en_Name e)"

definition Entry_FormatPrefix :: "Entry \<Rightarrow> string" where
  "Entry_FormatPrefix e = entry_prefix (en_ParentIno e)"

definition Attr_ser :: "Attr \<Rightarrow> Attr Serializer" where
  "Attr_ser a = \<lparr> FormatKey = Attr_FormatKey a, FormatPrefix = Attr_FormatPrefix,
     Serialize = Attr_Serialize a, Deserialize = Attr_Deserialize,
     BeforeSerialize = None, AfterSerialize = None,
     BeforeDeserialize = None, AfterDeserialize = None \<rparr>"

definition Entry_ser :: "Entry \<Rightarrow> Entry Serializer" where
  "Entry_ser e = \<lparr> FormatKey = Entry_FormatKey e, FormatPrefix = Entry_FormatPrefix e,
     Serialize = Entry_Serialize e, Deserialize = Entry_Deserialize,
     BeforeSerialize = None, AfterSerialize = None,
     BeforeDeserialize = None, AfterDeserialize = None \<rparr>"

definition Attr_lossy :: "Attr \<Rightarrow> LossySerializer" where
  "Attr_lossy a = \<lparr> lossy_Serialize = Attr_Serialize a, lossy_FormatKey = Attr_FormatKey a \<rparr>"

definition Entry_lossy :: "Entry \<Rightarrow> LossySerializer" where
  "Entry_lossy e = \<lparr> lossy_Serialize = Entry_Serialize e, lossy_FormatKey = Entry_FormatKey e \<rparr>"

text \<open>The builders; the type switch of the source is a datatype.\<close>

datatype attr_from = FromIno Ino | FromPb pb_attr | FromEntry Entry | FromModify "ModifyAttr option"

definition ino_attr :: "Ino \<Rightarrow> Attr" where
  "ino_attr i = \<lparr> at_pb = Some (zero_pb \<lparr> pb_Inode := i \<rparr>), at_ParentIno = 0, at_Name = [] \<rparr>"

definition newAttr :: "libs \<Rightarrow> attr_from \<Rightarrow> Attr builder" where
  "newAttr L arg = (case arg of
     FromIno i \<Rightarrow> Inr (Some (Attr_ser (ino_attr i)))
   | FromPb p \<Rightarrow> mapR (\<lambda>q. Some (Attr_ser \<lparr> at_pb = Some q, at_ParentIno = 0, at_Name = [] \<rparr>))
                      (mapstructure_Decode L p)
   | FromEntry e \<Rightarrow> Inr (Some (Attr_ser (ino_attr (en_Ino e))))
   | FromModify m \<Rightarrow> mapR (\<lambda>a. Some (Attr_ser a)) (copy_modify_to_attr L m))"

datatype entry_from = InParent Ino | InParentNamed Ino string

definition newEntry :: "entry_from \<Rightarrow> Entry builder" where
  "newEntry arg = (case arg of
     InParent i \<Rightarrow> Inr (Some (Entry_ser \<lparr> en_ParentIno = i, en_Name = [], en_Ino = 0, en_Mode = 0 \<rparr>))
   | InParentNamed i n \<Rightarrow>
       Inr (Some (Entry_ser \<lparr> en_ParentIno = i, en_Name = n, en_Ino = 0, en_Mode = 0 \<rparr>)))"

definition ToSerializer :: "Entry \<Rightarrow> Entry builder" where
  "ToSerializer e = Inr (Some (Entry_ser e))"

text \<open>\<^verbatim>\<open>pb.Entry\<close> and the conversions.\<close>

record pb_entry =
  pe_Attr :: "pb_attr option"
  pe_Name :: string
  pe_ParentIno :: Ino

definition ToPb :: "Attr \<Rightarrow> pb_attr option" where "ToPb a = at_pb a"

definition ToPbEntry :: "Attr \<Rightarrow> pb_entry" where
  "ToPbEntry a = \<lparr> pe_Attr = at_pb a, pe_Name = at_Name a, pe_ParentIno = at_ParentIno a \<rparr>"

definition Clone :: "libs \<Rightarrow> Attr \<Rightarrow> error + Attr" where "Clone L a = copy_attr L a"

definition ToModifiedPb :: "libs \<Rightarrow> Attr \<Rightarrow> error + ModifyAttr" where
  "ToModifiedPb L a = copy_attr_to_modify L a"

text \<open>\<^verbatim>\<open>ToAttr\<close> returns nil when copying fails.\<close>

definition ToAttr :: "libs \<Rightarrow> ModifyAttr option \<Rightarrow> Attr option" where
  "ToAttr L m = (case copy_modify_to_attr L m of Inl e \<Rightarrow> None | Inr a \<Rightarrow> Some a)"

section \<open>The caller\<close>

record FuseContext =
  cx_Uid :: u32
  cx_Gid :: u32

definition Gids :: "FuseContext \<Rightarrow> u32 list" where "Gids c = [cx_Gid c]"

text \<open>\<^verbatim>\<open>n, _ := strconv.Atoi(s)\<close>: 0 on a syntax error, clamped to 64 bits on a range error.\<close>

definition parse_int :: "string \<Rightarrow> int" where
  "parse_int s = (
     let neg = (s \<noteq> [] \<and> hd s = CHR ''-'');
         d = (if s \<noteq> [] \<and> (hd s = CHR ''-'' \<or> hd s = CHR ''+'') then tl s else s)
     in if d = [] \<or> \<not> list_all is_digit d then 0
        else if neg then max (- (2 ^ 63)) (- int (dec_value d))
        else min (2 ^ 63 - 1) (int (dec_value d)))"

definition ToMD :: "FuseContext \<Rightarrow> (string \<times> string list) list" where
  "ToMD c = [(''uid'', [fmt_d (unat (cx_Uid c))]), (''gid'', [fmt_d (unat (cx_Uid c))])]"

text \<open>\<^verbatim>\<open>v[0]\<close> of an empty header value panics.\<close>

fun MDFromContext_loop :: "(string \<times> string list) list \<Rightarrow> FuseContext \<Rightarrow> FuseContext option" where
  "MDFromContext_loop [] c = Some c"
| "MDFromContext_loop ((k, v) # r) c =
     (if k = ''uid'' then (if v = [] then None
        else MDFromContext_loop r (c \<lparr> cx_Uid := word_of_int (parse_int (hd v)) \<rparr>))
      else if k = ''gid'' then (if v = [] then None
        else MDFromContext_loop r (c \<lparr> cx_Gid := word_of_int (parse_int (hd v)) \<rparr>))
      else MDFromContext_loop r c)"

definition MDFromContext :: "(string \<times> string list) list \<Rightarrow> FuseContext option" where
  "MDFromContext md = MDFromContext_loop md \<lparr> cx_Uid = 0, cx_Gid = 0 \<rparr>"

section \<open>Permissions\<close>

definition accessMode :: "pb_attr \<Rightarrow> u32 \<Rightarrow> u32 list \<Rightarrow> u8" where
  "accessMode attr uid gids = (
     if uid = 0 then 7
     else if uid = pb_Uid attr then ucast (drop_bit 6 (pb_Mode attr)) AND 7
     else if pb_Gid attr \<in> set gids then ucast (drop_bit 3 (pb_Mode attr)) AND 7
     else ucast (pb_Mode attr AND 7))"

text \<open>\<open>None\<close> is the errno 0.\<close>

definition access :: "FuseContext \<Rightarrow> pb_attr \<Rightarrow> u8 \<Rightarrow> errno option" where
  "access ctx attr mmask = (
     if cx_Uid ctx = 0 then None
     else if accessMode attr (cx_Uid ctx) (Gids ctx) AND mmask \<noteq> mmask then Some EACCES
     else None)"

text \<open>
  \<^verbatim>\<open>clearSUGID\<close> changes the attribute and the mode of the request, whose pointer must be there.
\<close>

definition clearSUGID :: "goos \<Rightarrow> FuseContext \<Rightarrow> pb_attr \<Rightarrow> u32 option \<Rightarrow> error + pb_attr \<times> u32 option" where
  "clearSUGID os ctx cur mode = (
     let apply = (\<lambda>mask. case mode of None \<Rightarrow> Inl Panic
                   | Some m \<Rightarrow> Inr (cur \<lparr> pb_Mode := pb_Mode cur AND mask \<rparr>, Some (m AND mask)))
     in case os of
          Darwin \<Rightarrow> if cx_Uid ctx \<noteq> 0 then apply 0x3FF else Inr (cur, mode)
        | Linux \<Rightarrow> if \<not> Attr_IsDir cur then
                     (if cx_Uid ctx \<noteq> 0 \<or> drop_bit 3 (pb_Mode cur) AND 1 \<noteq> 0
                      then apply 0x3FF else apply 0x7FF)
                   else Inr (cur, mode)
        | OtherOS \<Rightarrow> Inr (cur, mode))"

section \<open>Round trips and keys\<close>

text \<open>What a message looks like after a round trip: one without any field set is gone.\<close>

definition norm_pb :: "pb_attr \<Rightarrow> pb_attr option" where
  "norm_pb p = (if p = zero_pb then None else Some p)"

lemma members_append [simp]:
  "members f (xs @ ys) a = (case members f xs a of Inl e \<Rightarrow> Inl e | Inr b \<Rightarrow> members f ys b)"
  by (induction f xs a rule: members.induct) (auto split: sum.split)

lemma dec_uint_uint [simp]: "dec_uint (JNum (uint w)) v = Inr (w :: 'w::len word)"
  by (simp add: dec_uint_def unsigned_less)

lemma dec_sint_sint [simp]: "dec_sint (JNum (sint w)) v = Inr (w :: 'w::len word)"
  using sint_greater_eq [of w] sint_less [of w] by (simp add: dec_sint_def)

lemma sint_eq_zero [simp]: "sint w = 0 \<longleftrightarrow> w = (0 :: 'w::len word)"
  by (rule signed_eq_0_iff)

lemma uint_eq_zero [simp]: "uint w = 0 \<longleftrightarrow> w = (0 :: 'w::len word)"
  by (rule unsigned_eq_0_iff)

lemma dec_str_str [simp]: "dec_str (JStr s) v = Inr s"
  by (simp add: dec_str_def)

lemma mapR_Inr [simp]: "mapR f (Inr x) = Inr (f x)"
  by (simp add: mapR_def)

lemma lower_names:
  "map to_lower ''ParentIno'' = ''parentino''" "map to_lower ''Name'' = ''name''"
  "map to_lower ''Ino'' = ''ino''" "map to_lower ''Mode'' = ''mode''"
  by code_simp+

lemma Attr_member_names:
  "Attr_member ''size'' j = in_pb (\<lambda>p. mapR (\<lambda>v. p \<lparr> pb_Size := v \<rparr>) (dec_uint j (pb_Size p)))"
  "Attr_member ''mtime'' j = in_pb (\<lambda>p. mapR (\<lambda>v. p \<lparr> pb_Mtime := v \<rparr>) (dec_sint j (pb_Mtime p)))"
  "Attr_member ''mtimens'' j = in_pb (\<lambda>p. mapR (\<lambda>v. p \<lparr> pb_Mtimens := v \<rparr>) (dec_uint j (pb_Mtimens p)))"
  "Attr_member ''atime'' j = in_pb (\<lambda>p. mapR (\<lambda>v. p \<lparr> pb_Atime := v \<rparr>) (dec_sint j (pb_Atime p)))"
  "Attr_member ''atimens'' j = in_pb (\<lambda>p. mapR (\<lambda>v. p \<lparr> pb_Atimens := v \<rparr>) (dec_uint j (pb_Atimens p)))"
  "Attr_member ''ctime'' j = in_pb (\<lambda>p. mapR (\<lambda>v. p \<lparr> pb_Ctime := v \<rparr>) (dec_sint j (pb_Ctime p)))"
  "Attr_member ''ctimens'' j = in_pb (\<lambda>p. mapR (\<lambda>v. p \<lparr> pb_Ctimens := v \<rparr>) (dec_uint j (pb_Ctimens p)))"
  "Attr_member ''uid'' j = in_pb (\<lambda>p. mapR (\<lambda>v. p \<lparr> pb_Uid := v \<rparr>) (dec_uint j (pb_Uid p)))"
  "Attr_member ''gid'' j = in_pb (\<lambda>p. mapR (\<lambda>v. p \<lparr> pb_Gid := v \<rparr>) (dec_uint j (pb_Gid p)))"
  "Attr_member ''mode'' j = in_pb (\<lambda>p. mapR (\<lambda>v. p \<lparr> pb_Mode := v \<rparr>) (dec_uint j (pb_Mode p)))"
  "Attr_member ''nlink'' j = in_pb (\<lambda>p. mapR (\<lambda>v. p \<lparr> pb_Nlink := v \<rparr>) (dec_uint j (pb_Nlink p)))"
  "Attr_member ''rdev'' j = in_pb (\<lambda>p. mapR (\<lambda>v. p \<lparr> pb_Rdev := v \<rparr>) (dec_uint j (pb_Rdev p)))"
  "Attr_member ''inode'' j = in_pb (\<lambda>p. mapR (\<lambda>v. p \<lparr> pb_Inode := v \<rparr>) (dec_uint j (pb_Inode p)))"
  "Attr_member ''link_target'' j = in_pb (\<lambda>p. mapR (\<lambda>v. p \<lparr> pb_LinkTarget := v \<rparr>) (dec_str j (pb_LinkTarget p)))"
  "Attr_member ''flags'' j = in_pb (\<lambda>p. mapR (\<lambda>v. p \<lparr> pb_Flags := v \<rparr>) (dec_uint j (pb_Flags p)))"
  "Attr_member ''epoch'' j = in_pb (\<lambda>p. mapR (\<lambda>v. p \<lparr> pb_Epoch := v \<rparr>) (dec_uint j (pb_Epoch p)))"
  by (rule ext; simp add: Attr_member_def to_lower_def)+

lemma Attr_member_outer:
  "Attr_member ''ParentIno'' j = (\<lambda>a. mapR (\<lambda>v. a \<lparr> at_ParentIno := v \<rparr>) (dec_uint j (at_ParentIno a)))"
  "Attr_member ''Name'' j = (\<lambda>a. mapR (\<lambda>v. a \<lparr> at_Name := v \<rparr>) (dec_str j (at_Name a)))"
  by (rule ext; simp only: Attr_member_def lower_names Let_def; simp)+

text \<open>One omitted-when-zero field of the message, read back after the fields before it.\<close>

lemma field_step:
  assumes "fs = (if z then [] else [(k, j)])"
    and "z \<Longrightarrow> g q = q" and "\<not> z \<Longrightarrow> g q \<noteq> zero_pb"
    and "\<And>b. Attr_member k j b = in_pb (\<lambda>p. Inr (g p)) b"
  shows "members Attr_member fs (a \<lparr> at_pb := norm_pb q \<rparr>) = Inr (a \<lparr> at_pb := norm_pb (g q) \<rparr>)"
  using assms by (auto simp: in_pb_def norm_pb_def)

lemma pb_field_steps:
  "pb_Size q = 0 \<Longrightarrow> members Attr_member (omit_num ''size'' (uint x)) (a \<lparr> at_pb := norm_pb q \<rparr>) =
     Inr (a \<lparr> at_pb := norm_pb (q \<lparr> pb_Size := x \<rparr>) \<rparr>)"
  "pb_Mtime q = 0 \<Longrightarrow> members Attr_member (omit_num ''mtime'' (sint x)) (a \<lparr> at_pb := norm_pb q \<rparr>) =
     Inr (a \<lparr> at_pb := norm_pb (q \<lparr> pb_Mtime := x \<rparr>) \<rparr>)"
  "pb_Mtimens q = 0 \<Longrightarrow> members Attr_member (omit_num ''mtimens'' (uint y)) (a \<lparr> at_pb := norm_pb q \<rparr>) =
     Inr (a \<lparr> at_pb := norm_pb (q \<lparr> pb_Mtimens := y \<rparr>) \<rparr>)"
  "pb_Atime q = 0 \<Longrightarrow> members Attr_member (omit_num ''atime'' (sint x)) (a \<lparr> at_pb := norm_pb q \<rparr>) =
     Inr (a \<lparr> at_pb := norm_pb (q \<lparr> pb_Atime := x \<rparr>) \<rparr>)"
  "pb_Atimens q = 0 \<Longrightarrow> members Attr_member (omit_num ''atimens'' (uint y)) (a \<lparr> at_pb := norm_pb q \<rparr>) =
     Inr (a \<lparr> at_pb := norm_pb (q \<lparr> pb_Atimens := y \<rparr>) \<rparr>)"
  "pb_Ctime q = 0 \<Longrightarrow> members Attr_member (omit_num ''ctime'' (sint x)) (a \<lparr> at_pb := norm_pb q \<rparr>) =
     Inr (a \<lparr> at_pb := norm_pb (q \<lparr> pb_Ctime := x \<rparr>) \<rparr>)"
  "pb_Ctimens q = 0 \<Longrightarrow> members Attr_member (omit_num ''ctimens'' (uint y)) (a \<lparr> at_pb := norm_pb q \<rparr>) =
     Inr (a \<lparr> at_pb := norm_pb (q \<lparr> pb_Ctimens := y \<rparr>) \<rparr>)"
  "pb_Uid q = 0 \<Longrightarrow> members Attr_member (omit_num ''uid'' (uint y)) (a \<lparr> at_pb := norm_pb q \<rparr>) =
     Inr (a \<lparr> at_pb := norm_pb (q \<lparr> pb_Uid := y \<rparr>) \<rparr>)"
  "pb_Gid q = 0 \<Longrightarrow> members Attr_member (omit_num ''gid'' (uint y)) (a \<lparr> at_pb := norm_pb q \<rparr>) =
     Inr (a \<lparr> at_pb := norm_pb (q \<lparr> pb_Gid := y \<rparr>) \<rparr>)"
  "pb_Mode q = 0 \<Longrightarrow> members Attr_member (omit_num ''mode'' (uint y)) (a \<lparr> at_pb := norm_pb q \<rparr>) =
     Inr (a \<lparr> at_pb := norm_pb (q \<lparr> pb_Mode := y \<rparr>) \<rparr>)"
  "pb_Nlink q = 0 \<Longrightarrow> members Attr_member (omit_num ''nlink'' (uint y)) (a \<lparr> at_pb := norm_pb q \<rparr>) =
     Inr (a \<lparr> at_pb := norm_pb (q \<lparr> pb_Nlink := y \<rparr>) \<rparr>)"
  "pb_Rdev q = 0 \<Longrightarrow> members Attr_member (omit_num ''rdev'' (uint y)) (a \<lparr> at_pb := norm_pb q \<rparr>) =
     Inr (a \<lparr> at_pb := norm_pb (q \<lparr> pb_Rdev := y \<rparr>) \<rparr>)"
  "pb_Inode q = 0 \<Longrightarrow> members Attr_member (omit_num ''inode'' (uint x)) (a \<lparr> at_pb := norm_pb q \<rparr>) =
     Inr (a \<lparr> at_pb := norm_pb (q \<lparr> pb_Inode := x \<rparr>) \<rparr>)"
  "pb_Flags q = 0 \<Longrightarrow> members Attr_member (omit_num ''flags'' (uint y)) (a \<lparr> at_pb := norm_pb q \<rparr>) =
     Inr (a \<lparr> at_pb := norm_pb (q \<lparr> pb_Flags := y \<rparr>) \<rparr>)"
  "pb_Epoch q = 0 \<Longrightarrow> members Attr_member (omit_num ''epoch'' (uint y)) (a \<lparr> at_pb := norm_pb q \<rparr>) =
     Inr (a \<lparr> at_pb := norm_pb (q \<lparr> pb_Epoch := y \<rparr>) \<rparr>)"
  by - (rule field_step [OF omit_num_def]; cases q; simp add: zero_pb_def Attr_member_names)+

lemma pb_string_step:
  "pb_LinkTarget q = [] \<Longrightarrow> members Attr_member (omit_str ''link_target'' z) (a \<lparr> at_pb := norm_pb q \<rparr>) =
     Inr (a \<lparr> at_pb := norm_pb (q \<lparr> pb_LinkTarget := z \<rparr>) \<rparr>)"
  by (rule field_step [OF omit_str_def]; cases q; simp add: zero_pb_def Attr_member_names)

lemma pb_fields_members:
  "members Attr_member (pb_fields p) (a \<lparr> at_pb := None \<rparr>) = Inr (a \<lparr> at_pb := norm_pb p \<rparr>)"
proof -
  have "a \<lparr> at_pb := None \<rparr> = a \<lparr> at_pb := norm_pb zero_pb \<rparr>" by (simp add: norm_pb_def)
  then show ?thesis
    by (cases p) (simp add: pb_fields_def pb_field_steps pb_string_step zero_pb_def)
qed

lemma Attr_roundtrip:
  "Attr_Serialize a = Inr b \<Longrightarrow>
   Attr_Deserialize b = Inr (a \<lparr> at_pb := Option.bind (at_pb a) norm_pb \<rparr>)"
  using pb_fields_members [of _ "\<lparr> at_pb = None, at_ParentIno = 0, at_Name = [] \<rparr>"]
  by (cases a; cases "at_pb a")
    (auto simp: Attr_Serialize_def Attr_Deserialize_def unmarshal_def Attr_member_outer)

lemma Entry_roundtrip: "Entry_Serialize e = Inr b \<Longrightarrow> Entry_Deserialize b = Inr e"
  by (cases e) (auto simp: Entry_Serialize_def Entry_Deserialize_def unmarshal_def Entry_member_def
      Let_def lower_names simp del: list.map)

end
