(* ===== verification/Inode_Store.thy ===== *)
theory Inode_Store
  imports Inode_Types
begin

text \<open>
  Attributes and entries in the content of a store: the keys of attributes and entries are
  pairwise different, reading after writing gives back what was written, and the generic operations
  of \<^verbatim>\<open>store.go\<close> at these types are plain reads and writes of the specification.
\<close>

section \<open>Reading and writing the content\<close>

definition attr_doc :: "Attr \<Rightarrow> blob" where
  "attr_doc a = (case Attr_Serialize a of Inr b \<Rightarrow> b | Inl _ \<Rightarrow> JsonDoc JNull)"

definition entry_doc :: "Entry \<Rightarrow> blob" where
  "entry_doc e = (case Entry_Serialize e of Inr b \<Rightarrow> b | Inl _ \<Rightarrow> JsonDoc JNull)"

definition read_attr :: "kv \<Rightarrow> Ino \<Rightarrow> error + Attr" where
  "read_attr kv i = (case map_of kv (attr_key i) of None \<Rightarrow> Inl ErrNotFound
     | Some b \<Rightarrow> Attr_Deserialize b)"

definition read_entry :: "kv \<Rightarrow> Ino \<Rightarrow> string \<Rightarrow> error + Entry" where
  "read_entry kv p n = (if n = [] then Inl ErrKeyEqPrefix
     else case lookup_kv (entry_key p n) kv of Inl e \<Rightarrow> Inl e | Inr b \<Rightarrow> Entry_Deserialize b)"

definition list_entries :: "kv \<Rightarrow> Ino \<Rightarrow> error + (string \<times> Entry) list" where
  "list_entries kv p = sum_map (\<lambda>(k, b). mapR (\<lambda>e. (k, e)) (Entry_Deserialize b))
     (bucket_kv (entry_prefix p) kv)"

text \<open>The name of an entry as it is looked up: the store drops one trailing separator of a key.\<close>

definition entry_name :: "string \<Rightarrow> string" where
  "entry_name n = trim_slash n"

section \<open>Keys\<close>

lemma attr_key_inject [simp]: "attr_key i = attr_key j \<longleftrightarrow> i = j"
  by (simp add: attr_key_def unat_inject)

lemma entry_key_inject [simp]: "entry_key p n = entry_key q m \<longleftrightarrow> p = q \<and> n = m"
  by (simp add: entry_key_def fmt_d_sep_inject unat_inject)

lemma attr_entry_key [simp]: "attr_key i \<noteq> entry_key p n" "entry_key p n \<noteq> attr_key i"
  by (simp_all add: attr_key_def entry_key_def Attr_FormatPrefix_def)

lemma plain_attr_key [simp]: "plain_key (attr_key i)"
  by (simp add: plain_key_def attr_key_def Attr_FormatPrefix_def InoKey_def)

lemma plain_entry_key [simp]: "plain_key (entry_key p n)"
  by (simp add: plain_key_def entry_key_def InoKey_def)

lemma key_neq_prefix [simp]: "attr_key i \<noteq> Attr_FormatPrefix" "attr_key i \<noteq> []"
  "entry_key p n = entry_prefix p \<longleftrightarrow> n = []" "entry_key p n \<noteq> []" "entry_prefix p \<noteq> []"
  by (simp_all add: attr_key_def Attr_FormatPrefix_def entry_key_def entry_prefix_def)

lemma last_fmt_d: "last (fmt_d n) \<noteq> CHR ''/''"
proof
  assume "last (fmt_d n) = CHR ''/''"
  then have "CHR ''/'' \<in> set (fmt_d n)" by (metis fmt_d_nonempty last_in_set)
  with fmt_d_no show False by simp
qed

lemma norm_attr_key [simp]: "norm_key (attr_key i) = attr_key i"
  by (simp add: norm_key_def attr_key_def Attr_FormatPrefix_def trim_slash_def last_fmt_d)

lemma norm_entry_key [simp]: "n \<noteq> [] \<Longrightarrow> norm_key (entry_key p n) = entry_key p (trim_slash n)"
  by (simp add: norm_key_def entry_key_def trim_slash_def butlast_append)

lemma bucket_prefix_entry [simp]: "bucket_prefix (entry_prefix p) = entry_prefix p"
proof -
  have "norm_key (entry_prefix p) = ''e/'' @ fmt_d (unat p)"
    by (simp add: norm_key_def entry_prefix_def trim_slash_def butlast_append)
  then show ?thesis by (simp add: bucket_prefix_def entry_prefix_def)
qed

lemma in_bucket_entry: "in_bucket (entry_prefix p) x \<longleftrightarrow> prefix (entry_prefix p) x"
proof -
  have "norm_key (entry_prefix p) = ''e/'' @ fmt_d (unat p)"
    by (simp add: norm_key_def entry_prefix_def trim_slash_def butlast_append)
  moreover have "\<not> prefix (entry_prefix p) (''e/'' @ fmt_d (unat p))"
    by (auto simp: entry_prefix_def dest: prefix_length_le)
  ultimately show ?thesis by (auto simp: in_bucket_def)
qed

lemma prefix_entry_key [simp]: "prefix (entry_prefix p) (entry_key q n) \<longleftrightarrow> p = q"
  by (auto simp: prefix_def entry_prefix_def entry_key_def fmt_d_sep_inject unat_inject)

lemma prefix_attr_key [simp]: "\<not> prefix (entry_prefix p) (attr_key i)"
  by (simp add: prefix_def entry_prefix_def attr_key_def Attr_FormatPrefix_def)

section \<open>Reading after writing\<close>

lemma Attr_Deserialize_doc:
  "Attr_Deserialize (attr_doc a) = Inr (a \<lparr> at_pb := Option.bind (at_pb a) norm_pb \<rparr>)"
  using Attr_roundtrip [of a] by (simp add: attr_doc_def Attr_Serialize_def)

lemma Entry_Deserialize_doc [simp]: "Entry_Deserialize (entry_doc e) = Inr e"
  using Entry_roundtrip [of e] by (simp add: entry_doc_def Entry_Serialize_def)

text \<open>An attribute with an inode number survives the round trip unchanged.\<close>

lemma Attr_Deserialize_ino [simp]:
  assumes "at_pb a = Some p" and "pb_Inode p \<noteq> 0"
  shows "Attr_Deserialize (attr_doc a) = Inr a"
proof -
  have "p \<noteq> zero_pb" using assms(2) by (auto simp: zero_pb_def)
  with assms(1) show ?thesis by (cases a) (simp add: Attr_Deserialize_doc norm_pb_def)
qed

lemma read_attr_ins [simp]:
  "read_attr (kv_ins (attr_key j) b kv) i = (if i = j then Attr_Deserialize b else read_attr kv i)"
  "read_attr (kv_ins (entry_key p n) b kv) i = read_attr kv i"
  by (auto simp: read_attr_def)

lemma read_attr_del [simp]:
  "read_attr (kv_del (attr_key j) kv) i = (if i = j then Inl ErrNotFound else read_attr kv i)"
  "read_attr (kv_del (entry_key p n) kv) i = read_attr kv i"
  by (auto simp: read_attr_def)

lemma read_entry_ins [simp]:
  "read_entry (kv_ins (attr_key j) b kv) p n = read_entry kv p n"
  "read_entry (kv_ins (entry_key q m) b kv) p n =
     (if n \<noteq> [] \<and> p = q \<and> trim_slash n = m then Entry_Deserialize b else read_entry kv p n)"
  by (auto simp: read_entry_def lookup_kv_def)

lemma read_entry_del [simp]:
  "read_entry (kv_del (attr_key j) kv) p n = read_entry kv p n"
  "read_entry (kv_del (entry_key q m) kv) p n =
     (if n \<noteq> [] \<and> p = q \<and> trim_slash n = m then Inl ErrNotFound else read_entry kv p n)"
  by (auto simp: read_entry_def lookup_kv_def)

section \<open>The generic operations on attributes and entries\<close>

lemma builder_run [run_simps]:
  "newAttr L (FromIno i) = Inr (Some (Attr_ser (ino_attr i)))"
  "newAttr L (FromEntry e) = Inr (Some (Attr_ser (ino_attr (en_Ino e))))"
  "ToSerializer e = Inr (Some (Entry_ser e))"
  by (simp_all add: newAttr_def ToSerializer_def)

lemma GetValueByKey_attr_builder:
  "GetValueByKey S c (Inr (Some (Attr_ser (ino_attr i)))) =
   bindE (Get S c (attr_key i)) (\<lambda>buf. liftE (Attr_Deserialize buf))"
  by (auto simp: fun_eq_iff GetValueByKey_def DoGetValueByKey_def Attr_ser_def Attr_FormatKey_def
      ino_attr_def run_simps checkE_def split: sum.splits prod.splits)

lemma get_attr_run [run_simps]:
  "GetValueByKey spec_store c (Inr (Some (Attr_ser (ino_attr i)))) = spec_read c (\<lambda>kv. read_attr kv i)"
  by (auto simp: fun_eq_iff GetValueByKey_attr_builder run_simps spec_read_def read_attr_def lookup_kv_def
      split: option.splits sum.splits prod.splits)

lemma get_entry_view:
  "spec_view c m = Some kv \<Longrightarrow>
   GetValueByKey spec_store c (newEntry (InParentNamed p n)) m = (read_entry kv p n, m)"
  by (auto simp: GetValueByKey_def DoGetValueByKey_def newEntry_def Entry_ser_def
      Entry_FormatKey_def Entry_FormatPrefix_def run_simps checkE_def spec_read_def read_entry_def
      split: option.splits sum.splits prod.splits)

lemma get_entry_run [run_simps]:
  "GetValueByKey spec_store False (newEntry (InParentNamed p n)) m = (read_entry (committed m) p n, m)"
  "pending m = Some kv \<Longrightarrow>
   GetValueByKey spec_store True (newEntry (InParentNamed p n)) m = (read_entry kv p n, m)"
  by (auto intro: get_entry_view simp: spec_view_def)

lemma save_attr_run [run_simps]:
  "DoSaveInKVPair spec_store c (Some (Attr_ser a)) = spec_write c (kv_ins (Attr_FormatKey a) (attr_doc a))"
  by (auto simp: fun_eq_iff DoSaveInKVPair_def Attr_ser_def Attr_FormatKey_def run_simps checkE_def
      attr_doc_def Attr_Serialize_def)

lemma save_entry_run [run_simps]:
  "en_Name e \<noteq> [] \<Longrightarrow> DoSaveInKVPair spec_store c (Some (Entry_ser e)) =
     spec_write c (kv_ins (Entry_FormatKey e) (entry_doc e))"
  by (auto simp: fun_eq_iff DoSaveInKVPair_def Entry_ser_def Entry_FormatKey_def Entry_FormatPrefix_def
      run_simps checkE_def entry_doc_def Entry_Serialize_def)


lemma list_entries_run [run_simps]:
  "GetValuesByPrefix spec_store c (newEntry (InParent p)) = spec_read c (\<lambda>kv. list_entries kv p)"
proof -
  have f: "(\<lambda>(key, buf). bindE (liftE (Entry_Deserialize buf)) (\<lambda>value. returnE (key, value))) =
      (\<lambda>x. liftE ((\<lambda>(k, b). mapR (\<lambda>e. (k, e)) (Entry_Deserialize b)) x) :: (_, spec) gom)"
    by (auto simp: fun_eq_iff run_simps mapR_def split: sum.split)
  show ?thesis
    by (auto simp: fun_eq_iff GetValuesByPrefix_def DoGetValuesByPrefix_def newEntry_def Entry_ser_def
        Entry_FormatPrefix_def f mapE_liftE run_simps spec_read_def list_entries_def
        split: option.splits)
qed

lemma delete_run [run_simps]:
  "n \<noteq> [] \<Longrightarrow> DeleteByKey spec_store c (newEntry (InParentNamed p n)) = spec_write c (kv_del (entry_key p n))"
  "DeleteByKey spec_store c (Inr (Some (Attr_ser (ino_attr i)))) = spec_write c (kv_del (attr_key i))"
  "en_Name e \<noteq> [] \<Longrightarrow> DeleteByKey spec_store c (Inr (Some (Entry_ser e))) =
     spec_write c (kv_del (Entry_FormatKey e))"
  "DoDeleteByKey spec_store c (Some (Attr_ser a)) = spec_write c (kv_del (Attr_FormatKey a))"
  "en_Name e \<noteq> [] \<Longrightarrow> DoDeleteByKey spec_store c (Some (Entry_ser e)) =
     spec_write c (kv_del (Entry_FormatKey e))"
  by (auto simp: fun_eq_iff DeleteByKey_def DoDeleteByKey_def newEntry_def Attr_ser_def Entry_ser_def
      Attr_FormatKey_def Entry_FormatKey_def Entry_FormatPrefix_def ino_attr_def run_simps)

lemma batch_save_attrs:
  "DoBatchSaveStrictly spec_store c (map (\<lambda>a. Some (Attr_ser a)) as) =
     spec_write c (fold (\<lambda>a. kv_ins (Attr_FormatKey a) (attr_doc a)) as)"
proof -
  have "sum_map batch_entry (map (\<lambda>a. Some (Attr_ser a)) as) =
      Inr (map (\<lambda>a. \<lparr> Key = Attr_FormatKey a, Val = attr_doc a \<rparr>) as)"
    by (induction as) (auto simp: batch_entry_def Attr_ser_def attr_doc_def Attr_Serialize_def)
  then show ?thesis
    by (auto simp: fun_eq_iff DoBatchSaveStrictly_def mapE_liftE run_simps fold_map o_def)
qed

lemma batch_save_attr_run [run_simps]:
  "DoBatchSaveStrictly spec_store c [Some (Attr_ser a)] =
     spec_write c (kv_ins (Attr_FormatKey a) (attr_doc a))"
  "DoBatchSaveStrictly spec_store c [Some (Attr_ser a), Some (Attr_ser b)] =
     spec_write c (\<lambda>kv. kv_ins (Attr_FormatKey b) (attr_doc b) (kv_ins (Attr_FormatKey a) (attr_doc a) kv))"
  using batch_save_attrs [of c "[a]"] batch_save_attrs [of c "[a, b]"] by (simp_all add: o_def)

lemma batch_save_any_run [run_simps]:
  "DoBatchSaveAnyStrictly spec_store c [Attr_lossy a] =
     spec_write c (kv_ins (Attr_FormatKey a) (attr_doc a))"
  "DoBatchSaveAnyStrictly spec_store c [Entry_lossy e, Attr_lossy a] =
     spec_write c (\<lambda>kv. kv_ins (Attr_FormatKey a) (attr_doc a) (kv_ins (Entry_FormatKey e) (entry_doc e) kv))"
  by (simp_all add: fun_eq_iff DoBatchSaveAnyStrictly_lift lossy_entry_def Attr_lossy_def Entry_lossy_def
      run_simps attr_doc_def entry_doc_def Attr_Serialize_def Entry_Serialize_def o_def)

lemma FormatKey_simps [simp]:
  "Attr_FormatKey \<lparr> at_pb = Some p, at_ParentIno = i, at_Name = n \<rparr> = attr_key (pb_Inode p)"
  "Attr_FormatKey (ino_attr i) = attr_key i"
  "Entry_FormatKey \<lparr> en_ParentIno = p', en_Name = n, en_Ino = i, en_Mode = m \<rparr> = entry_key p' n"
  by (simp_all add: Attr_FormatKey_def ino_attr_def Entry_FormatKey_def)

end
