(* ===== verification/Inode_Service.thy ===== *)
theory Inode_Service
  imports Inode_Store
begin

text \<open>
  The handlers of the inode service, \<^verbatim>\<open>src/pkg/meta/inode/service.go\<close>, over any store. The caller's
  metadata and the clock are arguments; log lines are left out, but the pointers they follow are
  followed. The \<open>now\<close> of a handler that reads the clock twice is one value.
\<close>

section \<open>Common parts\<close>

text \<open>\<^verbatim>\<open>(now.Unix(), now.Nanosecond())\<close>.\<close>

type_synonym time = "u64 \<times> u32"

record Service =
  root :: Attr
  inoFreeList :: "Ino list"

definition deref :: "'a option \<Rightarrow> ('a, 's) gom" where
  "deref p = (case p of None \<Rightarrow> throwE Panic | Some x \<Rightarrow> returnE x)"

definition bindR :: "error + 'a \<Rightarrow> ('a \<Rightarrow> error + 'b) \<Rightarrow> error + 'b" where
  "bindR r f = (case r of Inl e \<Rightarrow> Inl e | Inr x \<Rightarrow> f x)"

definition derefR :: "'a option \<Rightarrow> error + 'a" where
  "derefR p = (case p of None \<Rightarrow> Inl Panic | Some x \<Rightarrow> Inr x)"

text \<open>\<^verbatim>\<open>v, _ := f()\<close>: the value is nil when there was an error.\<close>

definition dropErr :: "('a, 's) gom \<Rightarrow> ('a option, 's) gom" where
  "dropErr m = tryE m (\<lambda>r. case r of Inl _ \<Rightarrow> returnE None | Inr v \<Rightarrow> returnE (Some v))"

text \<open>\<^verbatim>\<open>if err != nil { return f(err) }\<close>.\<close>

definition orElse :: "('a, 's) gom \<Rightarrow> (error \<Rightarrow> error) \<Rightarrow> ('a, 's) gom" where
  "orElse m f = tryE m (\<lambda>r. case r of Inl e \<Rightarrow> throwE (f e) | Inr v \<Rightarrow> returnE v)"

definition touch_mc :: "time \<Rightarrow> pb_attr \<Rightarrow> pb_attr" where
  "touch_mc now p = p \<lparr> pb_Mtime := fst now, pb_Mtimens := snd now, pb_Ctime := fst now, pb_Ctimens := snd now \<rparr>"

definition touch_c :: "time \<Rightarrow> pb_attr \<Rightarrow> pb_attr" where
  "touch_c now p = p \<lparr> pb_Ctime := fst now, pb_Ctimens := snd now \<rparr>"

definition notfound_or :: "grpc_code \<Rightarrow> error \<Rightarrow> error" where
  "notfound_or c e = (if e = ErrNotFound then Status NotFound else Status c)"

section \<open>Start and queries\<close>

definition root_attr :: "time \<Rightarrow> u32 \<Rightarrow> u32 \<Rightarrow> Attr" where
  "root_attr now uid gid = \<lparr> at_pb = Some (zero_pb \<lparr> pb_Inode := 1, pb_Nlink := 2,
       pb_Ctime := fst now, pb_Ctimens := snd now, pb_Mtime := fst now, pb_Mtimens := snd now,
       pb_Atime := fst now, pb_Atimens := snd now, pb_Mode := ModeDir OR 0x1ED,
       pb_Uid := uid, pb_Gid := gid \<rparr>), at_ParentIno = 0, at_Name = [] \<rparr>"

definition init :: "'s Store \<Rightarrow> libs \<Rightarrow> time \<Rightarrow> u32 \<Rightarrow> u32 \<Rightarrow> (Attr, 's) gom" where
  "init S L now uid gid =
     tryE (GetValueByKey S False (newAttr L (FromIno 1))) (\<lambda>r. case r of
       Inl e \<Rightarrow>
         if e = ErrNotFound then
           bindE (Incr S False InoKey 1) (\<lambda>_.
           bindE (DoSaveInKVPair S False (Some (Attr_ser (root_attr now uid gid)))) (\<lambda>_.
           returnE (root_attr now uid gid)))
         else throwE e
     | Inr pAttr \<Rightarrow> returnE pAttr)"

definition NewService :: "'s Store \<Rightarrow> libs \<Rightarrow> time \<Rightarrow> u32 \<Rightarrow> u32 \<Rightarrow> (Service, 's) gom" where
  "NewService S L now uid gid =
     bindE (init S L now uid gid) (\<lambda>r. returnE \<lparr> root = r, inoFreeList = [] \<rparr>)"

definition IfExistsInode :: "'s Store \<Rightarrow> libs \<Rightarrow> Ino \<Rightarrow> (unit, 's) gom" where
  "IfExistsInode S L ino =
     bindE (orElse (GetValueByKey S False (newAttr L (FromIno ino))) (notfound_or Unknown))
       (\<lambda>_. returnE ())"

definition GetInodeAttr :: "'s Store \<Rightarrow> libs \<Rightarrow> Ino \<Rightarrow> (Ino \<times> string \<times> pb_attr option, 's) gom" where
  "GetInodeAttr S L ino =
     bindE (orElse (GetValueByKey S False (newAttr L (FromIno ino))) (notfound_or Internal))
       (\<lambda>attr. returnE (at_ParentIno attr, at_Name attr, ToPb attr))"

definition Lookup :: "'s Store \<Rightarrow> libs \<Rightarrow> Service \<Rightarrow> Ino \<Rightarrow> string \<Rightarrow> (pb_attr option, 's) gom" where
  "Lookup S L srv parent itemName = (
     if parent = 0 \<or> itemName = [] then throwE (Status InvalidArgument)
     else let name = (if parent = 1 \<and> itemName = ''..'' then ''.'' else itemName) in
       if name = ''.'' \<and> parent = 1 then returnE (ToPb (root srv))
       else bindE (orElse (GetValueByKey S False (newEntry (InParentNamed parent name))) (notfound_or Internal)) (\<lambda>entry.
            bindE (orElse (GetValueByKey S False (newAttr L (FromEntry entry))) (notfound_or Internal)) (\<lambda>attr.
            returnE (ToPb attr))))"

record list_item =
  li_Ino :: Ino
  li_Name :: string
  li_Mode :: u32
  li_Attr :: "pb_attr option"

text \<open>\<^verbatim>\<open>strings.TrimPrefix\<close>.\<close>

definition trim_prefix :: "string \<Rightarrow> string \<Rightarrow> string" where
  "trim_prefix p s = (if prefix p s then drop (length p) s else s)"

text \<open>The items come in the order of their keys; Go ranges over the map in any order.\<close>

definition ListItemUnderInode :: "'s Store \<Rightarrow> libs \<Rightarrow> Ino \<Rightarrow> bool \<Rightarrow> (list_item list, 's) gom" where
  "ListItemUnderInode S L ino isPlusMode =
     bindE (orElse (GetValuesByPrefix S False (newEntry (InParent ino))) (notfound_or Internal)) (\<lambda>entryMap.
     mapE (\<lambda>(key, e).
       let item = \<lparr> li_Ino = en_Ino e, li_Name = trim_prefix (Entry_FormatPrefix e) key,
                    li_Mode = en_Mode e, li_Attr = None \<rparr>
       in if isPlusMode
          then bindE (orElse (GetValueByKey S False (newAttr L (FromIno (en_Ino e)))) (notfound_or Internal))
                 (\<lambda>attr. returnE (item \<lparr> li_Attr := ToPb attr \<rparr>))
          else returnE item) entryMap)"

section \<open>Updating attributes\<close>

text \<open>
  The part of \<^verbatim>\<open>UpdateInodeAttr\<close> between reading and writing the attribute, one function per
  group of bits of the request's \<^verbatim>\<open>set\<close>. The state is the attribute, the mode of the request, which the code
  changes in place, and the mark \<^verbatim>\<open>changed\<close>.
\<close>

record upd =
  u_attr :: pb_attr
  u_mode :: "u32 option"
  u_changed :: bool

definition has :: "u32 \<Rightarrow> u32 \<Rightarrow> bool" where "has vset m \<longleftrightarrow> vset AND m \<noteq> 0"

definition reqf :: "ModifyAttr option \<Rightarrow> (ModifyAttr \<Rightarrow> 'a option) \<Rightarrow> 'a option" where
  "reqf req f = (case req of None \<Rightarrow> None | Some r \<Rightarrow> f r)"

definition upd_sugid :: "goos \<Rightarrow> FuseContext \<Rightarrow> u32 \<Rightarrow> upd \<Rightarrow> error + upd" where
  "upd_sugid os ctx vset u = (
     let u1 = (if has vset (SetAttrUID OR SetAttrGID) \<and> has vset SetAttrMode
               then u \<lparr> u_attr := (u_attr u) \<lparr> pb_Mode := pb_Mode (u_attr u) OR (pb_Mode (u_attr u) AND 0xC00) \<rparr>,
                        u_changed := True \<rparr>
               else u)
     in if pb_Mode (u_attr u1) AND 0xC00 \<noteq> 0 \<and> has vset (SetAttrUID OR SetAttrGID)
        then bindR (clearSUGID os ctx (u_attr u1) (u_mode u1))
               (\<lambda>(cur, m). Inr \<lparr> u_attr = cur, u_mode = m, u_changed = True \<rparr>)
        else Inr u1)"

definition upd_gid :: "FuseContext \<Rightarrow> u32 \<Rightarrow> ModifyAttr option \<Rightarrow> upd \<Rightarrow> error + upd" where
  "upd_gid ctx vset req u = (
     if has vset SetAttrGID then
       (if cx_Uid ctx \<noteq> 0 \<and> cx_Uid ctx \<noteq> pb_Uid (u_attr u)
        then bindR (derefR (reqf req md_Uid)) (\<lambda>_. Inl (Errno EPERM))
        else bindR (derefR (reqf req md_Gid)) (\<lambda>g.
          if pb_Gid (u_attr u) \<noteq> g
          then Inr (u \<lparr> u_attr := (u_attr u) \<lparr> pb_Gid := g \<rparr>, u_changed := True \<rparr>)
          else Inr u))
     else Inr u)"

definition upd_uid :: "FuseContext \<Rightarrow> u32 \<Rightarrow> ModifyAttr option \<Rightarrow> upd \<Rightarrow> error + upd" where
  "upd_uid ctx vset req u = (
     if has vset SetAttrUID then
       bindR (derefR (reqf req md_Uid)) (\<lambda>v.
         if pb_Uid (u_attr u) \<noteq> v then
           (if cx_Uid ctx \<noteq> 0 then bindR (derefR (reqf req md_Gid)) (\<lambda>_. Inl (Errno EPERM))
            else Inr (u \<lparr> u_attr := (u_attr u) \<lparr> pb_Uid := v \<rparr>, u_changed := True \<rparr>))
         else Inr u)
     else Inr u)"

definition upd_mode :: "FuseContext \<Rightarrow> u32 \<Rightarrow> upd \<Rightarrow> error + upd" where
  "upd_mode ctx vset u = (
     if has vset SetAttrMode then
       bindR (derefR (u_mode u)) (\<lambda>m0.
         let a = u_attr u;
             m = (if cx_Uid ctx \<noteq> 0 \<and> m0 AND 0x400 \<noteq> 0 \<and> cx_Gid ctx \<noteq> pb_Gid a then m0 AND 0xBFF else m0)
         in if m \<noteq> pb_Mode a then
              (if cx_Uid ctx \<noteq> 0 \<and> cx_Gid ctx \<noteq> pb_Uid a
                  \<and> (pb_Mode a AND 0x3FF \<noteq> m AND 0x3FF \<or> m AND 0x400 > pb_Mode a AND 0x400
                     \<or> m AND 0x800 > pb_Mode a AND 0x800)
               then Inl (Errno EPERM)
               else Inr \<lparr> u_attr = a \<lparr> pb_Mode := m \<rparr>, u_mode = Some m, u_changed = True \<rparr>)
            else Inr (u \<lparr> u_mode := Some m \<rparr>))
     else Inr u)"

definition denied :: "FuseContext \<Rightarrow> pb_attr \<Rightarrow> bool" where
  "denied ctx a \<longleftrightarrow> cx_Uid ctx \<noteq> pb_Uid a \<and> access ctx a MODE_MASK_W \<noteq> None"

definition upd_atime :: "FuseContext \<Rightarrow> u32 \<Rightarrow> time \<Rightarrow> ModifyAttr option \<Rightarrow> upd \<Rightarrow> error + upd" where
  "upd_atime ctx vset now req u = (
     let a = u_attr u;
         asNow = (if denied ctx a then Inl (Errno EACCES)
                  else Inr (u \<lparr> u_attr := a \<lparr> pb_Atime := fst now, pb_Atimens := snd now \<rparr>, u_changed := True \<rparr>))
     in if has vset SetAttrAtimeNow then asNow
        else if has vset SetAttrAtime then
          bindR (derefR req) (\<lambda>r.
          if sint (case md_Atime r of None \<Rightarrow> 0 | Some t \<Rightarrow> t) < 0 then asNow
          else bindR (derefR (md_Atime r)) (\<lambda>t.
               bindR (if pb_Atime a \<noteq> t then Inr True
                      else bindR (derefR (md_Atimens r)) (\<lambda>n. Inr (pb_Atimens a \<noteq> n))) (\<lambda>diff.
               if diff then
                 (if pb_Uid a = 0 \<and> cx_Uid ctx \<noteq> 0 then Inl (Errno EPERM)
                  else if denied ctx a then Inl (Errno EACCES)
                  else bindR (derefR (md_Atimens r)) (\<lambda>n.
                    Inr (u \<lparr> u_attr := a \<lparr> pb_Atime := t, pb_Atimens := n \<rparr>, u_changed := True \<rparr>)))
               else Inr u)))
        else Inr u)"

definition upd_mtime :: "FuseContext \<Rightarrow> u32 \<Rightarrow> time \<Rightarrow> ModifyAttr option \<Rightarrow> upd \<Rightarrow> error + upd" where
  "upd_mtime ctx vset now req u = (
     let a = u_attr u;
         asNow = (if denied ctx a then Inl (Errno EACCES)
                  else Inr (u \<lparr> u_attr := a \<lparr> pb_Mtime := fst now, pb_Mtimens := snd now \<rparr>, u_changed := True \<rparr>))
     in if has vset SetAttrMtimeNow then asNow
        else if has vset SetAttrMtime then
          bindR (derefR (reqf req md_Mtime)) (\<lambda>t.
          if sint t < 0 then asNow
          else bindR (if pb_Mtime a \<noteq> t then Inr True
                      else bindR (derefR (reqf req md_Mtimens)) (\<lambda>n. Inr (pb_Mtimens a \<noteq> n))) (\<lambda>diff.
               if diff then
                 (if pb_Uid a = 0 \<and> cx_Uid ctx \<noteq> 0 then Inl (Errno EPERM)
                  else if denied ctx a then Inl (Errno EACCES)
                  else bindR (derefR (reqf req md_Mtimens)) (\<lambda>n.
                    Inr (u \<lparr> u_attr := a \<lparr> pb_Mtime := t, pb_Mtimens := n \<rparr>, u_changed := True \<rparr>)))
               else Inr u))
        else Inr u)"

definition upd_flag_size :: "u32 \<Rightarrow> time \<Rightarrow> ModifyAttr option \<Rightarrow> upd \<Rightarrow> error + upd" where
  "upd_flag_size vset now req u =
     bindR (if has vset SetAttrFlag then
              bindR (derefR (reqf req md_Flags)) (\<lambda>f.
                Inr (u \<lparr> u_attr := (u_attr u) \<lparr> pb_Flags := f \<rparr>, u_changed := True \<rparr>))
            else Inr u) (\<lambda>u.
     if has vset SetAttrSize then
       bindR (derefR (reqf req md_Size)) (\<lambda>z.
         Inr (u \<lparr> u_attr := (u_attr u) \<lparr> pb_Size := z, pb_Mtime := fst now, pb_Mtimens := snd now \<rparr>,
                  u_changed := True \<rparr>))
     else Inr u)"

definition upd_all :: "goos \<Rightarrow> FuseContext \<Rightarrow> u32 \<Rightarrow> time \<Rightarrow> ModifyAttr option \<Rightarrow> pb_attr \<Rightarrow> error + pb_attr" where
  "upd_all os ctx vset now req dirty =
     bindR (upd_sugid os ctx vset \<lparr> u_attr = dirty, u_mode = reqf req md_Mode, u_changed = False \<rparr>) (\<lambda>u.
     bindR (upd_gid ctx vset req u) (\<lambda>u.
     bindR (upd_uid ctx vset req u) (\<lambda>u.
     bindR (upd_mode ctx vset u) (\<lambda>u.
     bindR (upd_atime ctx vset now req u) (\<lambda>u.
     bindR (upd_mtime ctx vset now req u) (\<lambda>u.
     bindR (upd_flag_size vset now req u) (\<lambda>u.
     let a = touch_c now (u_attr u)
     in Inr (if u_changed u then a \<lparr> pb_Epoch := pb_Epoch a + 1 \<rparr> else a))))))))"

definition UpdateInodeAttr ::
    "'s Store \<Rightarrow> libs \<Rightarrow> (string \<times> string list) list \<Rightarrow> time \<Rightarrow> Ino \<Rightarrow> ModifyAttr option \<Rightarrow> u32 \<Rightarrow> (pb_attr, 's) gom" where
  "UpdateInodeAttr S L md now ino reqAttr vset = DoInTxn S (\<lambda>c.
     bindE (deref (MDFromContext md)) (\<lambda>ctx.
     bindE (orElse (GetValueByKey S c (newAttr L (FromIno ino))) (\<lambda>_. Status NotFound)) (\<lambda>dirtyAttr.
     bindE (deref (at_pb dirtyAttr)) (\<lambda>p.
     bindE (liftE (upd_all (GOOS L) ctx vset now reqAttr p)) (\<lambda>p'.
     bindE (orElse (DoBatchSaveStrictly S c [Some (Attr_ser (dirtyAttr \<lparr> at_pb := Some p' \<rparr>))])
              (\<lambda>_. Status Internal)) (\<lambda>_.
     returnE p'))))))"


section \<open>Deleting\<close>

definition DeleteInode :: "'s Store \<Rightarrow> libs \<Rightarrow> time \<Rightarrow> Ino \<Rightarrow> string \<Rightarrow> (unit, 's) gom" where
  "DeleteInode S L now parent name = (
     if parent = 0 \<and> name = ''/'' then returnE ()
     else if name = ''.'' \<or> name = ''..'' then throwE (Status InvalidArgument)
     else
       bindE (orElse (GetValueByKey S False (newEntry (InParentNamed parent name))) (notfound_or Internal)) (\<lambda>entry.
       if Entry_IsDir entry then throwE (Status Aborted)
       else DoInTxn S (\<lambda>c.
         bindE (orElse (GetValueByKey S c (newAttr L (FromIno (en_ParentIno entry)))) (\<lambda>_. Status Internal)) (\<lambda>pAttr.
         bindE (deref (at_pb pAttr)) (\<lambda>pp.
         let pp1 = touch_mc now pp in
         bindE (orElse (DeleteByKey S c (newEntry (InParentNamed parent name))) (\<lambda>_. Status Internal)) (\<lambda>_.
         bindE (GetValueByKey S c (newAttr L (FromIno (en_Ino entry)))) (\<lambda>attr.
         bindE (deref (at_pb attr)) (\<lambda>ap.
         bindE (if pb_Nlink ap > 1
                then let ap1 = touch_c now (ap \<lparr> pb_Nlink := pb_Nlink ap - 1 \<rparr>) in
                     orElse (DoSaveInKVPair S c (Some (Attr_ser (attr \<lparr> at_pb := Some ap1 \<rparr>)))) (\<lambda>_. Status Internal)
                else orElse (DeleteByKey S c (newAttr L (FromIno (en_Ino entry)))) (\<lambda>_. Status Internal)) (\<lambda>_.
         orElse (DoSaveInKVPair S c (Some (Attr_ser (pAttr \<lparr> at_pb := Some (pp1 \<lparr> pb_Epoch := pb_Epoch pp1 + 1 \<rparr>) \<rparr>))))
           (\<lambda>_. Status Internal)))))))))
     )"

text \<open>
  \<^verbatim>\<open>doDeleteDir\<close> recurses into the children it takes for directories; \<open>fuel\<close> bounds the depth of the
  recursion.
\<close>

fun doDeleteDir :: "nat \<Rightarrow> 's Store \<Rightarrow> Ino \<Rightarrow> string \<Rightarrow> (unit, 's) gom" where
  "doDeleteDir fuel S parentIno name =
     tryE (GetValueByKey S False (newEntry (InParentNamed parentIno name))) (\<lambda>r. case r of
       Inl e \<Rightarrow> if e = ErrNotFound then returnE () else throwE (Status Internal)
     | Inr entry \<Rightarrow>
       if Entry_IsFile entry then throwE (Status InvalidArgument)
       else
         bindE (GetValuesByPrefix S False (newEntry (InParent (en_Ino entry)))) (\<lambda>childrenMap.
         let attrs = map (\<lambda>(_, e). ino_attr (en_Ino e)) childrenMap in
         bindE (mapE (\<lambda>item. case at_pb item of None \<Rightarrow> throwE Panic | Some p \<Rightarrow>
                  if Attr_IsDir p then
                    (case fuel of 0 \<Rightarrow> throwE (ErrOther ''fuel'')
                     | Suc n \<Rightarrow> doDeleteDir n S (at_ParentIno item) (at_Name item))
                  else returnE ()) attrs) (\<lambda>_.
         bindE (DoBatchDeleteStrictly S False (map (\<lambda>(_, e). Entry_ser e) childrenMap @ [Entry_ser entry])) (\<lambda>_.
         DoBatchDeleteStrictly S False (map Attr_ser (attrs @ [ino_attr (en_Ino entry)]))))))"

declare doDeleteDir.simps [simp del]

definition DeleteDirInode :: "'s Store \<Rightarrow> libs \<Rightarrow> time \<Rightarrow> Ino \<Rightarrow> string \<Rightarrow> (unit, 's) gom" where
  "DeleteDirInode S L now parent name =
     bindE (orElse (GetValueByKey S False (newAttr L (FromIno parent))) (\<lambda>_. Status Internal)) (\<lambda>pAttr.
     bindE (orElse (GetValueByKey S False (newEntry (InParentNamed parent name))) (notfound_or Internal)) (\<lambda>entry.
     bindE (doDeleteDir 0 S parent name) (\<lambda>_.
     bindE (deref (at_pb pAttr)) (\<lambda>pp.
     let pp1 = touch_mc now (pp \<lparr> pb_Nlink := pb_Nlink pp - 1 \<rparr>) in
     orElse (DoSaveInKVPair S False (Some (Attr_ser (pAttr \<lparr> at_pb := Some (pp1 \<lparr> pb_Epoch := pb_Epoch pp1 + 1 \<rparr>) \<rparr>))))
       (\<lambda>_. Status Internal)))))"

section \<open>Creating and linking\<close>

text \<open>
  \<^verbatim>\<open>newInode\<close>: a number from the free list or the sequence (whose error is dropped, leaving 0), the
  link count and size by type, and the times of the new inode and its parent.
\<close>

definition newIno :: "'s Store \<Rightarrow> ctx \<Rightarrow> Service \<Rightarrow> (Ino \<times> Service, 's) gom" where
  "newIno S c srv = (
     if inoFreeList srv = []
     then bindE (dropErr (Incr S c InoKey 1)) (\<lambda>i. returnE (case i of None \<Rightarrow> 0 | Some n \<Rightarrow> n, srv))
     else returnE (last (inoFreeList srv), srv \<lparr> inoFreeList := butlast (inoFreeList srv) \<rparr>))"

definition new_attr :: "time \<Rightarrow> pb_attr \<Rightarrow> pb_attr" where
  "new_attr now p = (
     let p1 = (if Attr_IsDir p then p \<lparr> pb_Nlink := 2, pb_Size := 4096 \<rparr>
               else if Attr_IsSymlink p then p \<lparr> pb_Nlink := 1, pb_Size := of_nat (length (pb_LinkTarget p)) \<rparr>
               else p \<lparr> pb_Nlink := 1 \<rparr>)
     in touch_mc now (p1 \<lparr> pb_Atime := fst now, pb_Atimens := snd now \<rparr>))"

definition new_parent :: "time \<Rightarrow> pb_attr \<Rightarrow> pb_attr \<Rightarrow> pb_attr" where
  "new_parent now p pp = (
     let pp1 = touch_mc now (if Attr_IsDir p then pp \<lparr> pb_Nlink := pb_Nlink pp + 1 \<rparr> else pp)
     in pp1 \<lparr> pb_Epoch := pb_Epoch pp1 + 1 \<rparr>)"

definition newInode ::
    "'s Store \<Rightarrow> ctx \<Rightarrow> Service \<Rightarrow> time \<Rightarrow> Attr \<Rightarrow> pb_attr \<Rightarrow> bool \<Rightarrow> (pb_attr \<times> pb_attr \<times> Service, 's) gom" where
  "newInode S c srv now attr pp createIno =
     bindE (if createIno
            then bindE (newIno S c srv) (\<lambda>(ino, srv').
                 bindE (deref (at_pb attr)) (\<lambda>p. returnE (p \<lparr> pb_Inode := ino \<rparr>, srv')))
            else bindE (deref (at_pb attr)) (\<lambda>p. returnE (p, srv))) (\<lambda>(p, srv').
     returnE (new_attr now p, new_parent now p pp, srv'))"

definition CreateInode ::
    "'s Store \<Rightarrow> libs \<Rightarrow> Service \<Rightarrow> time \<Rightarrow> Ino \<Rightarrow> string \<Rightarrow> ModifyAttr option \<Rightarrow> (pb_attr \<times> Service, 's) gom" where
  "CreateInode S L srv now parent itemName reqAttr = DoInTxn S (\<lambda>c.
     bindE (orElse (GetValueByKey S c (newAttr L (FromIno parent))) (\<lambda>_. Status NotFound)) (\<lambda>pAttr.
     bindE (deref (at_pb pAttr)) (\<lambda>pp.
     if \<not> Attr_IsDir pp then throwE (Errno ENOTDIR)
     else if pb_Flags pp AND FlagImmutable \<noteq> 0 then throwE (Errno EPERM)
     else
       bindE (dropErr (GetValueByKey S c (newEntry (InParentNamed parent itemName)))) (\<lambda>old.
       if (case old of None \<Rightarrow> False | Some e \<Rightarrow> en_Ino e \<noteq> 0) then throwE (Errno EEXIST)
       else
         bindE (deref (ToAttr L reqAttr)) (\<lambda>attr0.
         let attr = attr0 \<lparr> at_ParentIno := parent, at_Name := itemName \<rparr> in
         bindE (newInode S c srv now attr pp True) (\<lambda>(p', pp', srv').
         let entry = \<lparr> en_ParentIno = parent, en_Name = itemName, en_Ino = pb_Inode p', en_Mode = pb_Mode p' \<rparr> in
         bindE (orElse (DoSaveInKVPair S c (Some (Entry_ser entry))) Wrapped) (\<lambda>_.
         bindE (orElse (DoBatchSaveStrictly S c (map (\<lambda>a. Some (Attr_ser a))
                  [pAttr \<lparr> at_pb := Some pp' \<rparr>, attr \<lparr> at_pb := Some p' \<rparr>])) Wrapped) (\<lambda>_.
         returnE (p', srv')))))))))"

definition Link :: "'s Store \<Rightarrow> libs \<Rightarrow> time \<Rightarrow> Ino \<Rightarrow> Ino \<Rightarrow> string \<Rightarrow> (pb_attr, 's) gom" where
  "Link S L now ino newParent newName =
     bindE (orElse (GetValueByKey S False (newAttr L (FromIno newParent))) (\<lambda>_. Status NotFound)) (\<lambda>pAttr.
     bindE (deref (at_pb pAttr)) (\<lambda>pp.
     if \<not> Attr_IsDir pp then throwE (Errno ENOTDIR)
     else if pb_Flags pp AND FlagImmutable \<noteq> 0 then throwE (Errno EPERM)
     else DoInTxn S (\<lambda>c.
       bindE (orElse (GetValueByKey S c (newAttr L (FromIno ino))) (\<lambda>_. Status NotFound)) (\<lambda>target.
       bindE (deref (at_pb target)) (\<lambda>tp.
       if Attr_IsDir tp then throwE (Errno EPERM)
       else
         bindE (dropErr (GetValueByKey S c (newEntry (InParentNamed newParent newName)))) (\<lambda>old.
         if (case old of None \<Rightarrow> False | Some e \<Rightarrow> en_Ino e \<noteq> 0) then throwE (Errno EEXIST)
         else
           let tp' = touch_c now (tp \<lparr> pb_Nlink := pb_Nlink tp + 1 \<rparr>); pp' = touch_mc now pp in
           bindE (orElse (DoBatchSaveStrictly S c (map (\<lambda>a. Some (Attr_ser a))
                    [pAttr \<lparr> at_pb := Some pp' \<rparr>, target \<lparr> at_pb := Some tp' \<rparr>])) Wrapped) (\<lambda>_.
           let entry = \<lparr> en_ParentIno = newParent, en_Name = newName, en_Ino = pb_Inode tp', en_Mode = pb_Mode tp' \<rparr> in
           bindE (orElse (DoSaveInKVPair S c (Some (Entry_ser entry))) Wrapped) (\<lambda>_.
           returnE tp'))))))))"

section \<open>Renaming\<close>

definition rename_flags :: "u32 \<Rightarrow> (unit, 's) gom" where
  "rename_flags flags = (
     if flags \<in> {0, RenameNoReplace, RenameExchange} then returnE ()
     else if flags \<in> {RenameWhiteout, RenameNoReplace OR RenameWhiteout} then throwE (Errno ENOTSUP)
     else throwE (Errno EINVAL))"

text \<open>
  The attributes that a rename works on: the parents of source and destination, the source, the
  destination if there is one, and the marks \<^verbatim>\<open>supdate\<close> and \<^verbatim>\<open>dupdate\<close>.
\<close>

record ren =
  r_spa :: Attr
  r_dpa :: Attr
  r_sa :: Attr
  r_de :: "Entry option"
  r_da :: "Attr option"
  r_supdate :: bool
  r_dupdate :: bool

definition thepb :: "Attr \<Rightarrow> pb_attr" where "thepb a = (case at_pb a of None \<Rightarrow> zero_pb | Some p \<Rightarrow> p)"

definition setpb :: "(pb_attr \<Rightarrow> pb_attr) \<Rightarrow> Attr \<Rightarrow> Attr" where
  "setpb f a = a \<lparr> at_pb := Some (f (thepb a)) \<rparr>"

definition addlink :: "u32 \<Rightarrow> Attr \<Rightarrow> Attr" where
  "addlink n = setpb (\<lambda>p. p \<lparr> pb_Nlink := pb_Nlink p + n \<rparr>)"

text \<open>Steps 1 and 2 of the source: load the entry and the three attributes, test the permissions.\<close>

definition rename_load ::
    "'s Store \<Rightarrow> libs \<Rightarrow> ctx \<Rightarrow> FuseContext \<Rightarrow> Ino \<Rightarrow> string \<Rightarrow> Ino \<Rightarrow> (Entry \<times> Attr \<times> Attr \<times> Attr, 's) gom" where
  "rename_load S L c ctx parentSrc oldName parentDst =
     bindE (orElse (GetValueByKey S c (newEntry (InParentNamed parentSrc oldName))) (\<lambda>_. Errno ENOENT)) (\<lambda>se.
     bindE (orElse (GetValueByKey S c (newAttr L (FromIno parentSrc))) (\<lambda>_. Errno ENOENT)) (\<lambda>spa.
     bindE (orElse (GetValueByKey S c (newAttr L (FromIno parentDst))) (\<lambda>_. Errno ENOENT)) (\<lambda>dpa.
     bindE (orElse (GetValueByKey S c (newAttr L (FromIno (en_Ino se)))) (\<lambda>_. Errno ENOENT)) (\<lambda>sa.
     bindE (deref (at_pb spa)) (\<lambda>sp.
     if \<not> Attr_IsDir sp then throwE (Errno ENOTDIR)
     else bindE (deref (at_pb dpa)) (\<lambda>dp.
     if \<not> Attr_IsDir dp then throwE (Errno ENOTDIR)
     else case access ctx sp (MODE_MASK_W OR MODE_MASK_X) of Some st \<Rightarrow> throwE (Errno st)
     | None \<Rightarrow> (case access ctx dp (MODE_MASK_W OR MODE_MASK_X) of Some st \<Rightarrow> throwE (Errno st)
     | None \<Rightarrow>
       if pb_Flags sp AND FlagAppend \<noteq> 0 \<or> pb_Flags sp AND FlagImmutable \<noteq> 0 \<or> pb_Flags dp AND FlagImmutable \<noteq> 0
       then throwE (Errno EPERM)
       else bindE (deref (at_pb sa)) (\<lambda>ap.
       if pb_Flags ap AND FlagAppend \<noteq> 0 \<or> pb_Flags ap AND FlagImmutable \<noteq> 0 then throwE (Errno EPERM)
       else if parentSrc \<noteq> parentDst \<and> pb_Mode sp AND 0x200 \<noteq> 0 \<and> cx_Uid ctx \<noteq> 0
               \<and> cx_Uid ctx \<noteq> pb_Uid ap \<and> (cx_Uid ctx \<noteq> pb_Uid sp \<or> Attr_IsDir ap)
       then throwE (Errno EACCES)
       else returnE (se, spa, dpa, sa)))))))))"

text \<open>Steps 3 and 4: the destination entry, its attribute and what replacing it changes.\<close>

definition rename_dst ::
    "'s Store \<Rightarrow> libs \<Rightarrow> ctx \<Rightarrow> FuseContext \<Rightarrow> time \<Rightarrow> u32 \<Rightarrow> Ino \<Rightarrow> Ino \<Rightarrow> Entry option \<Rightarrow> ren \<Rightarrow> (ren, 's) gom" where
  "rename_dst S L c ctx now flags parentSrc parentDst deo r = (case deo of
     None \<Rightarrow> if flags = RenameExchange then throwE (Errno ENOENT) else returnE r
   | Some de \<Rightarrow>
     if flags = RenameNoReplace then throwE (Errno EEXIST)
     else
       bindE (orElse (GetValueByKey S c (newAttr L (FromIno (en_Ino de)))) (\<lambda>_. Errno ENOENT)) (\<lambda>da0.
       bindE (deref (at_pb da0)) (\<lambda>dp0.
       if pb_Flags dp0 AND FlagAppend \<noteq> 0 \<or> pb_Flags dp0 AND FlagImmutable \<noteq> 0 then throwE (Errno EPERM)
       else let da = setpb (touch_c now) da0 in
       bindE (if flags = RenameExchange then
                returnE (if parentSrc \<noteq> parentDst then
                    (if Attr_IsDir dp0 then
                       r \<lparr> r_da := Some (da \<lparr> at_ParentIno := parentSrc \<rparr>), r_dpa := addlink (-1) (r_dpa r),
                           r_spa := addlink 1 (r_spa r), r_supdate := True, r_dupdate := True \<rparr>
                     else if at_ParentIno da > 0 then r \<lparr> r_da := Some (da \<lparr> at_ParentIno := parentSrc \<rparr>) \<rparr>
                     else r \<lparr> r_da := Some da \<rparr>)
                  else r \<lparr> r_da := Some da \<rparr>)
              else if Attr_IsDir dp0 then
                bindE (dropErr (GetValuesByPrefix S c (newEntry (InParent (pb_Inode dp0))))) (\<lambda>des.
                if (case des of None \<Rightarrow> False | Some l \<Rightarrow> l \<noteq> []) then throwE (Errno ENOTEMPTY)
                else returnE (r \<lparr> r_da := Some da, r_dpa := addlink (-1) (r_dpa r), r_dupdate := True \<rparr>))
              else returnE (r \<lparr> r_da := Some (addlink (-1) da) \<rparr>)) (\<lambda>r1.
       if cx_Uid ctx \<noteq> 0 \<and> pb_Mode dp0 AND 0x200 \<noteq> 0 \<and> cx_Uid ctx \<noteq> pb_Uid (thepb (r_dpa r1))
          \<and> cx_Uid ctx \<noteq> pb_Uid dp0
       then throwE (Errno EACCES)
       else returnE (r1 \<lparr> r_de := Some de \<rparr>)))))"

text \<open>\<^verbatim>\<open>now.Sub(time.Unix(sec, nsec)) >= 10ms\<close>, in nanoseconds.\<close>

definition long_ago :: "time \<Rightarrow> u64 \<Rightarrow> u32 \<Rightarrow> bool" where
  "long_ago now sec nsec \<longleftrightarrow>
     (sint (fst now) * 1000000000 + int (unat (snd now))) - (sint sec * 1000000000 + int (unat nsec))
       \<ge> 10000000"

text \<open>
  The sticky test on the source's parent, which follows the destination's attribute even when there
  is none, and the update of the parents' link counts and times.
\<close>

definition rename_parents :: "FuseContext \<Rightarrow> time \<Rightarrow> Ino \<Rightarrow> Ino \<Rightarrow> ren \<Rightarrow> error + ren" where
  "rename_parents ctx now parentSrc parentDst r = (
     let sp = thepb (r_spa r) in
     bindR (if cx_Uid ctx \<noteq> 0 \<and> pb_Mode sp AND 0x200 \<noteq> 0 \<and> cx_Uid ctx \<noteq> pb_Uid sp
            then bindR (derefR (r_da r)) (\<lambda>da. Inr (cx_Uid ctx \<noteq> pb_Uid (thepb da)))
            else Inr False) (\<lambda>sticky.
     if sticky then Inl (Errno EACCES)
     else
       let r1 = (if parentSrc \<noteq> parentDst \<and> Attr_IsDir (thepb (r_sa r))
                 then r \<lparr> r_spa := addlink (-1) (r_spa r), r_dpa := addlink 1 (r_dpa r),
                          r_supdate := True, r_dupdate := True \<rparr>
                 else r);
           s1 = thepb (r_spa r1);
           r2 = (if r_supdate r1 \<or> long_ago now (pb_Mtime s1) (pb_Ctimens s1)
                 then r1 \<lparr> r_spa := setpb (touch_mc now) (r_spa r1), r_supdate := True \<rparr> else r1);
           d1 = thepb (r_dpa r2);
           r3 = (if r_dupdate r2 \<or> long_ago now (pb_Mtime d1) (pb_Mtimens d1)
                 then r2 \<lparr> r_dpa := setpb (touch_mc now) (r_dpa r2), r_dupdate := True \<rparr> else r2)
       in Inr (r3 \<lparr> r_sa := setpb (touch_c now) (r_sa r3) \<rparr>)))"

text \<open>Writing the entries: the exchange writes back what it read, otherwise the entry moves.\<close>

definition rename_entries ::
    "'s Store \<Rightarrow> ctx \<Rightarrow> u32 \<Rightarrow> Ino \<Rightarrow> string \<Rightarrow> Entry \<Rightarrow> ren \<Rightarrow> (unit, 's) gom" where
  "rename_entries S c flags parentDst newName se r = (
     if flags = RenameExchange then
       bindE (deref (r_da r)) (\<lambda>da. DoBatchSaveAnyStrictly S c [Entry_lossy se, Attr_lossy da])
     else
       bindE (DeleteByKey S c (ToSerializer se)) (\<lambda>_.
       bindE (case r_de r of None \<Rightarrow> returnE () | Some de \<Rightarrow>
                bindE (deref (r_da r)) (\<lambda>da.
                bindE (if \<not> Attr_IsDir (thepb da) \<and> pb_Nlink (thepb da) > 0
                       then DoSaveInKVPair S c (Some (Attr_ser da))
                       else if Attr_IsFile (thepb da) then DoDeleteByKey S c (Some (Attr_ser da))
                       else if Attr_IsSymlink (thepb da) then DoDeleteByKey S c (Some (Attr_ser da))
                       else returnE ()) (\<lambda>_.
                DoDeleteByKey S c (Some (Entry_ser de))))) (\<lambda>_.
       DoSaveInKVPair S c (Some (Entry_ser
         \<lparr> en_ParentIno = parentDst, en_Name = newName, en_Ino = en_Ino se, en_Mode = en_Mode se \<rparr>)))))"

text \<open>The moved attribute: the destination's with the message of the source, or a copy of the source.\<close>

definition rename_finish ::
    "'s Store \<Rightarrow> libs \<Rightarrow> ctx \<Rightarrow> Ino \<Rightarrow> string \<Rightarrow> ren \<Rightarrow> (Attr option \<times> Attr \<times> Ino, 's) gom" where
  "rename_finish S L c parentDst newName r = (
     let trasha = (case Clone L (r_sa r) of Inl _ \<Rightarrow> None | Inr a \<Rightarrow> Some a);
         deletedIno = (case r_da r of None \<Rightarrow> 0 | Some da \<Rightarrow> pb_Inode (thepb da))
     in bindE (case r_da r of
                 Some da \<Rightarrow> returnE (da \<lparr> at_pb := at_pb (r_sa r) \<rparr>)
               | None \<Rightarrow> deref trasha) (\<lambda>da0.
        bindE (deref (at_pb da0)) (\<lambda>p.
        let da = da0 \<lparr> at_Name := newName, at_ParentIno := parentDst, at_pb := Some (p \<lparr> pb_Epoch := pb_Epoch p + 1 \<rparr>) \<rparr> in
        bindE (DoBatchSaveAnyStrictly S c [Attr_lossy da]) (\<lambda>_.
        bindE (if r_dupdate r then DoSaveInKVPair S c (Some (Attr_ser (r_dpa r))) else returnE ()) (\<lambda>_.
        returnE (trasha, da, deletedIno))))))"

definition Rename ::
    "'s Store \<Rightarrow> libs \<Rightarrow> (string \<times> string list) list \<Rightarrow> time \<Rightarrow> u32 \<Rightarrow> Ino \<Rightarrow> string \<Rightarrow> Ino \<Rightarrow> string
     \<Rightarrow> (pb_entry \<times> pb_entry \<times> Ino, 's) gom" where
  "Rename S L md now flags parentSrc oldName parentDst newName =
     bindE (rename_flags flags) (\<lambda>_.
     bindE (DoInTxn S (\<lambda>c.
       bindE (deref (MDFromContext md)) (\<lambda>ctx.
       bindE (rename_load S L c ctx parentSrc oldName parentDst) (\<lambda>(se, spa, dpa, sa).
       bindE (dropErr (GetValueByKey S c (newEntry (InParentNamed parentDst newName)))) (\<lambda>de.
       bindE (rename_dst S L c ctx now flags parentSrc parentDst de
                \<lparr> r_spa = spa, r_dpa = dpa, r_sa = sa, r_de = None, r_da = None, r_supdate = False, r_dupdate = False \<rparr>) (\<lambda>r0.
       bindE (liftE (rename_parents ctx now parentSrc parentDst r0)) (\<lambda>r.
       bindE (rename_entries S c flags parentDst newName se r) (\<lambda>_.
       bindE (if parentDst \<noteq> parentSrc \<and> r_supdate r
              then DoSaveInKVPair S c (Some (Attr_ser (setpb (\<lambda>p. p \<lparr> pb_Epoch := pb_Epoch p + 1 \<rparr>) (r_spa r))))
              else returnE ()) (\<lambda>_.
       rename_finish S L c parentDst newName r))))))))) (\<lambda>(trasha, da, deletedIno).
     bindE (deref trasha) (\<lambda>t. returnE (ToPbEntry t, ToPbEntry da, deletedIno))))"

end
