(* ===== verification/Inode_FS.thy ===== *)
theory Inode_FS
  imports Inode_Service
begin

text \<open>
  The file system behind the inode service: the attributes and entries a store content stands for,
  abstract operations on these two maps, and the refinement of the handlers on the specification of
  a store to the abstract operations.
\<close>

section \<open>The abstract file system\<close>

record fs =
  attrs :: "Ino \<rightharpoonup> Attr"
  entries :: "Ino \<times> string \<rightharpoonup> Entry"

definition abs_attrs :: "kv \<Rightarrow> Ino \<rightharpoonup> Attr" where
  "abs_attrs kv i = (case read_attr kv i of Inl _ \<Rightarrow> None | Inr a \<Rightarrow> Some a)"

definition abs_entries :: "kv \<Rightarrow> Ino \<times> string \<rightharpoonup> Entry" where
  "abs_entries kv pn = (case map_of kv (entry_key (fst pn) (snd pn)) of None \<Rightarrow> None
     | Some b \<Rightarrow> (case Entry_Deserialize b of Inl _ \<Rightarrow> None | Inr e \<Rightarrow> Some e))"

definition fs_of :: "kv \<Rightarrow> fs" where
  "fs_of kv = \<lparr> attrs = abs_attrs kv, entries = abs_entries kv \<rparr>"

text \<open>A name as the kernel passes it: not empty and without a trailing separator.\<close>

definition good_name :: "string \<Rightarrow> bool" where
  "good_name n \<longleftrightarrow> n \<noteq> [] \<and> last n \<noteq> CHR ''/''"

definition pb_of :: "fs \<Rightarrow> Ino \<rightharpoonup> pb_attr" where
  "pb_of f i = Option.bind (attrs f i) at_pb"

section \<open>Reading the content through the abstraction\<close>

lemma abs_attrs_ins [simp]:
  "abs_attrs (kv_ins (attr_key j) b kv) =
     (abs_attrs kv)(j := (case Attr_Deserialize b of Inl _ \<Rightarrow> None | Inr a \<Rightarrow> Some a))"
  "abs_attrs (kv_ins (entry_key p n) b kv) = abs_attrs kv"
  by (auto simp: abs_attrs_def fun_eq_iff)

lemma abs_attrs_del [simp]:
  "abs_attrs (kv_del (attr_key j) kv) = (abs_attrs kv)(j := None)"
  "abs_attrs (kv_del (entry_key p n) kv) = abs_attrs kv"
  by (auto simp: abs_attrs_def fun_eq_iff)

lemma abs_entries_ins [simp]:
  "abs_entries (kv_ins (attr_key j) b kv) = abs_entries kv"
  "abs_entries (kv_ins (entry_key p n) (entry_doc e) kv) = (abs_entries kv)((p, n) \<mapsto> e)"
  by (auto simp: abs_entries_def fun_eq_iff)

lemma abs_entries_del [simp]:
  "abs_entries (kv_del (attr_key j) kv) = abs_entries kv"
  "abs_entries (kv_del (entry_key p n) kv) = (abs_entries kv)((p, n) := None)"
  by (auto simp: abs_entries_def fun_eq_iff)

lemma good_name_trim [simp]: "good_name n \<Longrightarrow> trim_slash n = n"
  by (simp add: good_name_def trim_slash_def)

lemma good_name_nonempty: "good_name n \<Longrightarrow> n \<noteq> []"
  by (simp add: good_name_def)

lemma abs_attrs_read: "abs_attrs kv i = Some a \<longleftrightarrow> read_attr kv i = Inr a"
  by (simp add: abs_attrs_def split: sum.split)

lemma abs_attrs_None: "abs_attrs kv i = None \<longleftrightarrow> (\<exists>e. read_attr kv i = Inl e)"
  by (simp add: abs_attrs_def split: sum.split)

lemma abs_entries_read:
  "good_name n \<Longrightarrow> abs_entries kv (p, n) = Some e \<longleftrightarrow> read_entry kv p n = Inr e"
  by (auto simp: abs_entries_def read_entry_def lookup_kv_def good_name_nonempty
      split: option.splits sum.splits)

lemma abs_entries_None:
  "good_name n \<Longrightarrow> abs_entries kv (p, n) = None \<longleftrightarrow> (\<exists>e. read_entry kv p n = Inl e)"
  by (auto simp: abs_entries_def read_entry_def lookup_kv_def good_name_nonempty
      split: option.splits sum.splits)

section \<open>Running the handlers\<close>

lemma deref_run [run_simps]:
  "deref (Some x) s = (Inr x, s)" "deref None s = (Inl Panic, s)"
  by (simp_all add: deref_def run_simps)

lemma dropErr_run [run_simps]:
  "dropErr m s = (case m s of (r, t) \<Rightarrow> if r = Inl Panic then (Inl Panic, t)
     else (Inr (case r of Inl _ \<Rightarrow> None | Inr v \<Rightarrow> Some v), t))"
  by (auto simp: dropErr_def run_simps split: sum.split prod.split)

lemma orElse_run [run_simps]:
  "orElse m f s = (case m s of (r, t) \<Rightarrow> (case r of
     Inl e \<Rightarrow> if e = Panic then (Inl Panic, t) else (Inl (f e), t) | Inr v \<Rightarrow> (Inr v, t)))"
  by (auto simp: orElse_def run_simps split: sum.split prod.split)

text \<open>Decoding never panics.\<close>

lemma dec_no_panic [simp]:
  "dec_uint j v \<noteq> Inl Panic" "dec_sint j w \<noteq> Inl Panic" "dec_str j s \<noteq> Inl Panic"
  by (auto simp: dec_uint_def dec_sint_def dec_str_def split: json.split)

lemma mapR_panic [simp]: "mapR f r = Inl Panic \<longleftrightarrow> r = Inl Panic"
  by (cases r) (auto simp: mapR_def)

lemma in_pb_panic: "(\<And>p. f p \<noteq> Inl Panic) \<Longrightarrow> in_pb f a \<noteq> Inl Panic"
  by (simp add: in_pb_def)

lemma member_no_panic: "Attr_member k j a \<noteq> Inl Panic" "Entry_member k j e \<noteq> Inl Panic"
  by (auto simp: Attr_member_def Entry_member_def Let_def in_pb_def)

lemma members_no_panic:
  "(\<And>k j a. f k j a \<noteq> Inl Panic) \<Longrightarrow> members f ms a \<noteq> Inl Panic"
  by (induction f ms a rule: members.induct) (auto split: sum.split)

lemma deserialize_no_panic [simp]:
  "Attr_Deserialize b \<noteq> Inl Panic" "Entry_Deserialize b \<noteq> Inl Panic"
  using members_no_panic [of Attr_member] members_no_panic [of Entry_member] member_no_panic
  by (auto simp: Attr_Deserialize_def Entry_Deserialize_def unmarshal_def split: blob.split json.split)

lemma read_no_panic [simp]: "read_attr kv i \<noteq> Inl Panic" "read_entry kv p n \<noteq> Inl Panic"
  by (auto simp: read_attr_def read_entry_def lookup_kv_def split: option.splits sum.splits)


text \<open>Every attribute carries the number it is stored under, which is not 0.\<close>

definition keyed :: "fs \<Rightarrow> bool" where
  "keyed f \<longleftrightarrow> (\<forall>i a. attrs f i = Some a \<longrightarrow> (\<exists>p. at_pb a = Some p \<and> pb_Inode p = i \<and> i \<noteq> 0))"

definition create_fs :: "libs \<Rightarrow> time \<Rightarrow> Ino \<Rightarrow> string \<Rightarrow> ModifyAttr option \<Rightarrow> Ino \<Rightarrow> fs \<Rightarrow> error + pb_attr \<times> fs" where
  "create_fs L now parent name req ino f = (case attrs f parent of
     None \<Rightarrow> Inl (Status NotFound)
   | Some pA \<Rightarrow> bindR (derefR (at_pb pA)) (\<lambda>pp.
     if \<not> Attr_IsDir pp then Inl (Errno ENOTDIR)
     else if pb_Flags pp AND FlagImmutable \<noteq> 0 then Inl (Errno EPERM)
     else if (case entries f (parent, name) of None \<Rightarrow> False | Some e \<Rightarrow> en_Ino e \<noteq> 0) then Inl (Errno EEXIST)
     else bindR (derefR (ToAttr L req)) (\<lambda>a0. bindR (derefR (at_pb a0)) (\<lambda>p0.
       let p = new_attr now (p0 \<lparr> pb_Inode := ino \<rparr>); pp' = new_parent now (p0 \<lparr> pb_Inode := ino \<rparr>) pp
       in Inr (p, f \<lparr>
            entries := (entries f)((parent, name) \<mapsto>
              \<lparr> en_ParentIno = parent, en_Name = name, en_Ino = ino, en_Mode = pb_Mode p \<rparr>),
            attrs := (attrs f)(parent \<mapsto> pA \<lparr> at_pb := Some pp' \<rparr>,
              ino \<mapsto> a0 \<lparr> at_ParentIno := parent, at_Name := name, at_pb := Some p \<rparr>) \<rparr>)))))"

lemma touch_simps [simp]:
  "pb_Inode (touch_mc now p) = pb_Inode p" "pb_Inode (touch_c now p) = pb_Inode p"
  "pb_Mode (touch_mc now p) = pb_Mode p" "pb_Mode (touch_c now p) = pb_Mode p"
  "pb_Nlink (touch_mc now p) = pb_Nlink p" "pb_Nlink (touch_c now p) = pb_Nlink p"
  "pb_Epoch (touch_mc now p) = pb_Epoch p" "pb_Flags (touch_mc now p) = pb_Flags p"
  by (simp_all add: touch_mc_def touch_c_def)

lemma new_attr_simps [simp]:
  "pb_Inode (new_attr now p) = pb_Inode p" "pb_Mode (new_attr now p) = pb_Mode p"
  "pb_Nlink (new_attr now p) = (if Attr_IsDir p then 2 else 1)"
  by (simp_all add: new_attr_def Let_def)

lemma new_parent_simps [simp]:
  "pb_Inode (new_parent now p pp) = pb_Inode pp" "pb_Mode (new_parent now p pp) = pb_Mode pp"
  "pb_Nlink (new_parent now p pp) = (if Attr_IsDir p then pb_Nlink pp + 1 else pb_Nlink pp)"
  "pb_Flags (new_parent now p pp) = pb_Flags pp"
  by (simp_all add: new_parent_def Let_def)

lemma Attr_FormatKey_some: "at_pb a = Some p \<Longrightarrow> Attr_FormatKey a = attr_key (pb_Inode p)"
  by (simp add: Attr_FormatKey_def)

lemma read_Inl:
  "read_attr kv i = Inl e \<Longrightarrow> e \<noteq> Panic" "read_entry kv p n = Inl e \<Longrightarrow> e \<noteq> Panic"
  using read_no_panic by metis+

lemma newIno_run [run_simps]:
  "inoFreeList srv = [] \<Longrightarrow> newIno spec_store c srv m =
     (Inr (seqs m InoKey + 1, srv), m \<lparr> seqs := (seqs m)(InoKey := seqs m InoKey + 1) \<rparr>)"
  by (simp add: newIno_def run_simps spec_incr_def)

lemma keyedD:
  "keyed (fs_of kv) \<Longrightarrow> read_attr kv i = Inr a \<Longrightarrow> \<exists>p. at_pb a = Some p \<and> pb_Inode p = i \<and> i \<noteq> 0"
  by (simp add: keyed_def fs_of_def abs_attrs_read)

lemmas fs_simps = fs_of_def abs_attrs_read abs_attrs_None abs_entries_None abs_entries_read

lemma drop_read_entry [simp]:
  "good_name n \<Longrightarrow> (case read_entry kv p n of Inl _ \<Rightarrow> None | Inr v \<Rightarrow> Some v) = abs_entries kv (p, n)"
  by (auto simp: abs_entries_def read_entry_def lookup_kv_def good_name_nonempty
      split: option.splits sum.splits)

lemma CreateInode_refines:
  assumes "keyed (fs_of (committed m))" and "good_name name" and "inoFreeList srv = []"
    and "seqs m InoKey + 1 \<noteq> 0"
  shows "case create_fs L now parent name req (seqs m InoKey + 1) (fs_of (committed m)) of
    Inl e \<Rightarrow> (\<exists>t. CreateInode spec_store L srv now parent name req m = (Inl e, t) \<and> committed t = committed m
      \<and> (seqs t = seqs m \<or> seqs t = (seqs m)(InoKey := seqs m InoKey + 1)))
  | Inr (p, f) \<Rightarrow> (\<exists>t. CreateInode spec_store L srv now parent name req m = (Inr (p, srv), t)
      \<and> fs_of (committed t) = f \<and> seqs t = (seqs m)(InoKey := seqs m InoKey + 1) \<and> pending t = None)"
proof (cases "read_attr (committed m) parent")
  case (Inl e)
  with read_Inl(1) [OF this] show ?thesis
    by (simp add: CreateInode_def run_simps create_fs_def fs_of_def abs_attrs_def)
next
  case pA: (Inr pA)
  with keyedD [OF assms(1)] obtain pp where pp: "at_pb pA = Some pp" "pb_Inode pp = parent" "parent \<noteq> 0"
    by blast
  have a: "abs_attrs (committed m) parent = Some pA" using pA by (simp add: abs_attrs_read)
  note facts = assms pA pp a good_name_nonempty [OF assms(2)]
  let ?old = "\<lambda>x. case x of None \<Rightarrow> False | Some e \<Rightarrow> en_Ino e \<noteq> 0"
  consider (no) "\<not> Attr_IsDir pp \<or> pb_Flags pp AND FlagImmutable \<noteq> 0 \<or> ?old (abs_entries (committed m) (parent, name))
      \<or> ToAttr L req = None \<or> Option.bind (ToAttr L req) at_pb = None"
    | (yes) a0 p0 where "Attr_IsDir pp" "pb_Flags pp AND FlagImmutable = 0"
      "\<not> ?old (abs_entries (committed m) (parent, name))" "ToAttr L req = Some a0" "at_pb a0 = Some p0"
    by (cases "ToAttr L req"; cases "Option.bind (ToAttr L req) at_pb") auto
  then show ?thesis
  proof cases
    case no
    then show ?thesis using facts
      by (cases "ToAttr L req")
        (auto simp: CreateInode_def run_simps create_fs_def fs_of_def newInode_def bindR_def derefR_def Let_def)
  next
    case yes
    then show ?thesis using facts
      by (simp add: CreateInode_def run_simps create_fs_def fs_of_def newInode_def bindR_def derefR_def
          Let_def Attr_FormatKey_some)
  qed
qed


text \<open>Linking: the target gains a link, the parent's times change, the entry is new.\<close>

definition link_fs :: "time \<Rightarrow> Ino \<Rightarrow> Ino \<Rightarrow> string \<Rightarrow> fs \<Rightarrow> error + pb_attr \<times> fs" where
  "link_fs now ino parent name f = (case attrs f parent of
     None \<Rightarrow> Inl (Status NotFound)
   | Some pA \<Rightarrow> bindR (derefR (at_pb pA)) (\<lambda>pp.
     if \<not> Attr_IsDir pp then Inl (Errno ENOTDIR)
     else if pb_Flags pp AND FlagImmutable \<noteq> 0 then Inl (Errno EPERM)
     else (case attrs f ino of
       None \<Rightarrow> Inl (Status NotFound)
     | Some tA \<Rightarrow> bindR (derefR (at_pb tA)) (\<lambda>tp.
       if Attr_IsDir tp then Inl (Errno EPERM)
       else if (case entries f (parent, name) of None \<Rightarrow> False | Some e \<Rightarrow> en_Ino e \<noteq> 0) then Inl (Errno EEXIST)
       else
         let tp' = touch_c now (tp \<lparr> pb_Nlink := pb_Nlink tp + 1 \<rparr>)
         in Inr (tp', f \<lparr>
              attrs := (attrs f)(parent \<mapsto> pA \<lparr> at_pb := Some (touch_mc now pp) \<rparr>, ino \<mapsto> tA \<lparr> at_pb := Some tp' \<rparr>),
              entries := (entries f)((parent, name) \<mapsto>
                \<lparr> en_ParentIno = parent, en_Name = name, en_Ino = ino, en_Mode = pb_Mode tp \<rparr>) \<rparr>)))))"

lemma Link_refines:
  assumes "keyed (fs_of (committed m))" and "good_name name"
  shows "case link_fs now ino parent name (fs_of (committed m)) of
    Inl e \<Rightarrow> (\<exists>t. Link spec_store L now ino parent name m = (Inl e, t) \<and> committed t = committed m \<and> seqs t = seqs m)
  | Inr (p, f) \<Rightarrow> (\<exists>t. Link spec_store L now ino parent name m = (Inr p, t)
      \<and> fs_of (committed t) = f \<and> seqs t = seqs m \<and> pending t = None)"
proof (cases "read_attr (committed m) parent")
  case (Inl e)
  with read_Inl(1) [OF this] show ?thesis
    by (simp add: Link_def run_simps link_fs_def fs_of_def abs_attrs_def)
next
  case pA: (Inr pA)
  with keyedD [OF assms(1)] obtain pp where pp: "at_pb pA = Some pp" "pb_Inode pp = parent" "parent \<noteq> 0"
    by blast
  have a: "abs_attrs (committed m) parent = Some pA" using pA by (simp add: abs_attrs_read)
  note facts = assms pA pp a good_name_nonempty [OF assms(2)]
  show ?thesis
  proof (cases "read_attr (committed m) ino")
    case (Inl e)
    with read_Inl(1) [OF this] facts show ?thesis
      by (simp add: Link_def run_simps link_fs_def fs_of_def abs_attrs_def bindR_def derefR_def)
  next
    case tA: (Inr tA)
    with keyedD [OF assms(1)] obtain tp where tp: "at_pb tA = Some tp" "pb_Inode tp = ino" "ino \<noteq> 0"
      by blast
    have b: "abs_attrs (committed m) ino = Some tA" using tA by (simp add: abs_attrs_read)
    show ?thesis using facts tA tp b
      by (auto simp: Link_def run_simps link_fs_def fs_of_def bindR_def derefR_def Let_def Attr_FormatKey_some)
  qed
qed

text \<open>Deleting a file's entry: one link less, or the attribute goes with its last link.\<close>

definition delete_fs :: "time \<Rightarrow> Ino \<Rightarrow> string \<Rightarrow> Entry \<Rightarrow> fs \<Rightarrow> error + fs" where
  "delete_fs now parent name e f = (case attrs f parent of
     None \<Rightarrow> Inl (Status Internal)
   | Some pA \<Rightarrow> bindR (derefR (at_pb pA)) (\<lambda>pp. (case attrs f (en_Ino e) of
     None \<Rightarrow> Inl ErrNotFound
   | Some tA \<Rightarrow> bindR (derefR (at_pb tA)) (\<lambda>tp.
       let pp' = (touch_mc now pp) \<lparr> pb_Epoch := pb_Epoch pp + 1 \<rparr> in
       Inr (f \<lparr> entries := (entries f)((parent, name) := None),
                attrs := (attrs f)
                  (en_Ino e := (if pb_Nlink tp > 1
                     then Some (tA \<lparr> at_pb := Some (touch_c now (tp \<lparr> pb_Nlink := pb_Nlink tp - 1 \<rparr>)) \<rparr>)
                     else None),
                   parent := Some (pA \<lparr> at_pb := Some pp' \<rparr>)) \<rparr>)))))"

lemma DeleteInode_refines:
  assumes "keyed (fs_of (committed m))" and "good_name name" and "name \<noteq> ''.''" and "name \<noteq> ''..''"
    and "entries (fs_of (committed m)) (parent, name) = Some e" and "en_ParentIno e = parent"
    and "\<not> Entry_IsDir e" and "attrs (fs_of (committed m)) (en_Ino e) \<noteq> None"
  shows "case delete_fs now parent name e (fs_of (committed m)) of
    Inl x \<Rightarrow> (\<exists>t. DeleteInode spec_store L now parent name m = (Inl x, t) \<and> committed t = committed m \<and> seqs t = seqs m)
  | Inr f \<Rightarrow> (\<exists>t. DeleteInode spec_store L now parent name m = (Inr (), t)
      \<and> fs_of (committed t) = f \<and> seqs t = seqs m \<and> pending t = None
      \<and> map_of (committed t) (entry_key parent name) = None)"
proof -
  have e: "read_entry (committed m) parent name = Inr e"
    using assms(2,5) by (simp add: fs_of_def abs_entries_read)
  have s: "name \<noteq> ''/''" using assms(2) by (auto simp: good_name_def)
  note facts = assms(2-7) e s good_name_nonempty [OF assms(2)]
  from assms(8) obtain tA where tA: "read_attr (committed m) (en_Ino e) = Inr tA"
    "abs_attrs (committed m) (en_Ino e) = Some tA" by (auto simp: fs_of_def abs_attrs_read)
  with keyedD [OF assms(1)] obtain tp where tp: "at_pb tA = Some tp" "pb_Inode tp = en_Ino e" "en_Ino e \<noteq> 0"
    by blast
  show ?thesis
  proof (cases "read_attr (committed m) parent")
    case (Inl x)
    with read_Inl(1) [OF this] facts show ?thesis
      by (simp add: DeleteInode_def run_simps delete_fs_def fs_of_def abs_attrs_def)
  next
    case pA: (Inr pA)
    with keyedD [OF assms(1)] obtain pp where pp: "at_pb pA = Some pp" "pb_Inode pp = parent" "parent \<noteq> 0"
      by blast
    have a: "abs_attrs (committed m) parent = Some pA" using pA by (simp add: abs_attrs_read)
    show ?thesis using facts pA pp a tA tp
      by (auto simp: DeleteInode_def run_simps delete_fs_def fs_of_def Let_def bindR_def derefR_def
          Attr_FormatKey_some)
  qed
qed

text \<open>A request without such an entry is refused and changes nothing.\<close>

lemma DeleteInode_refused:
  assumes "good_name name" and "case entries (fs_of (committed m)) (parent, name) of None \<Rightarrow> True
      | Some e \<Rightarrow> Entry_IsDir e \<or> name = ''.'' \<or> name = ''..''"
  shows "\<exists>x t. DeleteInode spec_store L now parent name m = (Inl x, t) \<and> committed t = committed m
    \<and> seqs t = seqs m"
proof (cases "read_entry (committed m) parent name")
  case (Inl x)
  with read_Inl(2) [OF this] assms(1) show ?thesis
    by (auto simp: DeleteInode_def run_simps good_name_def)
next
  case (Inr e)
  then have "abs_entries (committed m) (parent, name) = Some e" using assms(1) by (simp add: abs_entries_read)
  with Inr assms show ?thesis by (auto simp: DeleteInode_def run_simps good_name_def fs_of_def)
qed

text \<open>Updating: one attribute changes as \<^const>\<open>upd_all\<close> says.\<close>

definition update_fs ::
    "goos \<Rightarrow> FuseContext \<Rightarrow> time \<Rightarrow> Ino \<Rightarrow> ModifyAttr option \<Rightarrow> u32 \<Rightarrow> fs \<Rightarrow> error + pb_attr \<times> fs" where
  "update_fs os ctx now ino req vset f = (case attrs f ino of
     None \<Rightarrow> Inl (Status NotFound)
   | Some a \<Rightarrow> bindR (derefR (at_pb a)) (\<lambda>p.
     bindR (upd_all os ctx vset now req p) (\<lambda>q.
     Inr (q, f \<lparr> attrs := (attrs f)(ino \<mapsto> a \<lparr> at_pb := Some q \<rparr>) \<rparr>))))"

text \<open>No stage of an update touches the inode number or the link count.\<close>

definition same_node :: "pb_attr \<Rightarrow> error + upd \<Rightarrow> bool" where
  "same_node p r \<longleftrightarrow> (\<forall>u. r = Inr u \<longrightarrow> pb_Inode (u_attr u) = pb_Inode p \<and> pb_Nlink (u_attr u) = pb_Nlink p)"

lemma same_node_intros:
  "same_node p (Inl e)"
  "pb_Inode (u_attr u) = pb_Inode p \<Longrightarrow> pb_Nlink (u_attr u) = pb_Nlink p \<Longrightarrow> same_node p (Inr u)"
  "(\<And>x. r = Inr x \<Longrightarrow> same_node p (f x)) \<Longrightarrow> same_node p (bindR r f)"
  "(c \<Longrightarrow> same_node p y) \<Longrightarrow> (\<not> c \<Longrightarrow> same_node p z) \<Longrightarrow> same_node p (if c then y else z)"
  by (auto simp: same_node_def bindR_def split: sum.splits)

lemma clearSUGID_node:
  "clearSUGID os ctx cur mode = Inr (cur', mode') \<Longrightarrow>
   pb_Inode cur' = pb_Inode cur \<and> pb_Nlink cur' = pb_Nlink cur"
  by (auto simp: clearSUGID_def Let_def split: goos.splits if_splits option.splits)

lemma upd_stage_node:
  "same_node (u_attr u) (upd_sugid os ctx vset u)" "same_node (u_attr u) (upd_gid ctx vset req u)"
  "same_node (u_attr u) (upd_uid ctx vset req u)" "same_node (u_attr u) (upd_mode ctx vset u)"
  "same_node (u_attr u) (upd_atime ctx vset now req u)" "same_node (u_attr u) (upd_mtime ctx vset now req u)"
proof -
  show "same_node (u_attr u) (upd_sugid os ctx vset u)"
    unfolding upd_sugid_def Let_def
    by (intro same_node_intros) (auto intro!: same_node_intros dest: clearSUGID_node)
qed (unfold upd_gid_def upd_uid_def upd_mode_def upd_atime_def upd_mtime_def Let_def,
    (intro same_node_intros; simp)+)

lemma upd_flag_size_node: "same_node (u_attr u) (upd_flag_size vset now req u)"
proof -
  define v where "v = (if has vset SetAttrFlag then
      bindR (derefR (reqf req md_Flags)) (\<lambda>f. Inr (u \<lparr> u_attr := (u_attr u) \<lparr> pb_Flags := f \<rparr>, u_changed := True \<rparr>))
    else Inr u)"
  have "same_node (u_attr u) v" unfolding v_def by (intro same_node_intros; simp)
  then show ?thesis unfolding upd_flag_size_def v_def [symmetric]
    by (intro same_node_intros) (auto simp: same_node_def)
qed

lemma upd_all_stages:
  assumes "upd_all os ctx vset now req p = Inr q"
  obtains u1 u2 u3 u4 u5 u6 u7 where
    "upd_sugid os ctx vset \<lparr> u_attr = p, u_mode = reqf req md_Mode, u_changed = False \<rparr> = Inr u1"
    "upd_gid ctx vset req u1 = Inr u2" "upd_uid ctx vset req u2 = Inr u3" "upd_mode ctx vset u3 = Inr u4"
    "upd_atime ctx vset now req u4 = Inr u5" "upd_mtime ctx vset now req u5 = Inr u6"
    "upd_flag_size vset now req u6 = Inr u7"
    "q = (if u_changed u7 then (touch_c now (u_attr u7)) \<lparr> pb_Epoch := pb_Epoch (touch_c now (u_attr u7)) + 1 \<rparr>
          else touch_c now (u_attr u7))"
  using assms by (auto simp: upd_all_def bindR_def Let_def split: sum.splits)

lemma upd_all_node:
  assumes "upd_all os ctx vset now req p = Inr q"
  shows "pb_Inode q = pb_Inode p \<and> pb_Nlink q = pb_Nlink p"
proof -
  from assms obtain u1 u2 u3 u4 u5 u6 u7 where st:
    "upd_sugid os ctx vset \<lparr> u_attr = p, u_mode = reqf req md_Mode, u_changed = False \<rparr> = Inr u1"
    "upd_gid ctx vset req u1 = Inr u2" "upd_uid ctx vset req u2 = Inr u3" "upd_mode ctx vset u3 = Inr u4"
    "upd_atime ctx vset now req u4 = Inr u5" "upd_mtime ctx vset now req u5 = Inr u6"
    "upd_flag_size vset now req u6 = Inr u7"
    "q = (if u_changed u7 then (touch_c now (u_attr u7)) \<lparr> pb_Epoch := pb_Epoch (touch_c now (u_attr u7)) + 1 \<rparr>
          else touch_c now (u_attr u7))"
    by (rule upd_all_stages)
  then show ?thesis
    using upd_stage_node(1) [of "\<lparr> u_attr = p, u_mode = reqf req md_Mode, u_changed = False \<rparr>" os ctx vset]
      upd_stage_node(2) [of u1 ctx vset req] upd_stage_node(3) [of u2 ctx vset req]
      upd_stage_node(4) [of u3 ctx vset] upd_stage_node(5) [of u4 ctx vset now req]
      upd_stage_node(6) [of u5 ctx vset now req] upd_flag_size_node [of u6 vset now req]
    by (simp add: same_node_def)
qed

lemma UpdateInodeAttr_refines:
  assumes "keyed (fs_of (committed m))" and "MDFromContext md = Some ctx"
  shows "case update_fs (GOOS L) ctx now ino req vset (fs_of (committed m)) of
    Inl e \<Rightarrow> (\<exists>t. UpdateInodeAttr spec_store L md now ino req vset m = (Inl e, t) \<and> committed t = committed m \<and> seqs t = seqs m)
  | Inr (p, f) \<Rightarrow> (\<exists>t. UpdateInodeAttr spec_store L md now ino req vset m = (Inr p, t)
      \<and> fs_of (committed t) = f \<and> seqs t = seqs m \<and> pending t = None)"
proof (cases "read_attr (committed m) ino")
  case (Inl e)
  with read_Inl(1) [OF this] assms show ?thesis
    by (simp add: UpdateInodeAttr_def run_simps update_fs_def fs_of_def abs_attrs_def)
next
  case a: (Inr a)
  with keyedD [OF assms(1)] obtain p where p: "at_pb a = Some p" "pb_Inode p = ino" "ino \<noteq> 0" by blast
  have b: "abs_attrs (committed m) ino = Some a" using a by (simp add: abs_attrs_read)
  show ?thesis
  proof (cases "upd_all (GOOS L) ctx vset now req p")
    case (Inl e)
    then show ?thesis using assms a p b
      by (cases "e = Panic") (simp_all add: UpdateInodeAttr_def run_simps update_fs_def fs_of_def bindR_def derefR_def)
  next
    case (Inr q)
    with upd_all_node [OF this] show ?thesis using assms a p b
      by (simp add: UpdateInodeAttr_def run_simps update_fs_def fs_of_def bindR_def derefR_def Attr_FormatKey_some)
  qed
qed

end
