(* ===== verification/Inode_Inv.thy ===== *)
theory Inode_Inv
  imports Inode_FS
begin

text \<open>
  The invariant of the name space: every attribute is stored under its own number, every entry names
  an existing inode of its type in an existing directory, numbers in use have been drawn from the
  sequence, and an inode has at least as many links as there are entries for it. Each abstract
  operation keeps it, hence every state that the handlers reach has it.
\<close>

section \<open>The invariant\<close>

definition links :: "fs \<Rightarrow> Ino \<Rightarrow> (Ino \<times> string) set" where
  "links f i = {pn. \<exists>e. entries f pn = Some e \<and> en_Ino e = i}"

definition entry_ok :: "fs \<Rightarrow> Ino \<times> string \<Rightarrow> Entry \<Rightarrow> bool" where
  "entry_ok f pn e \<longleftrightarrow> en_ParentIno e = fst pn \<and> en_Name e = snd pn
     \<and> (\<exists>t. pb_of f (en_Ino e) = Some t \<and> Attr_IsDir t = Entry_IsDir e)
     \<and> (\<exists>t. pb_of f (fst pn) = Some t \<and> Attr_IsDir t)"

text \<open>\<open>k\<close> bounds the numbers and link counts in use, so that they do not wrap around.\<close>

definition fs_inv :: "nat \<Rightarrow> u64 \<Rightarrow> fs \<Rightarrow> bool" where
  "fs_inv k s f \<longleftrightarrow> keyed f \<and> finite (dom (entries f)) \<and> unat s \<le> k
     \<and> (\<forall>i. attrs f i \<noteq> None \<longrightarrow> i \<le> s)
     \<and> (\<forall>pn e. entries f pn = Some e \<longrightarrow> entry_ok f pn e)
     \<and> (\<forall>i t. pb_of f i = Some t \<longrightarrow> card (links f i) \<le> unat (pb_Nlink t) \<and> unat (pb_Nlink t) \<le> k)"

lemma fs_invD:
  assumes "fs_inv k s f"
  shows "keyed f" "finite (dom (entries f))" "unat s \<le> k" "attrs f i = Some a \<Longrightarrow> i \<le> s"
    "entries f pn = Some e \<Longrightarrow> entry_ok f pn e"
    "pb_of f i = Some t \<Longrightarrow> card (links f i) \<le> unat (pb_Nlink t)"
    "pb_of f i = Some t \<Longrightarrow> unat (pb_Nlink t) \<le> k"
  using assms by (auto simp: fs_inv_def simp del: split_paired_All)

lemma entry_ino_nz: "keyed f \<Longrightarrow> entry_ok f pn e \<Longrightarrow> en_Ino e \<noteq> 0"
  by (auto simp: entry_ok_def pb_of_def keyed_def bind_eq_Some_conv)

lemma fs_inv_no_entry:
  assumes "fs_inv k s f" and "\<not> (case entries f pn of None \<Rightarrow> False | Some e \<Rightarrow> en_Ino e \<noteq> 0)"
  shows "entries f pn = None"
proof (cases "entries f pn")
  case (Some e)
  then have "en_Ino e \<noteq> 0" using entry_ino_nz fs_invD(1,5) [OF assms(1)] by blast
  with assms(2) Some show ?thesis by simp
qed

lemma fs_inv_mono: "fs_inv k s f \<Longrightarrow> k \<le> k' \<Longrightarrow> fs_inv k' s f"
  by (fastforce simp: fs_inv_def)

lemma pb_of_some: "keyed f \<Longrightarrow> attrs f i = Some a \<Longrightarrow> \<exists>p. pb_of f i = Some p \<and> at_pb a = Some p \<and> pb_Inode p = i \<and> i \<noteq> 0"
  by (fastforce simp: keyed_def pb_of_def)

lemma finite_links: "finite (dom (entries f)) \<Longrightarrow> finite (links f i)"
  by (rule finite_subset [of _ "dom (entries f)"]) (auto simp: links_def)

lemma links_no_attr: "fs_inv k s f \<Longrightarrow> attrs f i = None \<Longrightarrow> links f i = {}"
  using fs_invD(5) [of k s f] by (force simp: links_def entry_ok_def pb_of_def)

lemma pb_of_attrs [simp]:
  "pb_of (f \<lparr> attrs := A(i := x) \<rparr>) j = (if j = i then Option.bind x at_pb else pb_of (f \<lparr> attrs := A \<rparr>) j)"
  "pb_of (f \<lparr> attrs := attrs f \<rparr>) = pb_of f"
  "pb_of (f \<lparr> entries := E, attrs := A \<rparr>) = pb_of (f \<lparr> attrs := A \<rparr>)"
  "pb_of (f \<lparr> attrs := A, entries := E \<rparr>) = pb_of (f \<lparr> attrs := A \<rparr>)"
  "pb_of (f \<lparr> entries := E \<rparr>) = pb_of f"
  by (auto simp: pb_of_def fun_eq_iff)

lemma links_attrs [simp]: "links (f \<lparr> attrs := a \<rparr>) = links f"
  by (simp add: links_def fun_eq_iff)

section \<open>Steps that keep the invariant\<close>

text \<open>One attribute changes, keeping its number and type and enough links.\<close>

lemma fs_inv_attr:
  assumes "fs_inv k s f" and "pb_of f i = Some p" and "at_pb a = Some q" and "pb_Inode q = pb_Inode p"
    and "Attr_IsDir q = Attr_IsDir p" and "card (links f i) \<le> unat (pb_Nlink q)"
    and "unat (pb_Nlink q) \<le> k'" and "k \<le> k'"
  shows "fs_inv k' s (f \<lparr> attrs := (attrs f)(i \<mapsto> a) \<rparr>)"
proof -
  from assms(2) obtain b where b: "attrs f i = Some b" "at_pb b = Some p" by (auto simp: pb_of_def bind_eq_Some_conv)
  with assms(1) have i: "pb_Inode p = i" "i \<noteq> 0" "i \<le> s" by (force simp: fs_inv_def keyed_def)+
  have "entry_ok (f \<lparr> attrs := (attrs f)(i \<mapsto> a) \<rparr>) pn e" if "entries f pn = Some e" for pn e
    using fs_invD(5) [OF assms(1) that] assms(2,3,5) by (auto simp: entry_ok_def)
  with assms i b show ?thesis
    by (fastforce simp: fs_inv_def keyed_def simp del: split_paired_All)
qed

text \<open>A new inode takes the next number of the sequence.\<close>

lemma next_ino:
  assumes "fs_inv k s f" and "k + 1 < 2 ^ 64"
  shows "unat (s + 1) = unat s + 1" and "s + 1 \<noteq> 0" and "s < s + 1" and "attrs f (s + 1) = None"
proof -
  have "unat s + 1 < 2 ^ 64" using fs_invD(3) [OF assms(1)] assms(2) by simp
  then show u: "unat (s + 1) = unat s + 1" by (simp add: unat_word_ariths)
  then show "s + 1 \<noteq> 0" by (metis unat_0 add_is_0 one_neq_zero)
  from u show lt: "s < s + 1" by (simp add: word_less_nat_alt)
  then show "attrs f (s + 1) = None" using fs_invD(4) [OF assms(1)] by (metis leD not_None_eq)
qed

lemma fs_inv_new:
  assumes "fs_inv k s f" and "k + 1 < 2 ^ 64" and "at_pb a = Some p" and "pb_Inode p = s + 1"
    and "unat (pb_Nlink p) \<le> k + 1"
  shows "fs_inv (k + 1) (s + 1) (f \<lparr> attrs := (attrs f)(s + 1 \<mapsto> a) \<rparr>)"
proof -
  note n = next_ino [OF assms(1,2)]
  have "entry_ok (f \<lparr> attrs := (attrs f)(s + 1 \<mapsto> a) \<rparr>) pn e" if "entries f pn = Some e" for pn e
    using fs_invD(5) [OF assms(1) that] n(4) by (auto simp: entry_ok_def pb_of_def)
  moreover have "i \<le> s + 1" if "attrs f i = Some b" for i b
    using fs_invD(4) [OF assms(1) that] n(3) by (meson less_imp_le order_trans)
  ultimately show ?thesis
    using assms n links_no_attr [OF assms(1) n(4)] fs_invD [OF assms(1)]
    by (auto simp: fs_inv_def keyed_def le_SucI simp del: split_paired_All)
qed

text \<open>A new entry for an inode that has a link to spare.\<close>

lemma fs_inv_entry:
  assumes "fs_inv k s f" and "entries f pn = None" and "entry_ok f pn e"
    and "pb_of f (en_Ino e) = Some t" and "card (links f (en_Ino e)) < unat (pb_Nlink t)"
  shows "fs_inv k s (f \<lparr> entries := (entries f)(pn \<mapsto> e) \<rparr>)"
proof -
  have l: "links (f \<lparr> entries := (entries f)(pn \<mapsto> e) \<rparr>) i =
      (if i = en_Ino e then insert pn (links f i) else links f i)" for i
    using assms(2) by (auto simp: links_def)
  have "pn \<notin> links f (en_Ino e)" using assms(2) by (simp add: links_def)
  then have c: "card (insert pn (links f (en_Ino e))) \<le> unat (pb_Nlink t)"
    using assms(5) finite_links [OF fs_invD(2) [OF assms(1)]] by simp
  have "entry_ok (f \<lparr> entries := (entries f)(pn \<mapsto> e) \<rparr>) qn d" if "entry_ok f qn d" for qn d
    using that by (simp add: entry_ok_def)
  with assms c show ?thesis
    by (auto simp: fs_inv_def keyed_def l simp del: split_paired_All)
qed

text \<open>An entry goes, and so may the attribute of an inode without entries that is no directory.\<close>

lemma fs_inv_unlink:
  assumes "fs_inv k s f"
  shows "fs_inv k s (f \<lparr> entries := (entries f)(pn := None) \<rparr>)"
proof -
  have "card (links (f \<lparr> entries := (entries f)(pn := None) \<rparr>) i) \<le> card (links f i)" for i
    using finite_links [OF fs_invD(2) [OF assms]] by (intro card_mono) (auto simp: links_def split: if_splits)
  then have "card (links (f \<lparr> entries := (entries f)(pn := None) \<rparr>) i) \<le> unat (pb_Nlink t)"
    if "pb_of f i = Some t" for i t
    using fs_invD(6) [OF assms that] le_trans by blast
  moreover have "entry_ok (f \<lparr> entries := (entries f)(pn := None) \<rparr>) qn d" if "entry_ok f qn d" for qn d
    using that by (simp add: entry_ok_def)
  ultimately show ?thesis using assms
    by (auto simp: fs_inv_def keyed_def simp del: split_paired_All)
qed

lemma fs_inv_drop:
  assumes "fs_inv k s f" and "links f i = {}" and "pb_of f i = Some p" and "\<not> Attr_IsDir p"
  shows "fs_inv k s (f \<lparr> attrs := (attrs f)(i := None) \<rparr>)"
proof -
  have "entry_ok (f \<lparr> attrs := (attrs f)(i := None) \<rparr>) pn e" if e: "entries f pn = Some e" for pn e
  proof -
    have "pn \<in> links f (en_Ino e)" using e by (simp add: links_def)
    then have "en_Ino e \<noteq> i" using assms(2) by auto
    with fs_invD(5) [OF assms(1) e] assms(3,4) show ?thesis by (auto simp: entry_ok_def)
  qed
  with assms(1) show ?thesis by (auto simp: fs_inv_def keyed_def simp del: split_paired_All)
qed


section \<open>The operations\<close>

lemma unat_Suc32: "unat (w :: u32) + 1 < 2 ^ 32 \<Longrightarrow> unat (w + 1) = unat w + 1"
  by (simp add: unat_word_ariths)

lemma unat_pred32: "(w :: u32) > 1 \<Longrightarrow> unat (w - 1) = unat w - 1"
  by (metis less_nat_zero_code unat_0 unat_minus_one word_less_nat_alt)

lemma create_inv:
  assumes inv: "fs_inv k s f" and k: "k < 2 ^ 32 - 2" "2 \<le> k"
    and c: "create_fs L now parent name req (s + 1) f = Inr (p, f')"
  shows "fs_inv (k + 1) (s + 1) f'"
proof -
  define q where "q = (\<lambda>p0 :: pb_attr. p0 \<lparr> pb_Inode := s + 1 \<rparr>)"
  from c obtain pA pp a0 p0 where
    pA: "attrs f parent = Some pA" "at_pb pA = Some pp" "Attr_IsDir pp" and
    old: "\<not> (case entries f (parent, name) of None \<Rightarrow> False | Some e \<Rightarrow> en_Ino e \<noteq> 0)" and
    a0: "at_pb a0 = Some p0" and
    p: "p = new_attr now (q p0)" and
    f': "f' = f \<lparr> entries := (entries f)((parent, name) \<mapsto>
              \<lparr> en_ParentIno = parent, en_Name = name, en_Ino = s + 1, en_Mode = pb_Mode p \<rparr>),
            attrs := (attrs f)(parent \<mapsto> pA \<lparr> at_pb := Some (new_parent now (q p0) pp) \<rparr>,
              s + 1 \<mapsto> a0 \<lparr> at_ParentIno := parent, at_Name := name, at_pb := Some p \<rparr>) \<rparr>"
    by (auto simp: create_fs_def bindR_def derefR_def Let_def q_def split: option.splits if_splits)
  note n = next_ino [OF inv]
  have ne: "parent \<noteq> s + 1" and s1: "attrs f (s + 1) = None" using n(4) k pA by auto
  have none: "entries f (parent, name) = None" by (rule fs_inv_no_entry [OF inv old])
  define g where "g = f \<lparr> attrs := (attrs f)(s + 1 \<mapsto> a0 \<lparr> at_ParentIno := parent, at_Name := name, at_pb := Some p \<rparr>) \<rparr>"
  have "fs_inv (k + 1) (s + 1) g"
    unfolding g_def by (rule fs_inv_new [OF inv]) (use k in \<open>auto simp: p q_def\<close>)
  moreover have pp: "pb_of g parent = Some pp" using pA ne by (simp add: g_def pb_of_def)
  moreover have "unat (pb_Nlink pp) \<le> k" "card (links g parent) \<le> unat (pb_Nlink pp)"
    using fs_invD(6,7) [OF inv, of parent pp] pA by (simp_all add: pb_of_def g_def)
  ultimately have h: "fs_inv (k + 1) (s + 1) (g \<lparr> attrs := (attrs g)(parent \<mapsto> pA \<lparr> at_pb := Some (new_parent now (q p0) pp) \<rparr>) \<rparr>)"
    (is "fs_inv _ _ ?h")
    by (elim fs_inv_attr [of "k + 1", where q = "new_parent now (q p0) pp"]) (use k in \<open>auto simp: Attr_IsDir_def unat_Suc32\<close>)
  have "links ?h (s + 1) = {}" using links_no_attr [OF inv s1] by (simp add: g_def)
  then have "fs_inv (k + 1) (s + 1) (?h \<lparr> entries := (entries ?h)((parent, name) \<mapsto>
      \<lparr> en_ParentIno = parent, en_Name = name, en_Ino = s + 1, en_Mode = pb_Mode p \<rparr>) \<rparr>)"
    using none ne pA
    by (intro fs_inv_entry [OF h, where t = p])
      (auto simp: g_def p q_def entry_ok_def Attr_IsDir_def Entry_IsDir_def)
  moreover have "f' = ?h \<lparr> entries := (entries ?h)((parent, name) \<mapsto>
      \<lparr> en_ParentIno = parent, en_Name = name, en_Ino = s + 1, en_Mode = pb_Mode p \<rparr>) \<rparr>"
    using ne by (simp add: f' g_def fun_upd_twist)
  ultimately show ?thesis by simp
qed


lemma link_inv:
  assumes inv: "fs_inv k s f" and k: "k < 2 ^ 32 - 2"
    and c: "link_fs now ino parent name f = Inr (p, f')"
  shows "fs_inv (k + 1) s f'"
proof -
  from c obtain pA pp tA tp where
    pA: "attrs f parent = Some pA" "at_pb pA = Some pp" "Attr_IsDir pp" and
    tA: "attrs f ino = Some tA" "at_pb tA = Some tp" "\<not> Attr_IsDir tp" and
    old: "\<not> (case entries f (parent, name) of None \<Rightarrow> False | Some e \<Rightarrow> en_Ino e \<noteq> 0)" and
    p: "p = touch_c now (tp \<lparr> pb_Nlink := pb_Nlink tp + 1 \<rparr>)" and
    f': "f' = f \<lparr> attrs := (attrs f)(parent \<mapsto> pA \<lparr> at_pb := Some (touch_mc now pp) \<rparr>, ino \<mapsto> tA \<lparr> at_pb := Some p \<rparr>),
            entries := (entries f)((parent, name) \<mapsto>
              \<lparr> en_ParentIno = parent, en_Name = name, en_Ino = ino, en_Mode = pb_Mode tp \<rparr>) \<rparr>"
    by (auto simp: link_fs_def bindR_def derefR_def Let_def split: option.splits if_splits)
  have ne: "parent \<noteq> ino" using pA tA by auto
  have none: "entries f (parent, name) = None" by (rule fs_inv_no_entry [OF inv old])
  have pb: "pb_of f parent = Some pp" "pb_of f ino = Some tp" using pA tA by (simp_all add: pb_of_def)
  define g where "g = f \<lparr> attrs := (attrs f)(parent \<mapsto> pA \<lparr> at_pb := Some (touch_mc now pp) \<rparr>) \<rparr>"
  have g: "fs_inv (k + 1) s g" unfolding g_def
    by (rule fs_inv_attr [OF inv pb(1), where q = "touch_mc now pp"]) (use fs_invD(6,7) [OF inv pb(1)] in \<open>auto simp: Attr_IsDir_def\<close>)
  have nl: "unat (pb_Nlink tp + 1) = unat (pb_Nlink tp) + 1"
    using fs_invD(7) [OF inv pb(2)] k by (intro unat_Suc32) simp
  define h where "h = g \<lparr> attrs := (attrs g)(ino \<mapsto> tA \<lparr> at_pb := Some p \<rparr>) \<rparr>"
  have "pb_of g ino = Some tp" using pb(2) ne by (simp add: g_def)
  then have h: "fs_inv (k + 1) s h" unfolding h_def
    by (rule fs_inv_attr [OF g, where q = p]) (use fs_invD(6,7) [OF inv pb(2)] nl in \<open>auto simp: p Attr_IsDir_def g_def\<close>)
  have "fs_inv (k + 1) s (h \<lparr> entries := (entries h)((parent, name) \<mapsto>
      \<lparr> en_ParentIno = parent, en_Name = name, en_Ino = ino, en_Mode = pb_Mode tp \<rparr>) \<rparr>)"
    using none ne pA fs_invD(6) [OF inv pb(2)] nl
    by (intro fs_inv_entry [OF h, where t = p])
      (auto simp: g_def h_def p entry_ok_def Attr_IsDir_def Entry_IsDir_def)
  moreover have "f' = h \<lparr> entries := (entries h)((parent, name) \<mapsto>
      \<lparr> en_ParentIno = parent, en_Name = name, en_Ino = ino, en_Mode = pb_Mode tp \<rparr>) \<rparr>"
    by (simp add: f' g_def h_def)
  ultimately show ?thesis by simp
qed

lemma delete_inv:
  assumes inv: "fs_inv k s f" and e: "entries f (parent, name) = Some e" "\<not> Entry_IsDir e"
    and c: "delete_fs now parent name e f = Inr f'"
  shows "fs_inv k s f'"
proof -
  from c obtain pA pp tA tp where
    pA: "attrs f parent = Some pA" "at_pb pA = Some pp" and
    tA: "attrs f (en_Ino e) = Some tA" "at_pb tA = Some tp" and
    f': "f' = f \<lparr> entries := (entries f)((parent, name) := None),
           attrs := (attrs f)(en_Ino e := (if pb_Nlink tp > 1
                then Some (tA \<lparr> at_pb := Some (touch_c now (tp \<lparr> pb_Nlink := pb_Nlink tp - 1 \<rparr>)) \<rparr>) else None),
              parent \<mapsto> pA \<lparr> at_pb := Some ((touch_mc now pp) \<lparr> pb_Epoch := pb_Epoch pp + 1 \<rparr>) \<rparr>) \<rparr>"
    by (auto simp: delete_fs_def bindR_def derefR_def Let_def split: option.splits)
  have pb: "pb_of f parent = Some pp" "pb_of f (en_Ino e) = Some tp" using pA tA by (simp_all add: pb_of_def)
  with fs_invD(5) [OF inv e(1)] e(2) have ty: "Attr_IsDir pp" "\<not> Attr_IsDir tp" by (auto simp: entry_ok_def)
  then have ne: "parent \<noteq> en_Ino e" using pA tA by auto
  define g where "g = f \<lparr> entries := (entries f)((parent, name) := None) \<rparr>"
  have g: "fs_inv k s g" unfolding g_def by (rule fs_inv_unlink [OF inv])
  have l: "links g (en_Ino e) = links f (en_Ino e) - {(parent, name)}"
    by (auto simp: g_def links_def split: if_splits)
  have "(parent, name) \<in> links f (en_Ino e)" using e by (simp add: links_def)
  then have cl: "card (links g (en_Ino e)) = card (links f (en_Ino e)) - 1" "card (links f (en_Ino e)) \<le> unat (pb_Nlink tp)"
    using l fs_invD(6) [OF inv pb(2)] by (simp_all add: card_Diff_singleton)
  define h where "h = g \<lparr> attrs := (attrs g)(en_Ino e := (if pb_Nlink tp > 1
      then Some (tA \<lparr> at_pb := Some (touch_c now (tp \<lparr> pb_Nlink := pb_Nlink tp - 1 \<rparr>)) \<rparr>) else None)) \<rparr>"
  have h: "fs_inv k s h"
  proof (cases "pb_Nlink tp > 1")
    case True
    then have "fs_inv k s (g \<lparr> attrs := (attrs g)(en_Ino e \<mapsto>
        tA \<lparr> at_pb := Some (touch_c now (tp \<lparr> pb_Nlink := pb_Nlink tp - 1 \<rparr>)) \<rparr>) \<rparr>)"
      using cl fs_invD(7) [OF inv pb(2)] pb(2) ty
      by (intro fs_inv_attr [OF g, where p = tp and q = "touch_c now (tp \<lparr> pb_Nlink := pb_Nlink tp - 1 \<rparr>)"]) (auto simp: g_def Attr_IsDir_def unat_pred32)
    with True show ?thesis by (simp add: h_def)
  next
    case False
    then have "card (links g (en_Ino e)) = 0" using cl by (simp add: word_less_nat_alt)
    then have "links g (en_Ino e) = {}" using finite_links [OF fs_invD(2) [OF g]] by simp
    with False fs_inv_drop [OF g _ _ ty(2)] pb(2) show ?thesis by (simp add: h_def g_def)
  qed
  have "pb_of h parent = Some pp" using pb(1) ne by (simp add: h_def g_def)
  then have "fs_inv k s (h \<lparr> attrs := (attrs h)(parent \<mapsto>
      pA \<lparr> at_pb := Some ((touch_mc now pp) \<lparr> pb_Epoch := pb_Epoch pp + 1 \<rparr>) \<rparr>) \<rparr>)"
    using fs_invD(6,7) [OF h]
    by (intro fs_inv_attr [OF h, where q = "(touch_mc now pp) \<lparr> pb_Epoch := pb_Epoch pp + 1 \<rparr>"]) (auto simp: Attr_IsDir_def)
  moreover have "f' = h \<lparr> attrs := (attrs h)(parent \<mapsto>
      pA \<lparr> at_pb := Some ((touch_mc now pp) \<lparr> pb_Epoch := pb_Epoch pp + 1 \<rparr>) \<rparr>) \<rparr>"
    by (simp add: f' h_def g_def)
  ultimately show ?thesis by simp
qed

lemma update_inv:
  assumes inv: "fs_inv k s f" and c: "update_fs os ctx now ino req vset f = Inr (q, f')"
    and dir: "\<And>p. pb_of f ino = Some p \<Longrightarrow> Attr_IsDir q = Attr_IsDir p"
  shows "fs_inv k s f'"
proof -
  from c obtain a p where a: "attrs f ino = Some a" "at_pb a = Some p" "upd_all os ctx vset now req p = Inr q"
    and f': "f' = f \<lparr> attrs := (attrs f)(ino \<mapsto> a \<lparr> at_pb := Some q \<rparr>) \<rparr>"
    by (auto simp: update_fs_def bindR_def derefR_def split: option.splits sum.splits)
  have p: "pb_of f ino = Some p" using a by (simp add: pb_of_def)
  show ?thesis unfolding f'
    by (rule fs_inv_attr [OF inv p, where q = q]) (use upd_all_node [OF a(3)] fs_invD(6,7) [OF inv p] dir [OF p] in auto)
qed


section \<open>Updates that keep the type\<close>

lemma mode_IsDir_bit: "mode_IsDir m \<longleftrightarrow> bit m 31"
  using and_exp_eq_0_iff_not_bit [of m 31] by (simp add: mode_IsDir_def ModeDir_def)

lemma mode_IsDir_mask [simp]: "\<not> mode_IsDir (m AND 0x3FF)" "\<not> mode_IsDir (m AND 0x7FF)"
  by (simp_all add: mode_IsDir_bit bit_simps)

text \<open>
  \<open>keeps d g q r\<close>: a stage ends with an attribute of type \<open>d\<close>; when the mode is to be set (\<open>g\<close>), the
  mode of the request has type \<open>d\<close> too and satisfies \<open>q\<close>, that is, no group bit will be cut off.
\<close>

definition keeps :: "bool \<Rightarrow> bool \<Rightarrow> (u32 \<Rightarrow> bool) \<Rightarrow> error + upd \<Rightarrow> bool" where
  "keeps d g q r \<longleftrightarrow> (\<forall>u. r = Inr u \<longrightarrow> Attr_IsDir (u_attr u) = d
     \<and> (g \<longrightarrow> (\<exists>m. u_mode u = Some m \<and> mode_IsDir m = d \<and> q m)))"

lemma keeps_intros:
  "keeps d g q (Inl e)"
  "(\<And>x. r = Inr x \<Longrightarrow> keeps d g q (f x)) \<Longrightarrow> keeps d g q (bindR r f)"
  "(c \<Longrightarrow> keeps d g q y) \<Longrightarrow> (\<not> c \<Longrightarrow> keeps d g q z) \<Longrightarrow> keeps d g q (if c then y else z)"
  by (auto simp: keeps_def bindR_def split: sum.splits)

lemma keeps_Inr:
  "keeps d g q (Inr u) \<Longrightarrow> pb_Mode (u_attr v) = pb_Mode (u_attr u) \<Longrightarrow> u_mode v = u_mode u \<Longrightarrow>
   keeps d g q (Inr v)"
  by (simp add: keeps_def Attr_IsDir_def)

lemma keeps_stage:
  assumes "keeps d g q (Inr u)"
  shows "keeps d g q (upd_gid ctx vset req u)" "keeps d g q (upd_uid ctx vset req u)"
    "keeps d g q (upd_atime ctx vset now req u)" "keeps d g q (upd_mtime ctx vset now req u)"
  unfolding upd_gid_def upd_uid_def upd_atime_def upd_mtime_def Let_def
  by (intro keeps_intros keeps_Inr [OF assms]; simp)+

lemma keeps_flag_size:
  assumes "keeps d g q (Inr u)"
  shows "keeps d g q (upd_flag_size vset now req u)"
proof -
  define v where "v = (if has vset SetAttrFlag then
      bindR (derefR (reqf req md_Flags)) (\<lambda>f. Inr (u \<lparr> u_attr := (u_attr u) \<lparr> pb_Flags := f \<rparr>, u_changed := True \<rparr>))
    else Inr u)"
  have "keeps d g q v" unfolding v_def by (intro keeps_intros keeps_Inr [OF assms]; simp)
  then show ?thesis unfolding upd_flag_size_def v_def [symmetric]
    by (intro keeps_intros) (auto simp: keeps_def Attr_IsDir_def)
qed

lemma keeps_mode:
  assumes "keeps d (has vset SetAttrMode) q (Inr u)" and "\<And>m. q m \<Longrightarrow> cx_Uid ctx = 0 \<or> m AND 0x400 = 0"
  shows "keeps d False q' (upd_mode ctx vset u)"
proof (cases "has vset SetAttrMode")
  case True
  with assms(1) obtain m where m: "u_mode u = Some m" "mode_IsDir m = d" "q m" "Attr_IsDir (u_attr u) = d"
    by (auto simp: keeps_def)
  have e: "(if cx_Uid ctx \<noteq> 0 \<and> m AND 0x400 \<noteq> 0 \<and> cx_Gid ctx \<noteq> pb_Gid (u_attr u) then m AND 0xBFF else m) = m"
    using assms(2) [OF m(3)] by auto
  show ?thesis
    unfolding upd_mode_def m derefR_def bindR_def Let_def option.case sum.case e
    by (intro keeps_intros) (simp_all add: keeps_def m Attr_IsDir_def [of "pb_Mode_update _ _"])
next
  case False
  with assms(1) show ?thesis by (simp add: upd_mode_def keeps_def)
qed

lemma clearSUGID_type:
  assumes "clearSUGID os ctx cur mode = Inr (cur', mode')" and "os \<noteq> Darwin"
  shows "cur' = cur \<and> mode' = mode \<or> \<not> Attr_IsDir cur \<and> \<not> Attr_IsDir cur'
    \<and> (\<exists>m. mode = Some m \<and> (mode' = Some (m AND 0x3FF) \<or> mode' = Some (m AND 0x7FF)))"
  using assms by (cases os; cases mode)
    (simp_all add: clearSUGID_def Let_def Attr_IsDir_def split: if_splits, auto)

lemma keeps_sugid:
  assumes "os \<noteq> Darwin" and "keeps d g q (Inr u)" and "\<And>m. q m \<Longrightarrow> q (m AND 0x3FF) \<and> q (m AND 0x7FF)"
  shows "keeps d g q (upd_sugid os ctx vset u)"
proof -
  have or: "mode OR (mode AND 0xC00) = mode" for mode :: u32 by (simp add: bit_eq_iff bit_simps)
  define u1 where "u1 = (if has vset (SetAttrUID OR SetAttrGID) \<and> has vset SetAttrMode
      then u \<lparr> u_attr := (u_attr u) \<lparr> pb_Mode := pb_Mode (u_attr u) OR (pb_Mode (u_attr u) AND 0xC00) \<rparr>,
               u_changed := True \<rparr>
      else u)"
  have k: "keeps d g q (Inr u1)" unfolding u1_def by (rule keeps_Inr [OF assms(2)]) (simp_all add: or)
  have "keeps d g q (Inr \<lparr> u_attr = cur, u_mode = m, u_changed = True \<rparr>)"
    if "clearSUGID os ctx (u_attr u1) (u_mode u1) = Inr (cur, m)" for cur m
    using clearSUGID_type [OF that assms(1)] k assms(3) by (auto simp: keeps_def)
  then show ?thesis
    unfolding upd_sugid_def u1_def [symmetric] Let_def by (intro keeps_intros k) auto
qed

lemma upd_all_type:
  assumes upd: "upd_all os ctx vset now req p = Inr q" and "os \<noteq> Darwin"
    and "has vset SetAttrMode \<longrightarrow> (\<exists>m. reqf req md_Mode = Some m \<and> mode_IsDir m = Attr_IsDir p
      \<and> (cx_Uid ctx = 0 \<or> m AND 0x400 = 0))"
  shows "Attr_IsDir q = Attr_IsDir p"
proof -
  define d where "d = Attr_IsDir p"
  define c where "c = (\<lambda>m :: u32. cx_Uid ctx = 0 \<or> m AND 0x400 = 0)"
  have mask: "c m \<Longrightarrow> c (m AND 0x3FF) \<and> c (m AND 0x7FF)" for m
    by (auto simp: c_def and.assoc and.left_commute)
  from upd obtain u1 u2 u3 u4 u5 u6 u7 where st:
    "upd_sugid os ctx vset \<lparr> u_attr = p, u_mode = reqf req md_Mode, u_changed = False \<rparr> = Inr u1"
    "upd_gid ctx vset req u1 = Inr u2" "upd_uid ctx vset req u2 = Inr u3" "upd_mode ctx vset u3 = Inr u4"
    "upd_atime ctx vset now req u4 = Inr u5" "upd_mtime ctx vset now req u5 = Inr u6"
    "upd_flag_size vset now req u6 = Inr u7"
    "q = (if u_changed u7 then (touch_c now (u_attr u7)) \<lparr> pb_Epoch := pb_Epoch (touch_c now (u_attr u7)) + 1 \<rparr>
          else touch_c now (u_attr u7))"
    by (rule upd_all_stages)
  have "keeps d (has vset SetAttrMode) c (Inr \<lparr> u_attr = p, u_mode = reqf req md_Mode, u_changed = False \<rparr>)"
    using assms(3) by (auto simp: keeps_def d_def c_def)
  from keeps_sugid [OF assms(2) this mask, of ctx vset] st(1)
  have "keeps d (has vset SetAttrMode) c (Inr u1)" by simp
  from keeps_stage(1) [OF this, of ctx vset req] st(2) have "keeps d (has vset SetAttrMode) c (Inr u2)" by simp
  from keeps_stage(2) [OF this, of ctx vset req] st(3) have "keeps d (has vset SetAttrMode) c (Inr u3)" by simp
  from keeps_mode [OF this, of ctx c] st(4) have "keeps d False c (Inr u4)" by (simp add: c_def)
  from keeps_stage(3) [OF this, of ctx vset now req] st(5) have "keeps d False c (Inr u5)" by simp
  from keeps_stage(4) [OF this, of ctx vset now req] st(6) have "keeps d False c (Inr u6)" by simp
  from keeps_flag_size [OF this, of vset now req] st(7) have "Attr_IsDir (u_attr u7) = d" by (simp add: keeps_def)
  with st(8) show ?thesis by (simp add: d_def Attr_IsDir_def)
qed

end
