(* ===== verification/Badger_Store.thy ===== *)
theory Badger_Store
  imports Store_Spec
begin

text \<open>
  \<^verbatim>\<open>src/pkg/store/store_badger.go\<close>, \<^verbatim>\<open>txn_badger.go\<close> and, by embedding, \<^verbatim>\<open>store_mem.go\<close>
  and \<^verbatim>\<open>txn_mem.go\<close>. The database itself (\<^verbatim>\<open>github.com/dgraph-io/badger\<close>) is a parameter, a record
  of its functions; the locale \<open>badger_db\<close> states what its documentation promises for a database
  that meets no I/O error and no size limit. The result is that \<^verbatim>\<open>BadgerStore\<close> meets the contract
  \<open>kv_refines\<close>.
\<close>

section \<open>The database as a parameter\<close>

text \<open>
  \<open>'d\<close> is a database, \<open>'x\<close> a transaction, \<open>'q\<close> a sequence. Update transactions run their callback
  and commit; \<^verbatim>\<open>View\<close> hands on the pairs that its callback collected. An iterator gives the items
  of a transaction in key order, and \<open>bd_Item\<close> is the access to one of them.
\<close>

record ('d, 'x, 'q) badger =
  bd_NewTransaction :: "'d \<Rightarrow> 'x"
  bd_Get :: "string \<Rightarrow> 'x \<Rightarrow> (error + blob) \<times> 'x"
  bd_Set :: "string \<Rightarrow> blob \<Rightarrow> 'x \<Rightarrow> error option \<times> 'x"
  bd_Delete :: "string \<Rightarrow> 'x \<Rightarrow> error option \<times> 'x"
  bd_NewIterator :: "'x \<Rightarrow> kv"
  bd_Item :: "string \<Rightarrow> 'x \<Rightarrow> 'x"
  bd_Commit :: "'x \<Rightarrow> 'd \<Rightarrow> error option \<times> 'd"
  bd_Update :: "('x \<Rightarrow> error option \<times> 'x) \<Rightarrow> 'd \<Rightarrow> error option \<times> 'd"
  bd_View :: "('x \<Rightarrow> (error + kv) \<times> 'x) \<Rightarrow> 'd \<Rightarrow> error + kv"
  bd_GetSequence :: "string \<Rightarrow> u64 \<Rightarrow> 'd \<Rightarrow> (error + 'q) \<times> 'd"
  bd_Next :: "'q \<Rightarrow> 'd \<Rightarrow> (error + u64) \<times> 'q \<times> 'd"
  bd_Release :: "'q \<Rightarrow> 'd \<Rightarrow> error option \<times> 'd"

section \<open>BadgerStore\<close>

text \<open>The store's database and the transaction that \<^verbatim>\<open>BadgerTxn.Begin\<close> opened for the context.\<close>

record ('d, 'x) BadgerStore =
  DB :: 'd
  txn :: "'x option"

definition txnUpdateWrapper ::
    "('d, 'x, 'q) badger \<Rightarrow> ctx \<Rightarrow> ('x \<Rightarrow> error option \<times> 'x) \<Rightarrow> (unit, ('d, 'x) BadgerStore) gom" where
  "txnUpdateWrapper B c cb s = (
     if \<not> c then (case bd_Update B cb (DB s) of
         (None, d) \<Rightarrow> (Inr (), s \<lparr> DB := d \<rparr>)
       | (Some e, d) \<Rightarrow> (Inl e, s \<lparr> DB := d \<rparr>))
     else (case txn s of None \<Rightarrow> (Inl Panic, s) | Some x \<Rightarrow> (case cb x of
         (None, x') \<Rightarrow> (Inr (), s \<lparr> txn := Some x' \<rparr>)
       | (Some e, x') \<Rightarrow> (Inl e, s \<lparr> txn := Some x' \<rparr>))))"

definition txnViewWrapper ::
    "('d, 'x, 'q) badger \<Rightarrow> ctx \<Rightarrow> ('x \<Rightarrow> (error + kv) \<times> 'x) \<Rightarrow> (kv, ('d, 'x) BadgerStore) gom" where
  "txnViewWrapper B c cb s = (
     if \<not> c then (bd_View B cb (DB s), s)
     else (case txn s of None \<Rightarrow> (Inl Panic, s)
       | Some x \<Rightarrow> (case cb x of (r, x') \<Rightarrow> (r, s \<lparr> txn := Some x' \<rparr>))))"

text \<open>\<^verbatim>\<open>if errors.Is(err, badger.ErrKeyNotFound) { return ErrNotFound }\<close>.\<close>

definition key_not_found :: "('a, 's) gom \<Rightarrow> ('a, 's) gom" where
  "key_not_found m = tryE m (\<lambda>r. case r of
     Inl e \<Rightarrow> throwE (if errors_Is e BadgerErrKeyNotFound then ErrNotFound else e)
   | Inr v \<Rightarrow> returnE v)"

definition badger_Get :: "('d, 'x, 'q) badger \<Rightarrow> ctx \<Rightarrow> string \<Rightarrow> (blob, ('d, 'x) BadgerStore) gom" where
  "badger_Get B c k = (
     let key = (if k \<noteq> ''/'' then trim_slash k else k);
         cb = (\<lambda>x. case bd_Get B key x of (Inl e, x') \<Rightarrow> (Inl e, x') | (Inr v, x') \<Rightarrow> (Inr [(key, v)], x'))
     in bindE (key_not_found (txnViewWrapper B c cb)) (\<lambda>valCopy. returnE (snd (hd valCopy))))"

text \<open>The body of an iteration: every item it visits is accessed, the chosen ones are collected.\<close>

fun iter_items :: "('d, 'x, 'q) badger \<Rightarrow> (string \<Rightarrow> bool) \<Rightarrow> kv \<Rightarrow> 'x \<Rightarrow> kv \<times> 'x" where
  "iter_items B keep [] x = ([], x)"
| "iter_items B keep ((k, v) # r) x =
     (case iter_items B keep r (bd_Item B k x) of (out, x') \<Rightarrow>
        (if keep k then (k, v) # out else out, x'))"

definition badger_Scan ::
    "('d, 'x, 'q) badger \<Rightarrow> ctx \<Rightarrow> string \<Rightarrow> string \<Rightarrow> string \<Rightarrow> (Entry_KV list, ('d, 'x) BadgerStore) gom" where
  "badger_Scan B c pre lo hi = (
     let cb = (\<lambda>x. let its = takeWhile (\<lambda>(k, _). prefix pre k) (dropWhile (\<lambda>(k, _). k < lo) (bd_NewIterator B x));
                       upto = takeWhile (\<lambda>(k, _). \<not> (hi \<noteq> [] \<and> hi < k)) its;
                       visited = take (Suc (length upto)) its
                   in (case iter_items B (\<lambda>_. True) visited x of (_, x') \<Rightarrow> (Inr upto, x')))
     in bindE (key_not_found (txnViewWrapper B c cb)) (\<lambda>ret. returnE (map to_entry ret)))"

definition doGetValuesByPrefix ::
    "('d, 'x, 'q) badger \<Rightarrow> ctx \<Rightarrow> string \<Rightarrow> bool \<Rightarrow> (kv, ('d, 'x) BadgerStore) gom" where
  "doGetValuesByPrefix B c k ignoreExact = (
     let key = (if k \<noteq> ''/'' then trim_slash k else k);
         pre = (if key \<noteq> ''/'' then key @ ''/'' else key);
         keep = (\<lambda>itemKey. \<not> (ignoreExact \<and> itemKey = key)
                           \<and> \<not> (key = ''/'' \<and> count_list itemKey CHR ''/'' > 1));
         cb = (\<lambda>x. case iter_items B keep (takeWhile (\<lambda>(a, _). prefix pre a)
                          (dropWhile (\<lambda>(a, _). a < pre) (bd_NewIterator B x))) x of
                     (out, x') \<Rightarrow> (Inr out, x'))
     in key_not_found (txnViewWrapper B c cb))"

definition badger_GetByBucket :: "('d, 'x, 'q) badger \<Rightarrow> ctx \<Rightarrow> string \<Rightarrow> (kv, ('d, 'x) BadgerStore) gom" where
  "badger_GetByBucket B c k = doGetValuesByPrefix B c k True"

definition badger_Delete :: "('d, 'x, 'q) badger \<Rightarrow> ctx \<Rightarrow> string \<Rightarrow> (unit, ('d, 'x) BadgerStore) gom" where
  "badger_Delete B c k = key_not_found (txnUpdateWrapper B c (bd_Delete B k))"

definition badger_Save :: "('d, 'x, 'q) badger \<Rightarrow> ctx \<Rightarrow> string \<Rightarrow> blob \<Rightarrow> (unit, ('d, 'x) BadgerStore) gom" where
  "badger_Save B c k v = txnUpdateWrapper B c (bd_Set B k v)"

definition badger_SaveInBucket ::
    "('d, 'x, 'q) badger \<Rightarrow> ctx \<Rightarrow> string \<Rightarrow> string \<Rightarrow> blob \<Rightarrow> (unit, ('d, 'x) BadgerStore) gom" where
  "badger_SaveInBucket B c bucket k v = badger_Save B c (bucket @ ''/'' @ k) v"

definition badger_GetInBucket ::
    "('d, 'x, 'q) badger \<Rightarrow> ctx \<Rightarrow> string \<Rightarrow> string \<Rightarrow> (blob, ('d, 'x) BadgerStore) gom" where
  "badger_GetInBucket B c bucket k = badger_Get B c (bucket @ ''/'' @ k)"

definition badger_DeleteInBucket ::
    "('d, 'x, 'q) badger \<Rightarrow> ctx \<Rightarrow> string \<Rightarrow> string \<Rightarrow> (unit, ('d, 'x) BadgerStore) gom" where
  "badger_DeleteInBucket B c bucket k = badger_Delete B c (bucket @ ''/'' @ k)"

text \<open>A loop of deletions that stops at the first error.\<close>

fun delete_keys :: "('d, 'x, 'q) badger \<Rightarrow> string list \<Rightarrow> 'x \<Rightarrow> error option \<times> 'x" where
  "delete_keys B [] x = (None, x)"
| "delete_keys B (k # ks) x = (case bd_Delete B k (bd_Item B k x) of
     (Some e, x') \<Rightarrow> (Some e, x') | (None, x') \<Rightarrow> delete_keys B ks x')"

definition badger_DeleteByBucket :: "('d, 'x, 'q) badger \<Rightarrow> ctx \<Rightarrow> string \<Rightarrow> (unit, ('d, 'x) BadgerStore) gom" where
  "badger_DeleteByBucket B c p = (
     let pre = (if \<not> suffix ''/'' p then p @ ''/'' else p);
         cb = (\<lambda>x. delete_keys B (map fst (takeWhile (\<lambda>(a, _). prefix pre a)
                     (dropWhile (\<lambda>(a, _). a < pre) (bd_NewIterator B x)))) x)
     in txnUpdateWrapper B c cb)"

definition badger_Cleanup :: "('d, 'x, 'q) badger \<Rightarrow> (unit, ('d, 'x) BadgerStore) gom" where
  "badger_Cleanup B = txnUpdateWrapper B False (\<lambda>x. delete_keys B (map fst (bd_NewIterator B x)) x)"

text \<open>\<^verbatim>\<open>Incr\<close> works on the database, not on the transaction; \<^verbatim>\<open>defer seq.Release()\<close> drops its error.\<close>

definition badger_Incr :: "('d, 'x, 'q) badger \<Rightarrow> string \<Rightarrow> u64 \<Rightarrow> (u64, ('d, 'x) BadgerStore) gom" where
  "badger_Incr B k count s = (case bd_GetSequence B k count (DB s) of
     (Inl e, d) \<Rightarrow> (Inl e, s \<lparr> DB := d \<rparr>)
   | (Inr q, d) \<Rightarrow> (case bd_Next B q d of (r, q', d') \<Rightarrow>
       (case r of Inl e \<Rightarrow> (Inl e, s \<lparr> DB := snd (bd_Release B q' d') \<rparr>)
        | Inr num \<Rightarrow> (Inr (num + 1), s \<lparr> DB := snd (bd_Release B q' d') \<rparr>))))"

fun set_entries :: "('d, 'x, 'q) badger \<Rightarrow> bool \<Rightarrow> Entry_KV list \<Rightarrow> 'x \<Rightarrow> error option \<times> 'x" where
  "set_entries B ign [] x = (None, x)"
| "set_entries B ign (e # es) x = (case bd_Set B (Key e) (Val e) x of (r, x') \<Rightarrow>
     if ign \<and> r \<noteq> None then set_entries B ign es x'
     else if r \<noteq> None then (r, x') else set_entries B ign es x')"

definition badger_BatchSave :: "('d, 'x, 'q) badger \<Rightarrow> ctx \<Rightarrow> bool \<Rightarrow> Entry_KV list \<Rightarrow> (unit, ('d, 'x) BadgerStore) gom" where
  "badger_BatchSave B c ign es = txnUpdateWrapper B c (set_entries B ign es)"

fun batch_delete :: "('d, 'x, 'q) badger \<Rightarrow> bool \<Rightarrow> string list \<Rightarrow> 'x \<Rightarrow> error option \<times> 'x" where
  "batch_delete B ign [] x = (None, x)"
| "batch_delete B ign (k # ks) x = (case bd_Delete B k x of (r, x') \<Rightarrow>
     if ign \<and> r \<noteq> None then batch_delete B ign ks x'
     else if r \<noteq> None then (r, x') else batch_delete B ign ks x')"

text \<open>Only a missing key is reported; every other error of the loop or the commit is dropped.\<close>

definition badger_BatchDeleteByKey ::
    "('d, 'x, 'q) badger \<Rightarrow> ctx \<Rightarrow> bool \<Rightarrow> string list \<Rightarrow> (unit, ('d, 'x) BadgerStore) gom" where
  "badger_BatchDeleteByKey B c ign ks =
     tryE (txnUpdateWrapper B c (batch_delete B ign ks)) (\<lambda>r. case r of
       Inl e \<Rightarrow> if errors_Is e BadgerErrKeyNotFound then throwE ErrNotFound else returnE ()
     | Inr _ \<Rightarrow> returnE ())"

definition BadgerTxn_Begin :: "('d, 'x, 'q) badger \<Rightarrow> (unit, ('d, 'x) BadgerStore) gom" where
  "BadgerTxn_Begin B s = (Inr (), s \<lparr> txn := Some (bd_NewTransaction B (DB s)) \<rparr>)"

text \<open>After \<^verbatim>\<open>Commit\<close> or \<^verbatim>\<open>Discard\<close> the transaction is finished; \<open>txn\<close> forgets it.\<close>

definition BadgerTxn_Commit :: "('d, 'x, 'q) badger \<Rightarrow> (unit, ('d, 'x) BadgerStore) gom" where
  "BadgerTxn_Commit B s = (case txn s of None \<Rightarrow> (Inl Panic, s) | Some x \<Rightarrow>
     (case bd_Commit B x (DB s) of
        (None, d) \<Rightarrow> (Inr (), s \<lparr> DB := d, txn := None \<rparr>)
      | (Some e, d) \<Rightarrow> (Inl e, s \<lparr> DB := d, txn := None \<rparr>)))"

definition BadgerTxn_Rollback :: "(unit, ('d, 'x) BadgerStore) gom" where
  "BadgerTxn_Rollback s = (case txn s of None \<Rightarrow> (Inl Panic, s)
     | Some x \<Rightarrow> (Inr (), s \<lparr> txn := None \<rparr>))"

definition BadgerStore_ops :: "('d, 'x, 'q) badger \<Rightarrow> ('d, 'x) BadgerStore Store" where
  "BadgerStore_ops B = \<lparr>
     Save = badger_Save B, Get = badger_Get B, Scan = badger_Scan B, Delete = badger_Delete B,
     SaveInBucket = badger_SaveInBucket B, GetInBucket = badger_GetInBucket B,
     DeleteInBucket = badger_DeleteInBucket B, GetByBucket = badger_GetByBucket B,
     DeleteByBucket = badger_DeleteByBucket B, Incr = (\<lambda>c. badger_Incr B),
     BatchSave = badger_BatchSave B, BatchDeleteByKey = badger_BatchDeleteByKey B,
     NewTransaction = returnE (), Begin = BadgerTxn_Begin B, Commit = BadgerTxn_Commit B,
     Rollback = BadgerTxn_Rollback \<rparr>"

section \<open>What the database promises\<close>

text \<open>
  \<open>content\<close> is the committed content, \<open>seqn\<close> the next number of a sequence; of a transaction,
  \<open>snap\<close> is the content when it began, \<open>writes\<close> its own changes and \<open>reads\<close> the keys it read.
  \<open>fresh d x k\<close> says that no transaction wrote \<open>k\<close> since \<open>x\<close> began; a transaction whose reads are
  fresh commits. A sequence keeps its number under its own key.
\<close>

definition tview :: "('x \<Rightarrow> string \<rightharpoonup> blob) \<Rightarrow> ('x \<Rightarrow> string \<rightharpoonup> blob option) \<Rightarrow> 'x \<Rightarrow> string \<rightharpoonup> blob" where
  "tview snap writes x k = (case writes x k of None \<Rightarrow> snap x k | Some v \<Rightarrow> v)"

definition same_txn ::
    "('x \<Rightarrow> string \<rightharpoonup> blob) \<Rightarrow> ('x \<Rightarrow> string \<rightharpoonup> blob option) \<Rightarrow> ('x \<Rightarrow> string set) \<Rightarrow>
     ('d \<Rightarrow> 'x \<Rightarrow> string \<Rightarrow> bool) \<Rightarrow> string set \<Rightarrow> 'x \<Rightarrow> 'x \<Rightarrow> bool" where
  "same_txn snap writes reads fresh ks x y \<longleftrightarrow>
     snap y = snap x \<and> writes y = writes x \<and> reads y \<subseteq> ks \<union> reads x
     \<and> (\<forall>d k. fresh d x k \<longrightarrow> fresh d y k)"

definition db_key :: "string \<Rightarrow> bool" where
  "db_key k \<longleftrightarrow> k \<noteq> [] \<and> \<not> prefix ''!badger!'' k"

locale badger_db =
  fixes B :: "('d, 'x, 'q) badger"
    and content :: "'d \<Rightarrow> string \<rightharpoonup> blob" and seqn :: "'d \<Rightarrow> string \<Rightarrow> u64"
    and snap :: "'x \<Rightarrow> string \<rightharpoonup> blob" and writes :: "'x \<Rightarrow> string \<rightharpoonup> blob option"
    and reads :: "'x \<Rightarrow> string set" and fresh :: "'d \<Rightarrow> 'x \<Rightarrow> string \<Rightarrow> bool"
  assumes new_txn: "snap (bd_NewTransaction B d) = content d"
      "writes (bd_NewTransaction B d) = Map.empty" "reads (bd_NewTransaction B d) = {}"
      "fresh d (bd_NewTransaction B d) k"
    and get_txn: "db_key k \<Longrightarrow> \<exists>y. bd_Get B k x =
        (case tview snap writes x k of None \<Rightarrow> Inl BadgerErrKeyNotFound | Some v \<Rightarrow> Inr v, y)
        \<and> same_txn snap writes reads fresh {k} x y"
    and set_txn: "db_key k \<Longrightarrow> \<exists>y. bd_Set B k v x = (None, y) \<and> snap y = snap x
        \<and> writes y = (writes x)(k \<mapsto> Some v) \<and> reads y = reads x \<and> (\<forall>d j. fresh d x j \<longrightarrow> fresh d y j)"
    and delete_txn: "db_key k \<Longrightarrow> \<exists>y. bd_Delete B k x = (None, y) \<and> snap y = snap x
        \<and> writes y = (writes x)(k \<mapsto> None) \<and> reads y = reads x \<and> (\<forall>d j. fresh d x j \<longrightarrow> fresh d y j)"
    and iterator: "kv_ok (bd_NewIterator B x)" "map_of (bd_NewIterator B x) = tview snap writes x"
    and item: "same_txn snap writes reads fresh {k} x (bd_Item B k x)"
    and commit: "(\<forall>k \<in> reads x. fresh d x k) \<Longrightarrow> \<exists>e. bd_Commit B x d = (None, e)
        \<and> (\<forall>k. content e k = (case writes x k of None \<Rightarrow> content d k | Some v \<Rightarrow> v))
        \<and> (\<forall>k. writes x k = None \<longrightarrow> seqn e k = seqn d k)"
    and update: "bd_Update B cb d = (case cb (bd_NewTransaction B d) of
        (Some e, x) \<Rightarrow> (Some e, d) | (None, x) \<Rightarrow> bd_Commit B x d)"
    and view: "bd_View B vb d = fst (vb (bd_NewTransaction B d))"
    and sequence: "n \<noteq> 0 \<Longrightarrow> db_key k \<Longrightarrow> \<exists>q q' d1 d2.
        bd_GetSequence B k n d = (Inr q, d1) \<and> bd_Next B q d1 = (Inr (seqn d k), q', d2)
        \<and> seqn (snd (bd_Release B q' d2)) = (seqn d)(k := seqn d k + 1)
        \<and> (\<forall>j. j \<noteq> k \<longrightarrow> content (snd (bd_Release B q' d2)) j = content d j)
        \<and> (\<forall>x j. j \<noteq> k \<longrightarrow> fresh d x j \<longrightarrow> fresh (snd (bd_Release B q' d2)) x j)"
    and sequence_zero: "bd_GetSequence B k 0 d = (Inl (DbErr 0), d)"


text \<open>
  The relation between a \<^verbatim>\<open>BadgerStore\<close> and the specification: equal content apart from the
  sequence key, and inside a transaction a transaction that shows the pending content, has read no
  sequence key, and whose snapshot is still current.
\<close>

definition badger_rel ::
    "('d \<Rightarrow> string \<rightharpoonup> blob) \<Rightarrow> ('d \<Rightarrow> string \<Rightarrow> u64) \<Rightarrow> ('x \<Rightarrow> string \<rightharpoonup> blob) \<Rightarrow>
     ('x \<Rightarrow> string \<rightharpoonup> blob option) \<Rightarrow> ('x \<Rightarrow> string set) \<Rightarrow> ('d \<Rightarrow> 'x \<Rightarrow> string \<Rightarrow> bool) \<Rightarrow>
     bool \<Rightarrow> ('d, 'x) BadgerStore \<Rightarrow> spec \<Rightarrow> bool" where
  "badger_rel content seqn snap writes reads fresh c s m \<longleftrightarrow>
     kv_ok (committed m) \<and> (\<forall>k. k \<noteq> InoKey \<longrightarrow> content (DB s) k = map_of (committed m) k)
     \<and> seqn (DB s) InoKey = seqs m InoKey
     \<and> (if c then (\<exists>x kv. txn s = Some x \<and> pending m = Some kv \<and> kv_ok kv
            \<and> (\<forall>k. k \<noteq> InoKey \<longrightarrow> tview snap writes x k = map_of kv k)
            \<and> (\<forall>k. k \<noteq> InoKey \<longrightarrow> snap x k = content (DB s) k)
            \<and> InoKey \<notin> reads x \<and> writes x InoKey = None
            \<and> (\<forall>k. k \<noteq> InoKey \<longrightarrow> fresh (DB s) x k))
        else txn s = None \<and> pending m = None)"

section \<open>Iterating over a prefix\<close>

lemma prefix_le: "prefix p k \<Longrightarrow> p \<le> (k :: string)"
  by (induction p arbitrary: k) (auto simp: prefix_def)

lemma prefix_convex:
  "p \<le> k \<Longrightarrow> k \<le> k' \<Longrightarrow> prefix p k' \<Longrightarrow> prefix p (k :: string)"
proof (induction p arbitrary: k k')
  case (Cons a p)
  then obtain b j where k: "k = b # j" by (cases k) auto
  from Cons.prems(3) obtain j' where k': "k' = a # j'" "prefix p j'" by (cases k') auto
  from Cons.prems k k' have "b = a" by auto
  with Cons k k' show ?case by auto
qed simp

lemma kv_ok_prefix_run:
  assumes "kv_ok xs"
  shows "takeWhile (\<lambda>(a, _). prefix p a) (dropWhile (\<lambda>(a, _). a < p) xs) =
    filter (\<lambda>(a, _). prefix p a) xs"
  using assms
proof (induction xs)
  case (Cons e r)
  obtain a b where e: "e = (a, b)" by (cases e)
  have r: "kv_ok r" and lt: "\<And>x. x \<in> set r \<Longrightarrow> a < fst x" using Cons.prems by (auto simp: e kv_ok_Cons)
  show ?case
  proof (cases "a < p")
    case True
    then have "\<not> prefix p a" using prefix_le by (metis leD)
    with True Cons.IH [OF r] show ?thesis by (simp add: e)
  next
    case False
    have tail: "dropWhile (\<lambda>(a, _). a < p) r = r"
      using lt False by (cases r) (force simp: not_less split: prod.splits)+
    show ?thesis
    proof (cases "prefix p a")
      case True
      with False tail Cons.IH [OF r] show ?thesis by (simp add: e)
    next
      case no: False
      have "filter (\<lambda>(a, _). prefix p a) r = []"
        using lt no False prefix_convex [of p a] by (force simp: filter_empty_conv not_less)
      with no False show ?thesis by (simp add: e)
    qed
  qed
qed simp

lemma filter_pair_conj:
  "filter (\<lambda>(x, _). Q x) (filter (\<lambda>(x, _). P x) xs) = filter (\<lambda>(x, _). P x \<and> Q x) xs"
  by (induction xs) auto

section \<open>BadgerStore meets the contract\<close>

lemma same_txn_trans:
  "same_txn snap writes reads fresh a x y \<Longrightarrow> same_txn snap writes reads fresh b y z \<Longrightarrow>
   same_txn snap writes reads fresh (a \<union> b) x z"
  by (auto simp: same_txn_def)

lemma same_txn_tview: "same_txn snap writes reads fresh a x y \<Longrightarrow> tview snap writes y = tview snap writes x"
  by (rule ext) (simp add: same_txn_def tview_def split: option.split)

lemma plain_db_key: "plain_key k \<Longrightarrow> db_key k \<and> k \<noteq> InoKey"
  by (simp add: plain_key_def db_key_def)

context badger_db
begin

abbreviation Rel where
  "Rel \<equiv> badger_rel content seqn snap writes reads fresh"

abbreviation view_of where
  "view_of \<equiv> tview snap writes"

lemma iter_items_spec:
  "fst (iter_items B keep xs x) = filter (\<lambda>(k, _). keep k) xs
   \<and> same_txn snap writes reads fresh (fst ` set xs) x (snd (iter_items B keep xs x))"
proof (induction xs arbitrary: x)
  case (Cons e r)
  obtain k v where e: "e = (k, v)" by (cases e)
  obtain out y where i: "iter_items B keep r (bd_Item B k x) = (out, y)" by fastforce
  from Cons [of "bd_Item B k x"] i have "out = filter (\<lambda>(k, _). keep k) r"
    "same_txn snap writes reads fresh (fst ` set r) (bd_Item B k x) y" by auto
  with same_txn_trans [OF item this(2)] show ?case by (simp add: e i)
qed (simp add: same_txn_def)

text \<open>Reading: a callback that shows a function of the content and reads only plain keys.\<close>

lemma sim_view:
  assumes "\<And>x kv. kv_ok kv \<Longrightarrow> (\<forall>k. k \<noteq> InoKey \<longrightarrow> view_of x k = map_of kv k) \<Longrightarrow>
      \<exists>y ks. vb x = (g kv, y) \<and> InoKey \<notin> ks \<and> same_txn snap writes reads fresh ks x y"
  shows "sim (Rel c) (txnViewWrapper B c vb) (spec_read c g)"
  unfolding sim_def
proof (intro allI impI)
  fix s m assume R: "Rel c s m"
  show "fst (txnViewWrapper B c vb s) = fst (spec_read c g m) \<and>
      Rel c (snd (txnViewWrapper B c vb s)) (snd (spec_read c g m))"
  proof (cases c)
    case False
    have "\<forall>k. k \<noteq> InoKey \<longrightarrow> view_of (bd_NewTransaction B (DB s)) k = map_of (committed m) k"
      using R by (simp add: badger_rel_def tview_def new_txn)
    with assms(1) [of "committed m"] R False show ?thesis
      by (fastforce simp: txnViewWrapper_def spec_read_def spec_view_def view badger_rel_def)
  next
    case True
    with R obtain x kv where x: "txn s = Some x" "pending m = Some kv" "kv_ok kv"
      "\<forall>k. k \<noteq> InoKey \<longrightarrow> view_of x k = map_of kv k"
      by (auto simp: badger_rel_def)
    from assms(1) [OF x(3,4)] obtain y ks where y: "vb x = (g kv, y)" "InoKey \<notin> ks"
      "same_txn snap writes reads fresh ks x y" by blast
    with x R True same_txn_tview [OF y(3)] show ?thesis
      by (auto simp: txnViewWrapper_def spec_read_def spec_view_def badger_rel_def same_txn_def)
  qed
qed

text \<open>Writing: a callback that changes the view as \<open>f\<close> changes the content.\<close>

definition writes_as where
  "writes_as ub f \<longleftrightarrow> (\<forall>x. \<exists>y. ub x = (None, y) \<and> snap y = snap x \<and> writes y InoKey = writes x InoKey
     \<and> reads y = reads x \<and> (\<forall>d j. fresh d x j \<longrightarrow> fresh d y j)
     \<and> (\<forall>kv. (\<forall>k. k \<noteq> InoKey \<longrightarrow> view_of x k = map_of kv k) \<longrightarrow>
              (\<forall>k. k \<noteq> InoKey \<longrightarrow> view_of y k = map_of (f kv) k)))
     \<and> (\<forall>kv. kv_ok kv \<longrightarrow> kv_ok (f kv))"

lemma commit_view:
  assumes "\<forall>k. k \<noteq> InoKey \<longrightarrow> snap x k = content d k" and "writes x InoKey = None"
    and "\<forall>k \<in> reads x. fresh d x k"
  shows "\<exists>e. bd_Commit B x d = (None, e) \<and> (\<forall>k. k \<noteq> InoKey \<longrightarrow> content e k = view_of x k)
    \<and> seqn e InoKey = seqn d InoKey"
  using commit [OF assms(3)] assms(1,2) by (auto simp: tview_def split: option.split)

lemma sim_update:
  assumes w: "writes_as ub f"
  shows "sim (Rel c) (txnUpdateWrapper B c ub) (spec_write c f)"
  unfolding sim_def
proof (intro allI impI)
  fix s m assume R: "Rel c s m"
  show "fst (txnUpdateWrapper B c ub s) = fst (spec_write c f m) \<and>
      Rel c (snd (txnUpdateWrapper B c ub s)) (snd (spec_write c f m))"
  proof (cases c)
    case False
    let ?n = "bd_NewTransaction B (DB s)"
    have n: "\<forall>k. k \<noteq> InoKey \<longrightarrow> view_of ?n k = map_of (committed m) k"
      using R by (simp add: badger_rel_def tview_def new_txn)
    from w obtain y where y: "ub ?n = (None, y)" "snap y = content (DB s)" "writes y InoKey = None"
      "reads y = {}" "\<forall>k. k \<noteq> InoKey \<longrightarrow> view_of y k = map_of (f (committed m)) k"
      using n unfolding writes_as_def by (metis new_txn(1,2,3))
    from commit_view [of y "DB s"] y obtain e where e: "bd_Commit B y (DB s) = (None, e)"
      "\<forall>k. k \<noteq> InoKey \<longrightarrow> content e k = view_of y k" "seqn e InoKey = seqn (DB s) InoKey"
      by auto
    have "kv_ok (f (committed m))" using R w by (auto simp: badger_rel_def writes_as_def)
    with R False y e show ?thesis
      by (simp add: txnUpdateWrapper_def spec_write_def update badger_rel_def)
  next
    case True
    with R obtain x kv where x: "txn s = Some x" "pending m = Some kv" "kv_ok kv"
      "\<forall>k. k \<noteq> InoKey \<longrightarrow> view_of x k = map_of kv k"
      by (auto simp: badger_rel_def)
    from w obtain y where y: "ub x = (None, y)" "snap y = snap x" "writes y InoKey = writes x InoKey"
      "reads y = reads x" "\<forall>d j. fresh d x j \<longrightarrow> fresh d y j"
      "\<forall>k. k \<noteq> InoKey \<longrightarrow> view_of y k = map_of (f kv) k"
      using x(4) unfolding writes_as_def by metis
    have "kv_ok (f kv)" using x w by (auto simp: writes_as_def)
    with R True x y show ?thesis
      by (auto simp: txnUpdateWrapper_def spec_write_def badger_rel_def)
  qed
qed

lemma writes_asI:
  assumes "\<And>x. \<exists>y. ub x = (None, y) \<and> snap y = snap x \<and> writes y = (writes x)(k \<mapsto> v)
      \<and> reads y = reads x \<and> (\<forall>d j. fresh d x j \<longrightarrow> fresh d y j)"
    and "k \<noteq> InoKey" and "\<And>kv. map_of (f kv) = (map_of kv)(k := v)"
    and "\<And>kv. kv_ok kv \<Longrightarrow> kv_ok (f kv)"
  shows "writes_as ub f"
  unfolding writes_as_def
proof (intro conjI allI impI)
  fix x
  from assms(1) obtain y where y: "ub x = (None, y)" "snap y = snap x" "writes y = (writes x)(k \<mapsto> v)"
    "reads y = reads x" "\<forall>d j. fresh d x j \<longrightarrow> fresh d y j" by blast
  then have "view_of y = (view_of x)(k := v)" by (auto simp: tview_def fun_eq_iff split: option.split)
  with y assms(2,3) show "\<exists>y. ub x = (None, y) \<and> snap y = snap x
     \<and> writes y InoKey = writes x InoKey
     \<and> reads y = reads x \<and> (\<forall>d j. fresh d x j \<longrightarrow> fresh d y j)
     \<and> (\<forall>kv. (\<forall>k. k \<noteq> InoKey \<longrightarrow> view_of x k = map_of kv k) \<longrightarrow>
              (\<forall>k. k \<noteq> InoKey \<longrightarrow> view_of y k = map_of (f kv) k))"
    by (intro exI [of _ y]) simp
qed (rule assms(4))

lemma writes_as_set: "plain_key k \<Longrightarrow> writes_as (bd_Set B k v) (kv_ins k v)"
  using set_txn [of k v] plain_db_key [of k] by (intro writes_asI) auto

lemma writes_as_delete: "plain_key k \<Longrightarrow> writes_as (bd_Delete B k) (kv_del k)"
  using delete_txn [of k] plain_db_key [of k] by (intro writes_asI) auto

lemma writes_as_comp:
  assumes "writes_as ub f" and "writes_as vb g"
  shows "writes_as (\<lambda>x. vb (snd (ub x))) (g \<circ> f)"
  unfolding writes_as_def
proof (intro conjI allI)
  fix x
  from assms(1) obtain y where y: "ub x = (None, y)" "snap y = snap x" "writes y InoKey = writes x InoKey"
    "reads y = reads x" "\<forall>d j. fresh d x j \<longrightarrow> fresh d y j"
    "\<forall>kv. (\<forall>k. k \<noteq> InoKey \<longrightarrow> view_of x k = map_of kv k) \<longrightarrow>
          (\<forall>k. k \<noteq> InoKey \<longrightarrow> view_of y k = map_of (f kv) k)" unfolding writes_as_def by blast
  from assms(2) obtain z where z: "vb y = (None, z)" "snap z = snap y" "writes z InoKey = writes y InoKey"
    "reads z = reads y" "\<forall>d j. fresh d y j \<longrightarrow> fresh d z j"
    "\<forall>kv. (\<forall>k. k \<noteq> InoKey \<longrightarrow> view_of y k = map_of kv k) \<longrightarrow>
          (\<forall>k. k \<noteq> InoKey \<longrightarrow> view_of z k = map_of (g kv) k)" unfolding writes_as_def by blast
  from y z show "\<exists>z. vb (snd (ub x)) = (None, z) \<and> snap z = snap x \<and> writes z InoKey = writes x InoKey
     \<and> reads z = reads x \<and> (\<forall>d j. fresh d x j \<longrightarrow> fresh d z j)
     \<and> (\<forall>kv. (\<forall>k. k \<noteq> InoKey \<longrightarrow> view_of x k = map_of kv k) \<longrightarrow>
              (\<forall>k. k \<noteq> InoKey \<longrightarrow> view_of z k = map_of ((g \<circ> f) kv) k))"
    by (intro exI [of _ z]) simp
next
  fix kv show "kv_ok kv \<longrightarrow> kv_ok ((g \<circ> f) kv)" using assms by (simp add: writes_as_def)
qed

lemma writes_as_None: "writes_as ub f \<Longrightarrow> ub x = (None, snd (ub x))"
  unfolding writes_as_def by (metis snd_conv)

lemma writes_as_set_entries:
  "list_all (\<lambda>e. plain_key (Key e)) es \<Longrightarrow>
   writes_as (set_entries B ign es) (fold (\<lambda>e. kv_ins (Key e) (Val e)) es)"
proof (induction es)
  case (Cons e es)
  then have w: "writes_as (bd_Set B (Key e) (Val e)) (kv_ins (Key e) (Val e))"
    by (simp add: writes_as_set)
  have "set_entries B ign (e # es) = (\<lambda>x. set_entries B ign es (snd (bd_Set B (Key e) (Val e) x)))"
  proof
    fix x
    obtain y where "bd_Set B (Key e) (Val e) x = (None, y)" using writes_as_None [OF w] by blast
    then show "set_entries B ign (e # es) x = (\<lambda>x. set_entries B ign es (snd (bd_Set B (Key e) (Val e) x))) x" by simp
  qed
  then show ?case using writes_as_comp [OF w Cons.IH] Cons.prems by (simp add: o_def)
qed (auto simp: writes_as_def)

lemma writes_as_batch_delete:
  "list_all plain_key ks \<Longrightarrow> writes_as (batch_delete B ign ks) (fold kv_del ks)"
proof (induction ks)
  case (Cons k ks)
  then have w: "writes_as (bd_Delete B k) (kv_del k)" by (simp add: writes_as_delete)
  have "batch_delete B ign (k # ks) = (\<lambda>x. batch_delete B ign ks (snd (bd_Delete B k x)))"
  proof
    fix x
    obtain y where "bd_Delete B k x = (None, y)" using writes_as_None [OF w] by blast
    then show "batch_delete B ign (k # ks) x = (\<lambda>x. batch_delete B ign ks (snd (bd_Delete B k x))) x" by simp
  qed
  then show ?case using writes_as_comp [OF w Cons.IH] Cons.prems by (simp add: o_def)
qed (auto simp: writes_as_def)

text \<open>The wrapper around the errors of the database does nothing on a database without errors.\<close>

lemma sim_key_not_found:
  assumes "sim Q p q" and "\<And>m. \<exists>r t. q m = (r, t) \<and> (r = Inl Panic \<or> r \<in> range Inr)"
  shows "sim Q (key_not_found p) q"
  unfolding sim_def
proof (intro allI impI)
  fix s m assume "Q s m"
  with assms(1) obtain r s' m' where "p s = (r, s')" "q m = (r, m')" "Q s' m'" by (rule simE)
  with assms(2) [of m] show "fst (key_not_found p s) = fst (q m) \<and>
      Q (snd (key_not_found p s)) (snd (q m))"
    by (auto simp: key_not_found_def run_simps)
qed

lemma spec_write_ok: "\<exists>r t. spec_write c f m = (r, t) \<and> (r = Inl Panic \<or> r \<in> range Inr)"
  by (auto simp: spec_write_def split: option.split)

lemma sim_badger_Save: "plain_key k \<Longrightarrow> sim (Rel c) (badger_Save B c k v) (spec_write c (kv_ins k v))"
  unfolding badger_Save_def by (intro sim_update writes_as_set)

lemma sim_badger_Delete: "plain_key k \<Longrightarrow> sim (Rel c) (badger_Delete B c k) (spec_write c (kv_del k))"
  unfolding badger_Delete_def by (intro sim_key_not_found sim_update writes_as_delete spec_write_ok)

lemma sim_badger_BatchSave:
  "list_all (\<lambda>e. plain_key (Key e)) es \<Longrightarrow>
   sim (Rel c) (badger_BatchSave B c ign es) (spec_write c (fold (\<lambda>e. kv_ins (Key e) (Val e)) es))"
  unfolding badger_BatchSave_def by (intro sim_update writes_as_set_entries)

lemma sim_badger_BatchDeleteByKey:
  assumes "list_all plain_key ks"
  shows "sim (Rel c) (badger_BatchDeleteByKey B c ign ks) (spec_write c (fold kv_del ks))"
  unfolding sim_def
proof (intro allI impI)
  fix s m assume "Rel c s m"
  with sim_update [OF writes_as_batch_delete [OF assms]] obtain r s' m' where
    "txnUpdateWrapper B c (batch_delete B ign ks) s = (r, s')"
    "spec_write c (fold kv_del ks) m = (r, m')" "Rel c s' m'" by (rule simE)
  with spec_write_ok [of c "fold kv_del ks" m]
  show "fst (badger_BatchDeleteByKey B c ign ks s) = fst (spec_write c (fold kv_del ks) m) \<and>
      Rel c (snd (badger_BatchDeleteByKey B c ign ks s)) (snd (spec_write c (fold kv_del ks) m))"
    by (auto simp: badger_BatchDeleteByKey_def run_simps)
qed

text \<open>Reading one key and reading a bucket.\<close>

lemma sim_badger_Get:
  assumes "plain_key (norm_key k)"
  shows "sim (Rel c) (badger_Get B c k) (spec_read c (lookup_kv k))"
proof -
  define key where "key = norm_key k"
  define vb where "vb = (\<lambda>x. case bd_Get B key x of (Inl e, x') \<Rightarrow> (Inl e, x')
    | (Inr v, x') \<Rightarrow> (Inr [(key, v)], x'))"
  define g :: "kv \<Rightarrow> error + kv" where "g = (\<lambda>kv. case map_of kv key of
    None \<Rightarrow> Inl BadgerErrKeyNotFound | Some v \<Rightarrow> Inr [(key, v)])"
  have key: "db_key key" "key \<noteq> InoKey" using assms plain_db_key by (auto simp: key_def)
  have "sim (Rel c) (txnViewWrapper B c vb) (spec_read c g)"
  proof (rule sim_view)
    fix x kv assume "kv_ok kv" and v: "\<forall>k. k \<noteq> InoKey \<longrightarrow> view_of x k = map_of kv k"
    from get_txn [OF key(1), of x] obtain y where
      "bd_Get B key x = (case view_of x key of None \<Rightarrow> Inl BadgerErrKeyNotFound | Some v \<Rightarrow> Inr v, y)"
      "same_txn snap writes reads fresh {key} x y" by blast
    then show "\<exists>y ks. vb x = (g kv, y) \<and> InoKey \<notin> ks \<and> same_txn snap writes reads fresh ks x y"
      using v key(2)
      by (intro exI [of _ y] exI [of _ "{key}"]) (auto simp: vb_def g_def split: option.split)
  qed
  moreover have "(if k \<noteq> ''/'' then trim_slash k else k) = key"
    by (simp add: key_def norm_key_def)
  then have "badger_Get B c k = bindE (key_not_found (txnViewWrapper B c vb))
      (\<lambda>valCopy. returnE (snd (hd valCopy)))"
    by (simp only: badger_Get_def vb_def Let_def)
  ultimately have s: "sim (Rel c) (txnViewWrapper B c vb) (spec_read c g)"
    and e: "badger_Get B c k = bindE (key_not_found (txnViewWrapper B c vb))
      (\<lambda>valCopy. returnE (snd (hd valCopy)))" by simp_all
  show ?thesis unfolding sim_def
  proof (intro allI impI)
    fix s m assume "Rel c s m"
    with s obtain r s' m' where "txnViewWrapper B c vb s = (r, s')" "spec_read c g m = (r, m')"
      "Rel c s' m'" by (rule simE)
    then show "fst (badger_Get B c k s) = fst (spec_read c (lookup_kv k) m) \<and>
        Rel c (snd (badger_Get B c k s)) (snd (spec_read c (lookup_kv k) m))"
      by (auto simp: e run_simps key_not_found_def spec_read_def g_def lookup_kv_def key_def
          split: option.splits)
  qed
qed

lemma no_InoKey_in_bucket: "\<not> prefix (bucket_prefix k) InoKey"
  by (auto simp: bucket_prefix_def InoKey_def prefix_Cons dest: prefix_length_le)

lemma sim_badger_GetByBucket:
  "sim (Rel c) (badger_GetByBucket B c k) (spec_read c (\<lambda>kv. Inr (bucket_kv k kv)))"
proof -
  define key where "key = norm_key k"
  define keep where "keep = (\<lambda>itemKey. \<not> (True \<and> itemKey = key)
    \<and> \<not> (key = ''/'' \<and> count_list itemKey CHR ''/'' > 1))"
  define its where "its = (\<lambda>x. takeWhile (\<lambda>(a, _). prefix (bucket_prefix k) a)
    (dropWhile (\<lambda>(a, _). a < bucket_prefix k) (bd_NewIterator B x)))"
  define vb where "vb = (\<lambda>x. case iter_items B keep (its x) x of (out, x') \<Rightarrow> (Inr out :: error + kv, x'))"
  have "sim (Rel c) (txnViewWrapper B c vb) (spec_read c (\<lambda>kv. Inr (bucket_kv k kv)))"
  proof (rule sim_view)
    fix x kv assume ok: "kv_ok kv" and v: "\<forall>k. k \<noteq> InoKey \<longrightarrow> view_of x k = map_of kv k"
    have its: "its x = filter (\<lambda>(a, _). prefix (bucket_prefix k) a) (bd_NewIterator B x)"
      by (simp add: its_def kv_ok_prefix_run iterator)
    have b: "in_bucket k a \<longleftrightarrow> prefix (bucket_prefix k) a \<and> keep a" for a
      by (auto simp: in_bucket_def keep_def key_def)
    have "filter (\<lambda>(a, _). keep a) (its x) = filter (\<lambda>(a, _). in_bucket k a) (bd_NewIterator B x)"
      by (simp only: its filter_pair_conj b)
    also have "view_of x a = map_of kv a" if "in_bucket k a" for a
      using that v no_InoKey_in_bucket [of k] unfolding in_bucket_def by metis
    then have "filter (\<lambda>(a, _). in_bucket k a) (bd_NewIterator B x) = bucket_kv k kv"
      unfolding bucket_kv_def by (intro filter_kv_eq iterator ok) (simp add: iterator(2))
    finally have "fst (iter_items B keep (its x) x) = bucket_kv k kv"
      using iter_items_spec by metis
    moreover have "InoKey \<notin> fst ` set (its x)" using no_InoKey_in_bucket by (auto simp: its)
    ultimately show "\<exists>y ks. vb x = (Inr (bucket_kv k kv), y) \<and> InoKey \<notin> ks
        \<and> same_txn snap writes reads fresh ks x y"
      using iter_items_spec [of keep "its x" x] by (auto simp: vb_def split: prod.splits)
  qed
  moreover have key': "(if k \<noteq> ''/'' then trim_slash k else k) = key"
    by (simp add: key_def norm_key_def)
  have pre: "(if key \<noteq> ''/'' then key @ ''/'' else key) = bucket_prefix k"
    by (simp add: key_def bucket_prefix_def)
  have "badger_GetByBucket B c k = key_not_found (txnViewWrapper B c vb)"
    by (simp only: badger_GetByBucket_def doGetValuesByPrefix_def Let_def key' pre vb_def its_def
        keep_def)
  ultimately show ?thesis
    by (auto intro!: sim_key_not_found simp: spec_read_def split: option.split)
qed

lemma sim_badger_Incr: "sim (Rel c) (badger_Incr B InoKey n) (spec_incr InoKey n)"
  unfolding sim_def
proof (intro allI impI)
  fix s m assume R: "Rel c s m"
  have k: "db_key InoKey" by (simp add: db_key_def InoKey_def)
  show "fst (badger_Incr B InoKey n s) = fst (spec_incr InoKey n m) \<and>
      Rel c (snd (badger_Incr B InoKey n s)) (snd (spec_incr InoKey n m))"
  proof (cases "n = 0")
    case True
    with R show ?thesis by (simp add: badger_Incr_def spec_incr_def sequence_zero)
  next
    case False
    from sequence [OF False k, of "DB s"] obtain q q' d1 d2 where
      "bd_GetSequence B InoKey n (DB s) = (Inr q, d1)"
      "bd_Next B q d1 = (Inr (seqn (DB s) InoKey), q', d2)" and
      e: "seqn (snd (bd_Release B q' d2)) = (seqn (DB s))(InoKey := seqn (DB s) InoKey + 1)"
      "\<forall>j. j \<noteq> InoKey \<longrightarrow> content (snd (bd_Release B q' d2)) j = content (DB s) j"
      "\<forall>x j. j \<noteq> InoKey \<longrightarrow> fresh (DB s) x j \<longrightarrow> fresh (snd (bd_Release B q' d2)) x j"
      by blast
    then have "badger_Incr B InoKey n s =
        (Inr (seqn (DB s) InoKey + 1), s \<lparr> DB := snd (bd_Release B q' d2) \<rparr>)"
      by (simp add: badger_Incr_def)
    with False R e show ?thesis by (auto simp: spec_incr_def badger_rel_def)
  qed
qed

lemma badger_begin:
  assumes "Rel False s m"
  shows "\<exists>t. BadgerTxn_Begin B s = (Inr (), t) \<and> Rel True t (snd (spec_begin m))"
  using assms by (auto simp: BadgerTxn_Begin_def spec_begin_def badger_rel_def new_txn tview_def)

lemma badger_commit:
  assumes "Rel True s m"
  shows "\<exists>t. BadgerTxn_Commit B s = (Inr (), t) \<and> Rel False t (snd (spec_commit m))
    \<and> fst (spec_commit m) = Inr ()"
proof -
  from assms obtain x kv where x: "txn s = Some x" "pending m = Some kv" "kv_ok kv"
    "\<forall>k. k \<noteq> InoKey \<longrightarrow> view_of x k = map_of kv k" "\<forall>k. k \<noteq> InoKey \<longrightarrow> snap x k = content (DB s) k"
    "InoKey \<notin> reads x" "writes x InoKey = None" "\<forall>k. k \<noteq> InoKey \<longrightarrow> fresh (DB s) x k"
    by (auto simp: badger_rel_def)
  then have "\<forall>k \<in> reads x. fresh (DB s) x k" by metis
  with commit_view [OF x(5,7)] obtain e where "bd_Commit B x (DB s) = (None, e)"
    "\<forall>k. k \<noteq> InoKey \<longrightarrow> content e k = view_of x k" "seqn e InoKey = seqn (DB s) InoKey" by auto
  with x assms show ?thesis
    by (auto simp: BadgerTxn_Commit_def spec_commit_def badger_rel_def)
qed

lemma badger_rollback:
  assumes "Rel True s m"
  shows "\<exists>t. BadgerTxn_Rollback s = (Inr (), t) \<and> Rel False t (snd (spec_rollback m))
    \<and> fst (spec_rollback m) = Inr ()"
  using assms by (auto simp: BadgerTxn_Rollback_def spec_rollback_def badger_rel_def)

end

sublocale badger_db \<subseteq> store: kv_refines "BadgerStore_ops B"
  "badger_rel content seqn snap writes reads fresh"
proof unfold_locales
qed (simp_all add: BadgerStore_ops_def spec_store_simps sim_badger_Save sim_badger_Get
    sim_badger_Delete sim_badger_GetByBucket sim_badger_Incr sim_badger_BatchSave
    sim_badger_BatchDeleteByKey sim_returnE badger_begin badger_commit badger_rollback)


section \<open>A database that keeps these promises\<close>

text \<open>
  An in-memory database for one client: a transaction holds a snapshot and the list of its changes,
  latest first. It shows that the promises can be kept together.
\<close>

record memdb =
  md_kv :: kv
  md_seq :: "string \<Rightarrow> u64"

record memtx =
  mx_snap :: kv
  mx_log :: "(string \<times> blob option) list"

definition log_apply :: "(string \<times> blob option) list \<Rightarrow> kv \<Rightarrow> kv" where
  "log_apply l kv = foldr (\<lambda>(k, v) m. case v of None \<Rightarrow> kv_del k m | Some b \<Rightarrow> kv_ins k b m) l kv"

definition mem_commit :: "memtx \<Rightarrow> memdb \<Rightarrow> error option \<times> memdb" where
  "mem_commit x d = (None, d \<lparr> md_kv := log_apply (mx_log x) (md_kv d) \<rparr>)"

definition mem_begin :: "memdb \<Rightarrow> memtx" where
  "mem_begin d = \<lparr> mx_snap = md_kv d, mx_log = [] \<rparr>"

definition mem_badger :: "(memdb, memtx, string) badger" where
  "mem_badger = \<lparr>
     bd_NewTransaction = mem_begin,
     bd_Get = (\<lambda>k x. (case map_of (log_apply (mx_log x) (mx_snap x)) k of
                        None \<Rightarrow> Inl BadgerErrKeyNotFound | Some v \<Rightarrow> Inr v, x)),
     bd_Set = (\<lambda>k v x. (None, x \<lparr> mx_log := (k, Some v) # mx_log x \<rparr>)),
     bd_Delete = (\<lambda>k x. (None, x \<lparr> mx_log := (k, None) # mx_log x \<rparr>)),
     bd_NewIterator = (\<lambda>x. fold (\<lambda>(k, v). kv_ins k v) (rev (log_apply (mx_log x) (mx_snap x))) []),
     bd_Item = (\<lambda>k x. x),
     bd_Commit = mem_commit,
     bd_Update = (\<lambda>cb d. case cb (mem_begin d) of (Some e, x) \<Rightarrow> (Some e, d) | (None, x) \<Rightarrow> mem_commit x d),
     bd_View = (\<lambda>vb d. fst (vb (mem_begin d))),
     bd_GetSequence = (\<lambda>k n d. if n = 0 then (Inl (DbErr 0), d) else (Inr k, d)),
     bd_Next = (\<lambda>q d. (Inr (md_seq d q), q, d \<lparr> md_seq := (md_seq d)(q := md_seq d q + 1) \<rparr>)),
     bd_Release = (\<lambda>q d. (None, d)) \<rparr>"

lemma map_of_log_apply:
  "map_of (log_apply l kv) k = (case map_of l k of None \<Rightarrow> map_of kv k | Some v \<Rightarrow> v)"
  by (induction l) (auto simp: log_apply_def split: option.splits)

lemma kv_ok_fold_ins: "kv_ok m \<Longrightarrow> kv_ok (fold (\<lambda>(k, v). kv_ins k v) xs m)"
  by (induction xs arbitrary: m) (auto split: prod.split)

lemma map_of_fold_ins: "map_of (fold (\<lambda>(k, v). kv_ins k v) (rev xs) []) = map_of xs"
  by (induction xs) (auto simp: fun_eq_iff)

interpretation mem: badger_db mem_badger "\<lambda>d. map_of (md_kv d)" md_seq "\<lambda>x. map_of (mx_snap x)"
  "\<lambda>x. map_of (mx_log x)" "\<lambda>_. {}" "\<lambda>_ _ _. True"
  by unfold_locales
    (auto simp: mem_badger_def mem_begin_def mem_commit_def tview_def same_txn_def map_of_log_apply
      map_of_fold_ins kv_ok_fold_ins fun_eq_iff split: option.split prod.split)

end
