(* ===== verification/Inode_Atomic.thy ===== *)
theory Inode_Atomic
  imports Inode_Service Badger_Store
begin

text \<open>
  Failed requests leave no trace. The contract \<open>kv_atomic\<close> is about stores whose calls may fail in any
  way: it only says which calls leave the committed content \<open>base\<close> alone. \<^verbatim>\<open>BadgerStore\<close> meets it over
  every database whose sequences keep to their own key.
\<close>

definition frame :: "('s \<Rightarrow> 'b) \<Rightarrow> ('a, 's) gom \<Rightarrow> bool" where
  "frame base p \<longleftrightarrow> (\<forall>s. base (snd (p s)) = base s)"

text \<open>\<open>undone base p\<close>: whenever \<open>p\<close> returns an error, the content is as before.\<close>

definition undone :: "('s \<Rightarrow> 'b) \<Rightarrow> ('a, 's) gom \<Rightarrow> bool" where
  "undone base p \<longleftrightarrow> (\<forall>s e t. p s = (Inl e, t) \<longrightarrow> e \<noteq> Panic \<longrightarrow> base t = base s)"

named_theorems frame_intros \<open>introduction rules for programs that leave the content alone\<close>

lemma frame_basic [frame_intros]:
  "frame base (returnE x)" "frame base (throwE e)" "frame base (liftE r)" "frame base (deref p)" "frame base (checkE o')"
  by (auto simp: frame_def run_simps deref_def checkE_def split: option.split)

lemma frame_bindE [frame_intros]:
  "frame base p \<Longrightarrow> (\<And>x. frame base (f x)) \<Longrightarrow> frame base (bindE p f)"
  by (auto simp: frame_def run_simps split: prod.split sum.split) (metis snd_conv)+

lemma frame_tryE [frame_intros]:
  "frame base p \<Longrightarrow> (\<And>x. frame base (f x)) \<Longrightarrow> frame base (tryE p f)"
  by (auto simp: frame_def run_simps split: prod.split) (metis snd_conv)+

lemma frame_mapE [frame_intros]: "(\<And>x. frame base (f x)) \<Longrightarrow> frame base (mapE f xs)"
  by (induction xs) (auto intro!: frame_intros)

lemma frame_if [frame_intros]: "(b \<Longrightarrow> frame base p) \<Longrightarrow> (\<not> b \<Longrightarrow> frame base q) \<Longrightarrow> frame base (if b then p else q)"
  by simp

lemma frame_option [frame_intros]:
  "(x = None \<Longrightarrow> frame base p) \<Longrightarrow> (\<And>y. x = Some y \<Longrightarrow> frame base (q y)) \<Longrightarrow>
   frame base (case x of None \<Rightarrow> p | Some y \<Rightarrow> q y)"
  by (simp split: option.split)

lemma frame_sum [frame_intros]:
  "(\<And>y. x = Inl y \<Longrightarrow> frame base (p y)) \<Longrightarrow> (\<And>y. x = Inr y \<Longrightarrow> frame base (q y)) \<Longrightarrow>
   frame base (case x of Inl y \<Rightarrow> p y | Inr y \<Rightarrow> q y)"
  by (simp split: sum.split)

lemma frame_prod [frame_intros]:
  "(\<And>y z. x = (y, z) \<Longrightarrow> frame base (p y z)) \<Longrightarrow> frame base (case x of (y, z) \<Rightarrow> p y z)"
  by (simp split: prod.split)

lemma frame_let [frame_intros]: "frame base (f x) \<Longrightarrow> frame base (let y = x in f y)"
  by simp

lemma frame_wrappers [frame_intros]:
  "frame base p \<Longrightarrow> frame base (orElse p f)" "frame base p \<Longrightarrow> frame base (dropErr p)"
  "frame base q \<Longrightarrow> frame base (ignoreE q)"
  unfolding orElse_def dropErr_def ignoreE_def by (intro frame_intros; assumption)+

lemma undone_frame: "frame base p \<Longrightarrow> undone base p"
  by (metis frame_def snd_conv undone_def)

lemma undone_bindE:
  "frame base p \<Longrightarrow> (\<And>x. undone base (f x)) \<Longrightarrow> undone base (bindE p f)"
  unfolding undone_def frame_def
  by (auto simp: run_simps split: prod.splits sum.splits) (metis snd_conv)+

lemma undone_then: "undone base p \<Longrightarrow> (\<And>x s. fst (f x s) \<in> range Inr \<or> fst (f x s) = Inl Panic) \<Longrightarrow> undone base (bindE p f)"
  unfolding undone_def
proof (intro allI impI)
  fix s e t
  assume p: "\<forall>s e t. p s = (Inl e, t) \<longrightarrow> e \<noteq> Panic \<longrightarrow> base t = base s"
    and f: "\<And>x s. fst (f x s) \<in> range Inr \<or> fst (f x s) = Inl Panic"
    and r: "bindE p f s = (Inl e, t)" "e \<noteq> Panic"
  obtain q u where q: "p s = (q, u)" by fastforce
  show "base t = base s"
  proof (cases q)
    case (Inr x)
    with q r f [of x u] show ?thesis by (auto simp: run_simps)
  qed (use p q r in \<open>simp add: run_simps\<close>)
qed

lemma undone_if: "(b \<Longrightarrow> undone base p) \<Longrightarrow> (\<not> b \<Longrightarrow> undone base q) \<Longrightarrow> undone base (if b then p else q)"
  by simp

section \<open>The contract\<close>

locale kv_atomic =
  fixes S :: "'s Store" and base :: "'s \<Rightarrow> 'b"
  assumes in_txn: "frame base (Save S True k v)" "frame base (Delete S True k)"
      "frame base (BatchSave S True ign es)" "frame base (BatchDeleteByKey S True ign ks)"
    and reads: "frame base (Get S c k)" "frame base (GetByBucket S c k)"
    and sequence_only: "frame base (Incr S c InoKey n)"
    and txn_only: "frame base (NewTransaction S)" "frame base (Begin S)" "frame base (Rollback S)"
begin

lemma undone_DoInTxn:
  assumes "frame base (cb True)"
  shows "undone base (DoInTxn S cb)"
  unfolding undone_def
proof (intro allI impI)
  fix s e t assume run: "DoInTxn S cb s = (Inl e, t)" and e: "e \<noteq> Panic"
  obtain r0 s0 where 0: "NewTransaction S s = (r0, s0)" by fastforce
  obtain r1 s1 where 1: "ignoreE (Begin S) s0 = (r1, s1)" by fastforce
  obtain r2 s2 where 2: "cb True s1 = (r2, s2)" by fastforce
  obtain r3 s3 where 3: "ignoreE (Rollback S) s2 = (r3, s3)" by fastforce
  obtain r4 s4 where 4: "ignoreE (Commit S) s2 = (r4, s4)" by fastforce
  have b: "base s0 = base s" "base s1 = base s0" "base s2 = base s1" "base s3 = base s2"
    using assms txn_only frame_wrappers(3) [OF txn_only(2)] frame_wrappers(3) [OF txn_only(3)] 0 1 2 3
    unfolding frame_def by (metis snd_conv)+
  have c: "r4 = Inr () \<or> r4 = Inl Panic" using 4
    by (auto simp: ignoreE_def run_simps split: prod.splits if_splits)
  show "base t = base s"
    using run e b c unfolding DoInTxn_def
    by (auto simp: run_simps 0 1 2 3 4 split: sum.splits if_splits)
qed

lemma frame_generic [frame_intros]:
  "frame base (DoSaveInKVPair S True z)" "frame base (DoDeleteByKey S True z)" "frame base (DoGetValueByKey S c z)"
  "frame base (DoGetValuesByPrefix S c z)" "frame base (DoBatchSaveStrictly S True zs)"
  "frame base (DoBatchSaveAnyStrictly S True ls)"
  unfolding DoSaveInKVPair_def DoDeleteByKey_def DoGetValueByKey_def DoGetValuesByPrefix_def
    DoBatchSaveStrictly_def DoBatchSaveAnyStrictly_def
  by (intro frame_intros in_txn reads)+

lemma frame_builders [frame_intros]:
  "frame base (GetValueByKey S c b)" "frame base (GetValuesByPrefix S c b)" "frame base (DeleteByKey S True b)"
  unfolding GetValueByKey_def GetValuesByPrefix_def DeleteByKey_def by (intro frame_intros)+

lemma frame_newInode [frame_intros]: "frame base (newInode S c srv now a pp b)"
  unfolding newInode_def newIno_def by (intro frame_intros sequence_only)

lemma CreateInode_undone: "undone base (CreateInode S L srv now p n rq)"
  unfolding CreateInode_def by (intro undone_DoInTxn frame_intros)

lemma UpdateInodeAttr_undone: "undone base (UpdateInodeAttr S L md now i rq vs)"
  unfolding UpdateInodeAttr_def by (intro undone_DoInTxn frame_intros)

lemma DeleteInode_undone: "undone base (DeleteInode S L now p n)"
  unfolding DeleteInode_def
  by (intro undone_if undone_bindE undone_DoInTxn frame_intros undone_frame)

lemma Link_undone: "undone base (Link S L now i p n)"
  unfolding Link_def
  by (intro undone_if undone_bindE undone_DoInTxn frame_intros undone_frame [OF frame_basic(2)])

lemma Rename_undone: "undone base (Rename S L md now fl ps n pd n')"
proof -
  have "undone base (DoInTxn S (\<lambda>c.
       bindE (deref (MDFromContext md)) (\<lambda>ctx.
       bindE (rename_load S L c ctx ps n pd) (\<lambda>(se, spa, dpa, sa).
       bindE (dropErr (GetValueByKey S c (newEntry (InParentNamed pd n')))) (\<lambda>de.
       bindE (rename_dst S L c ctx now fl ps pd de
                \<lparr> r_spa = spa, r_dpa = dpa, r_sa = sa, r_de = None, r_da = None, r_supdate = False, r_dupdate = False \<rparr>) (\<lambda>r0.
       bindE (liftE (rename_parents ctx now ps pd r0)) (\<lambda>r.
       bindE (rename_entries S c fl pd n' se r) (\<lambda>_.
       bindE (if pd \<noteq> ps \<and> r_supdate r
              then DoSaveInKVPair S c (Some (Attr_ser (setpb (\<lambda>p. p \<lparr> pb_Epoch := pb_Epoch p + 1 \<rparr>) (r_spa r))))
              else returnE ()) (\<lambda>_.
       rename_finish S L c pd n' r)))))))))"
    unfolding rename_load_def rename_dst_def rename_entries_def rename_finish_def
    by (intro undone_DoInTxn frame_intros)
  then show ?thesis unfolding Rename_def rename_flags_def
    by (intro undone_bindE frame_intros undone_then) (auto simp: run_simps deref_def split: option.split)
qed

end

section \<open>BadgerStore over any database\<close>

text \<open>The one thing the database must do: drawing a number changes nothing but the sequence's key.\<close>

locale badger_seq =
  fixes B :: "('d, 'x, 'q) badger" and content :: "'d \<Rightarrow> string \<rightharpoonup> blob"
  assumes get_sequence: "k \<noteq> j \<Longrightarrow> content (snd (bd_GetSequence B k n d)) j = content d j"
    and next_number: "bd_GetSequence B k n d = (Inr q, d1) \<Longrightarrow> k \<noteq> j \<Longrightarrow>
      content (snd (snd (bd_Next B q d1))) j = content d1 j"
    and release: "bd_GetSequence B k n d = (Inr q, d1) \<Longrightarrow> bd_Next B q d1 = (r, q', d2) \<Longrightarrow> k \<noteq> j \<Longrightarrow>
      content (snd (bd_Release B q' d2)) j = content d2 j"

text \<open>The committed content, apart from the sequence key.\<close>

definition user_content :: "('d \<Rightarrow> string \<rightharpoonup> blob) \<Rightarrow> ('d, 'x) BadgerStore \<Rightarrow> string \<rightharpoonup> blob" where
  "user_content content s = (content (DB s))(InoKey := None)"

context badger_seq
begin

lemma frame_update: "frame (user_content content) (txnUpdateWrapper B True cb)"
  by (auto simp: frame_def txnUpdateWrapper_def user_content_def split: option.split prod.split)

lemma frame_view: "frame (user_content content) (txnViewWrapper B c vb)"
  by (auto simp: frame_def txnViewWrapper_def user_content_def split: option.split prod.split)

lemma frame_key_not_found: "frame (user_content content) p \<Longrightarrow> frame (user_content content) (key_not_found p)"
  unfolding key_not_found_def by (intro frame_intros; assumption)

lemma frame_incr: "frame (user_content content) (badger_Incr B InoKey n)"
  unfolding frame_def
proof
  fix s :: "('d, 'x) BadgerStore"
  obtain r1 d1 where 1: "bd_GetSequence B InoKey n (DB s) = (r1, d1)" by fastforce
  show "user_content content (snd (badger_Incr B InoKey n s)) = user_content content s"
  proof (cases r1)
    case (Inl e)
    with 1 get_sequence [of InoKey _ n "DB s"] show ?thesis
      by (auto simp: badger_Incr_def user_content_def fun_eq_iff)
  next
    case (Inr q)
    obtain r2 q' d2 where 2: "bd_Next B q d1 = (r2, q', d2)" by (cases "bd_Next B q d1")
    have "content (snd (bd_Release B q' d2)) j = content (DB s) j" if "j \<noteq> InoKey" for j
      using that 1 2 Inr get_sequence [of InoKey j n "DB s"] next_number [of InoKey n "DB s" q d1 j]
        release [of InoKey n "DB s" q d1 r2 q' d2 j] by auto
    with 1 2 Inr show ?thesis
      by (cases r2) (auto simp: badger_Incr_def user_content_def fun_eq_iff)
  qed
qed

end

sublocale badger_seq \<subseteq> atomic: kv_atomic "BadgerStore_ops B" "user_content content"
proof unfold_locales
  show "frame (user_content content) (BatchDeleteByKey (BadgerStore_ops B) True ign ks)" for ign ks
    by (simp add: BadgerStore_ops_def badger_BatchDeleteByKey_def) (intro frame_intros frame_update)
  show "frame (user_content content) (Get (BadgerStore_ops B) c k)" for c k
    by (simp add: BadgerStore_ops_def badger_Get_def Let_def)
      (intro conjI impI frame_intros frame_key_not_found frame_view)
  show "frame (user_content content) (GetByBucket (BadgerStore_ops B) c k)" for c k
    by (simp add: BadgerStore_ops_def badger_GetByBucket_def doGetValuesByPrefix_def Let_def)
      (intro conjI impI frame_intros frame_key_not_found frame_view)
  show "frame (user_content content) (Delete (BadgerStore_ops B) True k)" for k
    by (simp add: BadgerStore_ops_def badger_Delete_def frame_key_not_found frame_update)
  show "frame (user_content content) (Incr (BadgerStore_ops B) c InoKey n)" for c n
    by (simp add: BadgerStore_ops_def frame_incr)
  show "frame (user_content content) (NewTransaction (BadgerStore_ops B))"
    by (simp add: BadgerStore_ops_def frame_basic)
  show "frame (user_content content) (Begin (BadgerStore_ops B))"
    "frame (user_content content) (Rollback (BadgerStore_ops B))"
    by (auto simp: BadgerStore_ops_def frame_def BadgerTxn_Begin_def BadgerTxn_Rollback_def user_content_def
        split: option.split)
qed (simp_all add: BadgerStore_ops_def badger_Save_def badger_BatchSave_def frame_update)

end
