(* ===== verification/Inode_Requests.thy ===== *)
theory Inode_Requests
  imports Inode_Inv Inode_Refine Inode_Atomic
begin

text \<open>
  Sequences of requests to the inode service: the service on \<^verbatim>\<open>BadgerStore\<close> answers like the service on
  the specification of a store, keeps the name space in order in every state it reaches, and a
  request that fails leaves no trace in the database.
\<close>

section \<open>Sequences of requests\<close>

text \<open>The calls of the service as data, and the service as a function from calls to replies.\<close>

datatype request =
    ReqCreate time Ino string "ModifyAttr option"
  | ReqLink time Ino Ino string
  | ReqDelete time Ino string
  | ReqDeleteDir time Ino string
  | ReqUpdate "(string \<times> string list) list" time Ino "ModifyAttr option" u32
  | ReqRename "(string \<times> string list) list" time u32 Ino string Ino string
  | ReqLookup Ino string
  | ReqGetAttr Ino
  | ReqList Ino bool
  | ReqIfExists Ino

datatype reply =
    Done
  | AttrReply "pb_attr option"
  | NodeReply "Ino \<times> string \<times> pb_attr option"
  | ListReply "list_item list"
  | RenameReply "pb_entry \<times> pb_entry \<times> Ino"

definition handle :: "'s Store \<Rightarrow> libs \<Rightarrow> Service \<Rightarrow> request \<Rightarrow> (reply \<times> Service, 's) gom" where
  "handle S L srv r = (case r of
     ReqCreate now parent name req \<Rightarrow>
       bindE (CreateInode S L srv now parent name req) (\<lambda>(p, srv'). returnE (AttrReply (Some p), srv'))
   | ReqLink now ino parent name \<Rightarrow>
       bindE (Link S L now ino parent name) (\<lambda>p. returnE (AttrReply (Some p), srv))
   | ReqDelete now parent name \<Rightarrow> bindE (DeleteInode S L now parent name) (\<lambda>_. returnE (Done, srv))
   | ReqDeleteDir now parent name \<Rightarrow> bindE (DeleteDirInode S L now parent name) (\<lambda>_. returnE (Done, srv))
   | ReqUpdate md now ino req vset \<Rightarrow>
       bindE (UpdateInodeAttr S L md now ino req vset) (\<lambda>p. returnE (AttrReply (Some p), srv))
   | ReqRename md now flags parentSrc oldName parentDst newName \<Rightarrow>
       bindE (Rename S L md now flags parentSrc oldName parentDst newName) (\<lambda>x. returnE (RenameReply x, srv))
   | ReqLookup parent name \<Rightarrow> bindE (Lookup S L srv parent name) (\<lambda>p. returnE (AttrReply p, srv))
   | ReqGetAttr ino \<Rightarrow> bindE (GetInodeAttr S L ino) (\<lambda>x. returnE (NodeReply x, srv))
   | ReqList ino isPlus \<Rightarrow> bindE (ListItemUnderInode S L ino isPlus) (\<lambda>x. returnE (ListReply x, srv))
   | ReqIfExists ino \<Rightarrow> bindE (IfExistsInode S L ino) (\<lambda>_. returnE (Done, srv)))"

text \<open>A panic ends the process.\<close>

fun serve :: "'s Store \<Rightarrow> libs \<Rightarrow> Service \<Rightarrow> request list \<Rightarrow> 's \<Rightarrow> (error + reply) list \<times> 's" where
  "serve S L srv [] s = ([], s)"
| "serve S L srv (r # rs) s = (case handle S L srv r s of
     (Inl e, t) \<Rightarrow> if e = Panic then ([Inl Panic], t)
                   else (case serve S L srv rs t of (ys, u) \<Rightarrow> (Inl e # ys, u))
   | (Inr (y, srv'), t) \<Rightarrow> (case serve S L srv' rs t of (ys, u) \<Rightarrow> (Inr y # ys, u)))"

text \<open>
  Requests that keep the name space in order: names without trailing separator; an update of the mode
  names the type the inode has, and comes from root or without the set-group-id bit. Removing a
  directory and renaming are left out: they lose and duplicate links.
\<close>

definition orderly :: "libs \<Rightarrow> request \<Rightarrow> spec \<Rightarrow> bool" where
  "orderly L r m = (case r of
     ReqCreate now parent name req \<Rightarrow> good_name name
   | ReqLink now ino parent name \<Rightarrow> good_name name
   | ReqDelete now parent name \<Rightarrow> good_name name
   | ReqDeleteDir now parent name \<Rightarrow> False
   | ReqRename md now flags parentSrc oldName parentDst newName \<Rightarrow> False
   | ReqUpdate md now ino req vset \<Rightarrow> GOOS L \<noteq> Darwin \<and> (\<exists>ctx. MDFromContext md = Some ctx \<and>
       (has vset SetAttrMode \<longrightarrow> (\<exists>mode. reqf req md_Mode = Some mode
          \<and> (\<forall>p. pb_of (fs_of (committed m)) ino = Some p \<longrightarrow> mode_IsDir mode = Attr_IsDir p)
          \<and> (cx_Uid ctx = 0 \<or> mode AND 0x400 = 0))))
   | _ \<Rightarrow> True)"

definition empty_store :: spec where
  "empty_store = \<lparr> committed = [], pending = None, seqs = \<lambda>_. 0 \<rparr>"

text \<open>\<open>reach L srv k m\<close>: the service \<open>srv\<close> started on an empty store and came to \<open>m\<close> in \<open>k - 2\<close> requests.\<close>

inductive reach :: "libs \<Rightarrow> Service \<Rightarrow> nat \<Rightarrow> spec \<Rightarrow> bool" for L srv where
  start: "NewService spec_store L now uid gid empty_store = (Inr srv, m) \<Longrightarrow> reach L srv 2 m"
| step: "reach L srv k m \<Longrightarrow> orderly L r m \<Longrightarrow> reach L srv (Suc k) (snd (handle spec_store L srv r m))"

definition spec_inv :: "nat \<Rightarrow> spec \<Rightarrow> bool" where
  "spec_inv k m \<longleftrightarrow> fs_inv k (seqs m InoKey) (fs_of (committed m))"

section \<open>Every request keeps the invariant\<close>

lemma spec_inv_mono: "spec_inv k m \<Longrightarrow> k \<le> k' \<Longrightarrow> spec_inv k' m"
  by (simp add: spec_inv_def fs_inv_mono)

lemma spec_inv_keyed: "spec_inv k m \<Longrightarrow> keyed (fs_of (committed m))"
  by (simp add: spec_inv_def fs_inv_def)

text \<open>A failed creation may have used up a number.\<close>

lemma fs_inv_seq:
  assumes "fs_inv k s f" and "k + 1 < 2 ^ 64"
  shows "fs_inv (k + 1) (s + 1) f"
  using assms next_ino [OF assms]
  by (auto simp: fs_inv_def le_SucI simp del: split_paired_All)

lemma create_keeps:
  assumes "spec_inv k m" and "2 \<le> k" and "k < 2 ^ 32 - 2" and "good_name name" and "inoFreeList srv = []"
  shows "spec_inv (Suc k) (snd (CreateInode spec_store L srv now parent name req m))"
proof -
  have inv: "fs_inv k (seqs m InoKey) (fs_of (committed m))" using assms(1) by (simp add: spec_inv_def)
  have s: "seqs m InoKey + 1 \<noteq> 0" using next_ino(2) [OF inv] assms(3) by simp
  note r = CreateInode_refines [OF spec_inv_keyed [OF assms(1)] assms(4,5) s, of L now parent req]
  show ?thesis
  proof (cases "create_fs L now parent name req (seqs m InoKey + 1) (fs_of (committed m))")
    case (Inl e)
    with r fs_inv_seq [OF inv] fs_inv_mono [OF inv] assms(3) show ?thesis
      by (auto simp: spec_inv_def)
  next
    case (Inr pf)
    with r create_inv [OF inv assms(3,2), of L now parent name req] show ?thesis
      by (cases pf) (auto simp: spec_inv_def)
  qed
qed

lemma link_keeps:
  assumes "spec_inv k m" and "k < 2 ^ 32 - 2" and "good_name name"
  shows "spec_inv (Suc k) (snd (Link spec_store L now ino parent name m))"
proof -
  have inv: "fs_inv k (seqs m InoKey) (fs_of (committed m))" using assms(1) by (simp add: spec_inv_def)
  note r = Link_refines [OF spec_inv_keyed [OF assms(1)] assms(3), of L now ino parent]
  show ?thesis
  proof (cases "link_fs now ino parent name (fs_of (committed m))")
    case (Inl e)
    with r fs_inv_mono [OF inv] show ?thesis by (auto simp: spec_inv_def)
  next
    case (Inr pf)
    with r link_inv [OF inv assms(2), of now ino parent name] show ?thesis
      by (cases pf) (auto simp: spec_inv_def)
  qed
qed

lemma delete_keeps:
  assumes "spec_inv k m" and "good_name name"
  shows "spec_inv (Suc k) (snd (DeleteInode spec_store L now parent name m))"
proof -
  let ?f = "fs_of (committed m)"
  have inv: "fs_inv k (seqs m InoKey) ?f" using assms(1) by (simp add: spec_inv_def)
  show ?thesis
  proof (cases "case entries ?f (parent, name) of None \<Rightarrow> True | Some e \<Rightarrow> Entry_IsDir e \<or> name = ''.'' \<or> name = ''..''")
    case True
    with DeleteInode_refused [OF assms(2) this, of L now] fs_inv_mono [OF inv] show ?thesis
      by (auto simp: spec_inv_def)
  next
    case False
    then obtain e where e: "entries ?f (parent, name) = Some e" "\<not> Entry_IsDir e" "name \<noteq> ''.''" "name \<noteq> ''..''"
      by (auto split: option.splits)
    with fs_invD(5) [OF inv e(1)] have "en_ParentIno e = parent" "attrs ?f (en_Ino e) \<noteq> None"
      by (auto simp: entry_ok_def pb_of_def bind_eq_Some_conv)
    note r = DeleteInode_refines [OF spec_inv_keyed [OF assms(1)] assms(2) e(3,4,1) this(1) e(2) this(2), of L now]
    show ?thesis
    proof (cases "delete_fs now parent name e ?f")
      case (Inl x)
      with r fs_inv_mono [OF inv] show ?thesis by (auto simp: spec_inv_def)
    next
      case (Inr f)
      with r fs_inv_mono [OF delete_inv [OF inv e(1,2) Inr]] show ?thesis by (auto simp: spec_inv_def)
    qed
  qed
qed

lemma update_keeps:
  assumes "spec_inv k m" and "orderly L (ReqUpdate md now ino req vset) m"
  shows "spec_inv (Suc k) (snd (UpdateInodeAttr spec_store L md now ino req vset m))"
proof -
  let ?f = "fs_of (committed m)"
  have inv: "fs_inv k (seqs m InoKey) ?f" using assms(1) by (simp add: spec_inv_def)
  from assms(2) obtain ctx where ctx: "MDFromContext md = Some ctx" and os: "GOOS L \<noteq> Darwin" and
    mode: "has vset SetAttrMode \<longrightarrow> (\<exists>mode. reqf req md_Mode = Some mode
      \<and> (\<forall>p. pb_of ?f ino = Some p \<longrightarrow> mode_IsDir mode = Attr_IsDir p) \<and> (cx_Uid ctx = 0 \<or> mode AND 0x400 = 0))"
    by (auto simp: orderly_def)
  note r = UpdateInodeAttr_refines [OF spec_inv_keyed [OF assms(1)] ctx, of L now ino req vset]
  show ?thesis
  proof (cases "update_fs (GOOS L) ctx now ino req vset ?f")
    case (Inl e)
    with r fs_inv_mono [OF inv] show ?thesis by (auto simp: spec_inv_def)
  next
    case (Inr qf)
    obtain q f where qf: "qf = (q, f)" by (cases qf)
    have "Attr_IsDir q = Attr_IsDir p" if p: "pb_of ?f ino = Some p" for p
    proof -
      have "upd_all (GOOS L) ctx vset now req p = Inr q"
        using Inr p by (auto simp: qf update_fs_def pb_of_def bindR_def derefR_def bind_eq_Some_conv split: sum.splits)
      with os mode p show ?thesis by (intro upd_all_type) auto
    qed
    with r Inr fs_inv_mono [OF update_inv [OF inv, of _ ctx now ino req vset q f]] show ?thesis
      by (auto simp: spec_inv_def qf)
  qed
qed

lemma start_inv:
  assumes "NewService spec_store L now uid gid empty_store = (Inr srv, m)"
  shows "spec_inv 2 m \<and> inoFreeList srv = []"
proof -
  have d: "Attr_Deserialize (attr_doc (root_attr now uid gid)) = Inr (root_attr now uid gid)"
    by (rule Attr_Deserialize_ino) (simp add: root_attr_def, simp add: zero_pb_def)
  have k: "Attr_FormatKey (root_attr now uid gid) = attr_key 1" by (simp add: root_attr_def)
  from assms have m: "m = \<lparr> committed = [(attr_key 1, attr_doc (root_attr now uid gid))], pending = None,
      seqs = (\<lambda>_. 0)(InoKey := 1) \<rparr>" and "srv = \<lparr> root = root_attr now uid gid, inoFreeList = [] \<rparr>"
    by (auto simp: NewService_def init_def run_simps empty_store_def read_attr_def spec_incr_def k)
  have a: "fs_of (committed m) = \<lparr> attrs = [1 \<mapsto> root_attr now uid gid], entries = Map.empty \<rparr>"
    using d by (auto simp: m fs_of_def fun_eq_iff abs_attrs_def abs_entries_def read_attr_def)
  have "spec_inv 2 m"
    unfolding spec_inv_def a by (simp add: fs_inv_def keyed_def root_attr_def zero_pb_def pb_of_def links_def m)
  with \<open>srv = _\<close> show ?thesis by simp
qed

lemma snd_bind_return: "snd (bindE p (\<lambda>x. returnE (f x)) m) = snd (p m)"
  by (simp add: run_simps split: prod.split sum.split)

lemma snd_bind_return_prod: "snd (bindE p (\<lambda>(x, y). returnE (f x y)) m) = snd (p m)"
  by (simp add: run_simps split: prod.split sum.split)

lemma query_state [simp]:
  "snd (IfExistsInode spec_store L i m) = m" "snd (GetInodeAttr spec_store L i m) = m"
  "snd (Lookup spec_store L srv p n m) = m"
  by (auto simp: IfExistsInode_def GetInodeAttr_def Lookup_def Let_def run_simps spec_read_def
      split: sum.split option.split prod.split)

lemma mapE_state: "(\<And>x s. x \<in> set xs \<Longrightarrow> snd (f x s) = s) \<Longrightarrow> snd (mapE f xs s) = s"
  by (induction xs arbitrary: s) (auto simp: run_simps split: prod.split sum.split, (metis snd_conv)+)

lemma list_state [simp]: "snd (ListItemUnderInode spec_store L i b m) = m"
  by (auto simp: ListItemUnderInode_def run_simps spec_read_def spec_view_def Let_def intro!: mapE_state
      split: sum.split option.split prod.split)

lemma reach_inv: "reach L srv k m \<Longrightarrow> 2 \<le> k \<and> inoFreeList srv = [] \<and> (k < 2 ^ 32 - 1 \<longrightarrow> spec_inv k m)"
proof (induction rule: reach.induct)
  case (start now uid gid m)
  then show ?case using start_inv by blast
next
  case (step k m r)
  then show ?case
    by (cases r) (auto simp: handle_def snd_bind_return snd_bind_return_prod orderly_def [of _ "ReqCreate _ _ _ _"] orderly_def [of _ "ReqLink _ _ _ _"]
        orderly_def [of _ "ReqDelete _ _ _"] orderly_def [of _ "ReqDeleteDir _ _ _"] orderly_def [of _ "ReqRename _ _ _ _ _ _ _"]
        intro: create_keeps link_keeps delete_keeps update_keeps spec_inv_mono)
qed


section \<open>The service on the program's store\<close>

context kv_refines
begin

lemma sim_handle: "sim (R False) (handle S L srv r) (handle spec_store L srv r)"
  unfolding handle_def
  by (cases r; simp only: request.case; intro sim_intros sim_CreateInode sim_Link sim_DeleteInode sim_DeleteDirInode
      sim_UpdateInodeAttr sim_Rename sim_Lookup sim_queries sim_ListItem)

lemma sim_serve:
  "R False s m \<Longrightarrow> fst (serve S L srv rs s) = fst (serve spec_store L srv rs m)
     \<and> R False (snd (serve S L srv rs s)) (snd (serve spec_store L srv rs m))"
proof (induction rs arbitrary: s m srv)
  case (Cons r rs)
  obtain q t where S: "handle S L srv r s = (q, t)" by fastforce
  obtain q' t' where M: "handle spec_store L srv r m = (q', t')" by fastforce
  from sim_handle [of L srv r] Cons.prems S M have "q' = q" "R False t t'"
    by (auto simp: sim_def) (metis fst_conv snd_conv)+
  with Cons.IH S M show ?case by (auto split: sum.split prod.split) (metis fst_conv snd_conv)+
qed simp

end

context badger_db
begin

lemmas badger_serve = store.sim_serve

end

context badger_seq
begin

lemma badger_undone:
  "undone (user_content content) (CreateInode (BadgerStore_ops B) L srv now p n rq)"
  "undone (user_content content) (Link (BadgerStore_ops B) L now i p n)"
  "undone (user_content content) (DeleteInode (BadgerStore_ops B) L now p n)"
  "undone (user_content content) (UpdateInodeAttr (BadgerStore_ops B) L md now i rq vs)"
  "undone (user_content content) (Rename (BadgerStore_ops B) L md now fl ps n pd n')"
  by (rule atomic.CreateInode_undone atomic.Link_undone atomic.DeleteInode_undone
      atomic.UpdateInodeAttr_undone atomic.Rename_undone)+

lemma frame_queries:
  "frame (user_content content) (Lookup (BadgerStore_ops B) L srv p n)"
  "frame (user_content content) (GetInodeAttr (BadgerStore_ops B) L i)"
  "frame (user_content content) (ListItemUnderInode (BadgerStore_ops B) L i b)"
  "frame (user_content content) (IfExistsInode (BadgerStore_ops B) L i)"
  unfolding Lookup_def GetInodeAttr_def ListItemUnderInode_def IfExistsInode_def
  by (intro frame_intros atomic.frame_builders)+

lemma handle_undone:
  assumes "\<And>now p n. r \<noteq> ReqDeleteDir now p n"
  shows "undone (user_content content) (handle (BadgerStore_ops B) L srv r)"
proof -
  note q = undone_frame [OF frame_queries(1)] undone_frame [OF frame_queries(2)]
    undone_frame [OF frame_queries(3)] undone_frame [OF frame_queries(4)]
  show ?thesis using assms
    by (cases r) (auto simp: handle_def run_simps split: prod.split intro!: undone_then badger_undone q)
qed

end

text \<open>Sequences of the in-memory database keep to themselves.\<close>

interpretation memseq: badger_seq mem_badger "\<lambda>d. map_of (md_kv d)"
  by unfold_locales (auto simp: mem_badger_def split: if_splits)

text \<open>
  C1. On \<^verbatim>\<open>BadgerStore\<close> over a database that keeps its promises, every sequence of requests gets the
  replies that it gets on the specification of a store, errors included, and leaves the same content.
\<close>

theorem serve_refines:
  assumes "badger_db B content seqn snap writes reads fresh"
    and "badger_rel content seqn snap writes reads fresh False s m"
  shows "fst (serve (BadgerStore_ops B) L srv rs s) = fst (serve spec_store L srv rs m)
    \<and> badger_rel content seqn snap writes reads fresh False
        (snd (serve (BadgerStore_ops B) L srv rs s)) (snd (serve spec_store L srv rs m))"
  by (rule badger_db.badger_serve [OF assms])

text \<open>Libraries and data for the witnesses: a field-wise copier and a service on an empty store.\<close>

definition sample_copy :: "ModifyAttr option \<Rightarrow> error + Attr" where
  "sample_copy m = (case m of None \<Rightarrow> Inl (ErrOther ''copy from nil'') | Some r \<Rightarrow>
     Inr \<lparr> at_pb = Some (zero_pb \<lparr>
             pb_Size := (case md_Size r of None \<Rightarrow> 0 | Some v \<Rightarrow> v), pb_Uid := (case md_Uid r of None \<Rightarrow> 0 | Some v \<Rightarrow> v),
             pb_Gid := (case md_Gid r of None \<Rightarrow> 0 | Some v \<Rightarrow> v), pb_Mode := (case md_Mode r of None \<Rightarrow> 0 | Some v \<Rightarrow> v) \<rparr>),
           at_ParentIno = 0, at_Name = [] \<rparr>)"

definition sample_libs :: libs where
  "sample_libs = \<lparr> copy_modify_to_attr = sample_copy, copy_attr_to_modify = (\<lambda>_. Inl (ErrOther ''unused'')),
     copy_attr = Inr, mapstructure_Decode = Inr, GOOS = Linux \<rparr>"

definition sample_md :: "u32 \<Rightarrow> ModifyAttr" where
  "sample_md mode = \<lparr> md_Size = None, md_Atime = None, md_Atimens = None, md_Mtime = None, md_Mtimens = None,
     md_Ctime = None, md_Ctimens = None, md_Uid = None, md_Gid = None, md_Mode = Some mode, md_Nlink = None,
     md_Rdev = None, md_LinkTarget = None, md_Flags = None \<rparr>"

definition sample_srv :: Service where
  "sample_srv = \<lparr> root = root_attr (0, 0) 0 0, inoFreeList = [] \<rparr>"

definition sample_reqs :: "request list" where
  "sample_reqs = [ReqCreate (1, 0) 1 ''d'' (Some (sample_md (ModeDir OR 0x1ED))),
     ReqCreate (2, 0) 2 ''f'' (Some (sample_md 0x1A4)), ReqLink (3, 0) 3 1 ''g'',
     ReqLookup 1 ''g'', ReqDelete (4, 0) 2 ''f'', ReqLookup 2 ''f'', ReqCreate (5, 0) 9 ''x'' None]"

definition sample_start :: spec where
  "sample_start = snd (NewService spec_store sample_libs (0, 0) 0 0 empty_store)"

definition sample_db :: "(memdb, memtx) BadgerStore" where
  "sample_db = \<lparr> DB = \<lparr> md_kv = committed sample_start, md_seq = seqs sample_start \<rparr>, txn = None \<rparr>"

lemma sample_start_eq:
  "sample_start = \<lparr> committed = [(attr_key 1, attr_doc (root_attr (0, 0) 0 0))], pending = None,
     seqs = (\<lambda>_. 0)(InoKey := 1) \<rparr>"
  "NewService spec_store sample_libs (0, 0) 0 0 empty_store = (Inr sample_srv, sample_start)"
  by (simp_all add: sample_start_def sample_srv_def NewService_def init_def run_simps empty_store_def
      read_attr_def spec_incr_def root_attr_def)

lemma sample_replies:
  "map isl (fst (serve spec_store sample_libs sample_srv sample_reqs sample_start)) =
     [False, False, False, False, False, True, True]"
  by code_simp

text \<open>Witness of C1: the sample requests on the in-memory database.\<close>

theorem serve_refines_witness:
  "fst (serve (BadgerStore_ops mem_badger) sample_libs sample_srv sample_reqs sample_db) =
     fst (serve spec_store sample_libs sample_srv sample_reqs sample_start)
   \<and> map isl (fst (serve (BadgerStore_ops mem_badger) sample_libs sample_srv sample_reqs sample_db)) =
     [False, False, False, False, False, True, True]"
proof -
  have "badger_rel (\<lambda>d. map_of (md_kv d)) md_seq (\<lambda>x. map_of (mx_snap x)) (\<lambda>x. map_of (mx_log x))
      (\<lambda>_. {}) (\<lambda>_ _ _. True) False sample_db sample_start"
    by (simp add: badger_rel_def sample_db_def sample_start_eq kv_ok_def)
  from serve_refines [OF mem.badger_db_axioms this, of sample_libs sample_srv sample_reqs] sample_replies
  show ?thesis by simp
qed

section \<open>Integrity of the name space\<close>


lemma sample_reach: "reach sample_libs sample_srv 2 sample_start"
  by (rule reach.start [OF sample_start_eq(2)])

lemma sample_reach_step:
  "reach sample_libs sample_srv 4 (snd (handle spec_store sample_libs sample_srv (ReqLink (2, 0) 2 1 ''g'')
     (snd (handle spec_store sample_libs sample_srv (ReqCreate (1, 0) 1 ''f'' (Some (sample_md 0x1A4))) sample_start))))"
  using reach.step [OF reach.step [OF sample_reach, of "ReqCreate (1, 0) 1 ''f'' (Some (sample_md 0x1A4))"],
      of "ReqLink (2, 0) 2 1 ''g''"]
  by (simp add: orderly_def good_name_def eval_nat_numeral)

definition sample_two :: spec where
  "sample_two = snd (handle spec_store sample_libs sample_srv (ReqLink (2, 0) 2 1 ''g'')
     (snd (handle spec_store sample_libs sample_srv (ReqCreate (1, 0) 1 ''f'' (Some (sample_md 0x1A4))) sample_start)))"

lemma sample_two_entry:
  "entries (fs_of (committed sample_two)) (1, ''g'') =
     Some \<lparr> en_ParentIno = 1, en_Name = ''g'', en_Ino = 2, en_Mode = 0x1A4 \<rparr>"
  "map_option pb_Nlink (pb_of (fs_of (committed sample_two)) 2) = Some 2"
  by code_simp+


text \<open>
  C3. In every such state the link count of an inode is at least the number of entries that name it, so
  deleting an entry never removes the attribute that another entry needs.
\<close>

theorem links_counted:
  assumes "reach L srv k m" and "k < 2 ^ 32 - 1" and "pb_of (fs_of (committed m)) i = Some t"
  shows "finite (links (fs_of (committed m)) i) \<and> card (links (fs_of (committed m)) i) \<le> unat (pb_Nlink t)"
proof -
  have inv: "fs_inv k (seqs m InoKey) (fs_of (committed m))"
    using reach_inv [OF assms(1)] assms(2) by (simp add: spec_inv_def)
  show ?thesis using fs_invD(6) [OF inv assms(3)] finite_links [OF fs_invD(2) [OF inv]] by simp
qed

text \<open>Witness of C3: the file with two names has two links.\<close>

theorem links_counted_witness:
  "\<exists>t. pb_of (fs_of (committed sample_two)) 2 = Some t \<and> pb_Nlink t = 2
     \<and> card (links (fs_of (committed sample_two)) 2) \<le> 2"
proof -
  from sample_two_entry(2) obtain t where t: "pb_of (fs_of (committed sample_two)) 2 = Some t" "pb_Nlink t = 2"
    by auto
  with links_counted [OF sample_reach_step, folded sample_two_def, of 2 t] show ?thesis by simp
qed

section \<open>Failed requests\<close>

text \<open>
  C4. Over any database, however its calls fail: a request that returns an error leaves the committed
  content as it was, except for the counter of inode numbers. Removing a directory is the exception,
  it uses no transaction.
\<close>

theorem failed_request_no_trace:
  assumes "badger_seq B content"
    and "\<And>now p n. r \<noteq> ReqDeleteDir now p n"
    and "handle (BadgerStore_ops B) L srv r s = (Inl e, t)" and "e \<noteq> Panic" and "k \<noteq> InoKey"
  shows "content (DB t) k = content (DB s) k"
proof -
  have "user_content content t = user_content content s"
    using badger_seq.handle_undone [OF assms(1,2)] assms(3,4) unfolding undone_def by blast
  then have "user_content content t k = user_content content s k" by simp
  with assms(5) show ?thesis by (simp add: user_content_def)
qed

lemma sample_failure:
  "fst (handle (BadgerStore_ops mem_badger) sample_libs sample_srv (ReqCreate (5, 0) 9 ''x'' None) sample_db) =
     Inl (Status NotFound)"
  by code_simp

text \<open>Witness of C4: a file cannot be created in a directory that does not exist.\<close>

theorem failed_request_no_trace_witness:
  "map_of (md_kv (DB (snd (handle (BadgerStore_ops mem_badger) sample_libs sample_srv
     (ReqCreate (5, 0) 9 ''x'' None) sample_db)))) (attr_key 1) = Some (attr_doc (root_attr (0, 0) 0 0))"
proof -
  have "attr_key 1 \<noteq> InoKey" using plain_attr_key [of 1] by (auto simp: plain_key_def)
  with failed_request_no_trace [OF memseq.badger_seq_axioms, of "ReqCreate (5, 0) 9 ''x'' None" sample_libs
      sample_srv sample_db "Status NotFound" "snd (handle (BadgerStore_ops mem_badger) sample_libs sample_srv
        (ReqCreate (5, 0) 9 ''x'' None) sample_db)" "attr_key 1"] sample_failure
  show ?thesis by (simp add: prod_eq_iff sample_db_def sample_start_eq)
qed

end
