(* ===== verification/Inode_Props.thy ===== *)
theory Inode_Props
  imports Inode_Requests
begin

text \<open>
  What single requests to the inode service do: the round trips between creating, linking, deleting and
  looking up, the error of every refused creation, who may change owners, and how renaming and removing
  directories behave.
\<close>

section \<open>Looking up\<close>

definition dotted :: "Ino \<Rightarrow> string \<Rightarrow> bool" where
  "dotted parent name \<longleftrightarrow> parent = 1 \<and> (name = ''.'' \<or> name = ''..'')"

lemma Lookup_found:
  assumes "parent \<noteq> 0" and "good_name name" and "\<not> dotted parent name"
    and "entries (fs_of (committed m)) (parent, name) = Some e"
    and "attrs (fs_of (committed m)) (en_Ino e) = Some a"
  shows "Lookup spec_store L srv parent name m = (Inr (at_pb a), m)"
  using assms
  by (auto simp: Lookup_def run_simps fs_simps dotted_def good_name_def ToPb_def spec_read_def spec_view_def)

lemma GetInodeAttr_found:
  assumes "attrs (fs_of (committed m)) i = Some a"
  shows "GetInodeAttr spec_store L i m = (Inr (at_ParentIno a, at_Name a, at_pb a), m)"
  using assms by (auto simp: GetInodeAttr_def run_simps fs_simps ToPb_def spec_read_def spec_view_def)

lemma Lookup_gone:
  assumes "parent \<noteq> 0" and "good_name name" and "\<not> dotted parent name"
    and "map_of (committed m) (entry_key parent name) = None"
  shows "Lookup spec_store L srv parent name m = (Inl (Status NotFound), m)"
proof -
  have "read_entry (committed m) parent name = Inl ErrNotFound"
    using assms by (simp add: read_entry_def lookup_kv_def good_name_def good_name_nonempty)
  with assms show ?thesis
    by (auto simp: Lookup_def run_simps dotted_def good_name_def notfound_or_def)
qed

lemma reach_facts:
  assumes "reach L srv k m" and "k < 2 ^ 32 - 2"
  shows "keyed (fs_of (committed m))" "inoFreeList srv = []" "seqs m InoKey + 1 \<noteq> 0"
    "fs_inv k (seqs m InoKey) (fs_of (committed m))" "2 \<le> k"
  using reach_inv [OF assms(1)] assms(2) next_ino(2) [of k "seqs m InoKey" "fs_of (committed m)"]
  by (auto simp: spec_inv_def intro: fs_invD(1))

section \<open>Creating\<close>

lemma create_fs_new:
  assumes "create_fs L now parent name req ino f = Inr (p, f')"
  obtains a0 p0 where "p = new_attr now (p0 \<lparr> pb_Inode := ino \<rparr>)" "attrs f parent \<noteq> None"
    "entries f' = (entries f)((parent, name) \<mapsto>
       \<lparr> en_ParentIno = parent, en_Name = name, en_Ino = ino, en_Mode = pb_Mode p \<rparr>)"
    "attrs f' ino = Some (a0 \<lparr> at_ParentIno := parent, at_Name := name, at_pb := Some p \<rparr>)"
  using assms by (auto simp: create_fs_def bindR_def derefR_def Let_def split: option.splits if_splits)

text \<open>
  C5. A created inode has the next number of the sequence, one link (a directory two), and is what looking
  up its name and reading its number give back.
\<close>

theorem create_then_lookup:
  assumes "reach L srv k m" and "k < 2 ^ 32 - 2" and "good_name name" and "\<not> dotted parent name"
    and "CreateInode spec_store L srv now parent name req m = (Inr (p, srv'), t)"
  shows "pb_Inode p = seqs m InoKey + 1 \<and> pb_Nlink p = (if Attr_IsDir p then 2 else 1)
    \<and> Lookup spec_store L srv parent name t = (Inr (Some p), t)
    \<and> GetInodeAttr spec_store L (pb_Inode p) t = (Inr (parent, name, Some p), t)"
proof -
  note r = reach_facts [OF assms(1,2)]
  from CreateInode_refines [OF r(1) assms(3) r(2,3), of L now parent req] assms(5)
  obtain f where c: "create_fs L now parent name req (seqs m InoKey + 1) (fs_of (committed m)) = Inr (p, f)"
    and f: "fs_of (committed t) = f" by (auto split: sum.splits)
  from c obtain a0 p0 where p: "p = new_attr now (p0 \<lparr> pb_Inode := seqs m InoKey + 1 \<rparr>)"
    and d: "attrs (fs_of (committed m)) parent \<noteq> None"
    and e: "entries f = (entries (fs_of (committed m)))((parent, name) \<mapsto> \<lparr> en_ParentIno = parent, en_Name = name,
      en_Ino = seqs m InoKey + 1, en_Mode = pb_Mode p \<rparr>)"
    and a: "attrs f (seqs m InoKey + 1) = Some (a0 \<lparr> at_ParentIno := parent, at_Name := name, at_pb := Some p \<rparr>)"
    by (rule create_fs_new)
  have "parent \<noteq> 0" using d r(1) by (auto simp: keyed_def)
  with e a f p assms(3,4) show ?thesis
    by (auto simp: Lookup_found GetInodeAttr_found Attr_IsDir_def)
qed

lemma sample_start_fs:
  "fs_of (committed sample_start) = \<lparr> attrs = [1 \<mapsto> root_attr (0, 0) 0 0], entries = Map.empty \<rparr>"
proof -
  have "Attr_Deserialize (attr_doc (root_attr (0, 0) 0 0)) = Inr (root_attr (0, 0) 0 0)"
    by (rule Attr_Deserialize_ino) (simp add: root_attr_def, simp add: zero_pb_def)
  then show ?thesis
    by (auto simp: sample_start_eq fs_of_def fun_eq_iff abs_attrs_def abs_entries_def read_attr_def)
qed

definition sample_create where
  "sample_create = CreateInode spec_store sample_libs sample_srv (1, 0) 1 ''f'' (Some (sample_md 0x1A4)) sample_start"

definition sample_file :: pb_attr where
  "sample_file = zero_pb \<lparr> pb_Inode := 2, pb_Nlink := 1, pb_Mode := 0x1A4, pb_Mtime := 1, pb_Ctime := 1, pb_Atime := 1 \<rparr>"

lemma sample_created: "fst sample_create = Inr (sample_file, sample_srv)"
  by code_simp

text \<open>Witness of C5: a file in the root directory.\<close>

theorem create_then_lookup_witness:
  "Lookup spec_store sample_libs sample_srv 1 ''f'' (snd sample_create) = (Inr (Some sample_file), snd sample_create)"
proof -
  have "CreateInode spec_store sample_libs sample_srv (1, 0) 1 ''f'' (Some (sample_md 0x1A4)) sample_start =
      (Inr (sample_file, sample_srv), snd sample_create)"
    using sample_created by (simp add: sample_create_def prod_eq_iff)
  from create_then_lookup [OF sample_reach _ _ _ this] show ?thesis by (simp add: good_name_def dotted_def)
qed

text \<open>Why a creation is refused, in terms of the file system.\<close>

definition create_error :: "fs \<Rightarrow> Ino \<Rightarrow> string \<Rightarrow> error option" where
  "create_error f parent name = (case pb_of f parent of
     None \<Rightarrow> Some (Status NotFound)
   | Some d \<Rightarrow> if \<not> Attr_IsDir d then Some (Errno ENOTDIR)
               else if pb_Flags d AND FlagImmutable \<noteq> 0 then Some (Errno EPERM)
               else if entries f (parent, name) \<noteq> None then Some (Errno EEXIST)
               else None)"

lemma create_fs_refused:
  assumes "fs_inv k s f" and "create_error f parent name = Some e"
  shows "create_fs L now parent name req ino f = Inl e"
proof (cases "attrs f parent")
  case None
  with assms(2) show ?thesis by (simp add: create_error_def create_fs_def pb_of_def)
next
  case (Some pA)
  with pb_of_some [OF fs_invD(1) [OF assms(1)]] obtain d where d: "pb_of f parent = Some d" "at_pb pA = Some d" by blast
  have "case entries f (parent, name) of None \<Rightarrow> False | Some e \<Rightarrow> en_Ino e \<noteq> 0" if "entries f (parent, name) \<noteq> None"
    by (rule ccontr) (use fs_inv_no_entry [OF assms(1)] that in simp)
  with assms(2) Some d show ?thesis
    by (simp add: create_error_def create_fs_def bindR_def derefR_def split: if_splits)
qed

lemma create_fs_granted:
  assumes "create_error f parent name = None" and "Option.bind (ToAttr L req) at_pb \<noteq> None"
  shows "\<exists>p f'. create_fs L now parent name req ino f = Inr (p, f')"
  using assms
  by (auto simp: create_error_def create_fs_def bindR_def derefR_def pb_of_def bind_eq_Some_conv Let_def
      split: option.splits if_splits)

text \<open>
  C9. A creation fails exactly when the parent is missing, is no directory or is immutable, or the name is
  taken, each with its error and without change to the content; otherwise, given that the libraries copy
  the request, it succeeds.
\<close>

theorem create_outcomes:
  assumes "reach L srv k m" and "k < 2 ^ 32 - 2" and "good_name name"
    and "CreateInode spec_store L srv now parent name req m = (r, t)"
  shows "case create_error (fs_of (committed m)) parent name of
      Some e \<Rightarrow> r = Inl e \<and> committed t = committed m
    | None \<Rightarrow> Option.bind (ToAttr L req) at_pb \<noteq> None \<longrightarrow> (\<exists>p. r = Inr (p, srv))"
proof -
  note i = reach_facts [OF assms(1,2)]
  note c = CreateInode_refines [OF i(1) assms(3) i(2,3), of L now parent req, unfolded assms(4)]
  show ?thesis
  proof (cases "create_error (fs_of (committed m)) parent name")
    case None
    with c create_fs_granted [OF None, of L req now "seqs m InoKey + 1"] show ?thesis by auto
  next
    case (Some e)
    with c create_fs_refused [OF i(4) Some, of L now req "seqs m InoKey + 1"] show ?thesis by auto
  qed
qed

text \<open>Witness of C9: the root directory exists and the name is free.\<close>

theorem create_outcomes_witness: "\<exists>p. fst sample_create = Inr (p, sample_srv)"
proof -
  have "create_error (fs_of (committed sample_start)) 1 ''f'' = None"
    by (simp add: create_error_def sample_start_fs pb_of_def root_attr_def zero_pb_def Attr_IsDir_def
        mode_IsDir_def ModeDir_def)
  moreover have "Option.bind (ToAttr sample_libs (Some (sample_md 0x1A4))) at_pb \<noteq> None"
    by (simp add: ToAttr_def sample_libs_def sample_copy_def)
  ultimately show ?thesis
    using create_outcomes [OF sample_reach, of "''f''" "(1, 0)" 1 "Some (sample_md 0x1A4)"
        "fst sample_create" "snd sample_create"]
    by (simp add: good_name_def sample_create_def)
qed

section \<open>Linking and deleting\<close>

lemma reach_entry:
  assumes "reach L srv k m" and "k < 2 ^ 32 - 2" and "entries (fs_of (committed m)) (q, n) = Some e"
  shows "q \<noteq> 0" "\<exists>a p. attrs (fs_of (committed m)) (en_Ino e) = Some a \<and> at_pb a = Some p \<and> pb_Inode p = en_Ino e"
  using fs_invD(1,5) [OF reach_facts(4) [OF assms(1,2)]] assms(3)
  by (fastforce simp: entry_ok_def pb_of_def keyed_def bind_eq_Some_conv)+

lemma link_fs_new:
  assumes "link_fs now ino parent name f = Inr (p, f')"
  obtains tA tp pA pp where "attrs f ino = Some tA" "at_pb tA = Some tp" "\<not> Attr_IsDir tp"
    "attrs f parent = Some pA" "at_pb pA = Some pp" "Attr_IsDir pp"
    "p = touch_c now (tp \<lparr> pb_Nlink := pb_Nlink tp + 1 \<rparr>)"
    "attrs f' ino = Some (tA \<lparr> at_pb := Some p \<rparr>)"
    "entries f' = (entries f)((parent, name) \<mapsto>
       \<lparr> en_ParentIno = parent, en_Name = name, en_Ino = ino, en_Mode = pb_Mode tp \<rparr>)"
  using assms by (auto simp: link_fs_def bindR_def derefR_def Let_def split: option.splits if_splits)

text \<open>
  C10. After a link, the new name and every old name of the inode lead to the same attribute, which has
  one link more.
\<close>

theorem link_then_lookup:
  assumes "reach L srv k m" and "k < 2 ^ 32 - 2" and "good_name name" and "\<not> dotted parent name"
    and "Link spec_store L now ino parent name m = (Inr p, t)"
  shows "Lookup spec_store L srv parent name t = (Inr (Some p), t)
    \<and> (\<exists>old. pb_of (fs_of (committed m)) ino = Some old \<and> unat (pb_Nlink p) = unat (pb_Nlink old) + 1)
    \<and> (\<forall>q n e. entries (fs_of (committed m)) (q, n) = Some e \<longrightarrow> en_Ino e = ino \<longrightarrow> good_name n \<longrightarrow>
         \<not> dotted q n \<longrightarrow> (q, n) \<noteq> (parent, name) \<longrightarrow> Lookup spec_store L srv q n t = (Inr (Some p), t))"
proof -
  note r = reach_facts [OF assms(1,2)]
  from Link_refines [OF r(1) assms(3), of L now ino parent] assms(5)
  obtain f where c: "link_fs now ino parent name (fs_of (committed m)) = Inr (p, f)" and f: "fs_of (committed t) = f"
    by (auto split: sum.splits)
  from c obtain tA tp pA e where l: "attrs (fs_of (committed m)) ino = Some tA" "at_pb tA = Some tp"
    "attrs (fs_of (committed m)) parent = Some pA"
    "p = touch_c now (tp \<lparr> pb_Nlink := pb_Nlink tp + 1 \<rparr>)" "attrs f ino = Some (tA \<lparr> at_pb := Some p \<rparr>)"
    "entries f = (entries (fs_of (committed m)))((parent, name) \<mapsto> e)" "en_Ino e = ino"
    by (elim link_fs_new) force
  have "parent \<noteq> 0" using l(3) r(1) by (auto simp: keyed_def)
  moreover have tp: "pb_of (fs_of (committed m)) ino = Some tp" using l by (simp add: pb_of_def)
  moreover have "unat (pb_Nlink p) = unat (pb_Nlink tp) + 1"
    using fs_invD(7) [OF r(4) tp] assms(2) unat_Suc32 [of "pb_Nlink tp"] l(4) by simp
  ultimately show ?thesis
    using l f assms(3,4) reach_entry(1) [OF assms(1,2)]
    by (auto simp: Lookup_found)
qed

definition sample_link where
  "sample_link = Link spec_store sample_libs (2, 0) 2 1 ''g''
     (snd (handle spec_store sample_libs sample_srv (ReqCreate (1, 0) 1 ''f'' (Some (sample_md 0x1A4))) sample_start))"

lemma sample_linked: "fst sample_link = Inr (sample_file \<lparr> pb_Nlink := 2, pb_Ctime := 2 \<rparr>)"
  by code_simp

lemma sample_reach_one:
  "reach sample_libs sample_srv 3
     (snd (handle spec_store sample_libs sample_srv (ReqCreate (1, 0) 1 ''f'' (Some (sample_md 0x1A4))) sample_start))"
  using reach.step [OF sample_reach, of "ReqCreate (1, 0) 1 ''f'' (Some (sample_md 0x1A4))"]
  by (simp add: orderly_def good_name_def eval_nat_numeral)

text \<open>Witness of C10: a second name for the file.\<close>

theorem link_then_lookup_witness:
  "Lookup spec_store sample_libs sample_srv 1 ''g'' (snd sample_link) =
     (Inr (Some (sample_file \<lparr> pb_Nlink := 2, pb_Ctime := 2 \<rparr>)), snd sample_link)"
proof -
  have "Link spec_store sample_libs (2, 0) 2 1 ''g''
     (snd (handle spec_store sample_libs sample_srv (ReqCreate (1, 0) 1 ''f'' (Some (sample_md 0x1A4))) sample_start))
     = (Inr (sample_file \<lparr> pb_Nlink := 2, pb_Ctime := 2 \<rparr>), snd sample_link)"
    using sample_linked by (simp add: sample_link_def prod_eq_iff)
  from link_then_lookup [OF sample_reach_one _ _ _ this] show ?thesis by (simp add: good_name_def dotted_def)
qed

lemma delete_fs_gone:
  assumes "delete_fs now parent name e f = Inr f'" and "keyed f" and "parent \<noteq> en_Ino e"
  obtains tA tp where "attrs f (en_Ino e) = Some tA" "at_pb tA = Some tp" "pb_Inode tp = en_Ino e"
    "attrs f' (en_Ino e) = (if pb_Nlink tp > 1
       then Some (tA \<lparr> at_pb := Some (touch_c now (tp \<lparr> pb_Nlink := pb_Nlink tp - 1 \<rparr>)) \<rparr>) else None)"
    "entries f' = (entries f)((parent, name) := None)"
  using assms by (fastforce simp: delete_fs_def bindR_def derefR_def Let_def keyed_def split: option.splits)

text \<open>
  C11. Deleting an entry makes its name unknown. Every other name of the inode stays and leads to the
  attribute with one link less; the attribute goes only with the last name.
\<close>

theorem delete_then_lookup:
  assumes "reach L srv k m" and "k < 2 ^ 32 - 2" and "good_name name" and "\<not> dotted parent name"
    and "entries (fs_of (committed m)) (parent, name) = Some e" and "\<not> Entry_IsDir e"
    and "DeleteInode spec_store L now parent name m = (Inr (), t)"
    and "pb_of (fs_of (committed m)) (en_Ino e) = Some old"
  shows "Lookup spec_store L srv parent name t = (Inl (Status NotFound), t)
    \<and> (\<forall>q n d. entries (fs_of (committed m)) (q, n) = Some d \<longrightarrow> en_Ino d = en_Ino e \<longrightarrow> (q, n) \<noteq> (parent, name) \<longrightarrow>
         good_name n \<longrightarrow> \<not> dotted q n \<longrightarrow>
         (\<exists>p. Lookup spec_store L srv q n t = (Inr (Some p), t) \<and> pb_Inode p = en_Ino e
              \<and> unat (pb_Nlink p) = unat (pb_Nlink old) - 1))
    \<and> (pb_Nlink old \<le> 1 \<longrightarrow> attrs (fs_of (committed t)) (en_Ino e) = None)"
proof -
  let ?f = "fs_of (committed m)"
  note r = reach_facts [OF assms(1,2)]
  have ok: "en_ParentIno e = parent" "attrs ?f (en_Ino e) \<noteq> None" "parent \<noteq> en_Ino e"
    using fs_invD(5) [OF r(4) assms(5)] assms(6,8) by (auto simp: entry_ok_def pb_of_def bind_eq_Some_conv)
  have nd: "name \<noteq> ''.''" "name \<noteq> ''..''" using assms(7) by (auto simp: DeleteInode_def run_simps split: if_splits)
  from DeleteInode_refines [OF r(1) assms(3) nd assms(5) ok(1) assms(6) ok(2), of L now] assms(7)
  obtain f where c: "delete_fs now parent name e ?f = Inr f" and f: "fs_of (committed t) = f"
    and gone: "map_of (committed t) (entry_key parent name) = None" by (auto split: sum.splits)
  from c r(1) ok(3) obtain tA tp where d: "attrs ?f (en_Ino e) = Some tA" "at_pb tA = Some tp" "pb_Inode tp = en_Ino e"
    "attrs f (en_Ino e) = (if pb_Nlink tp > 1
       then Some (tA \<lparr> at_pb := Some (touch_c now (tp \<lparr> pb_Nlink := pb_Nlink tp - 1 \<rparr>)) \<rparr>) else None)"
    "entries f = (entries ?f)((parent, name) := None)"
    by (rule delete_fs_gone)
  have tp: "tp = old" using assms(8) d by (simp add: pb_of_def)
  have two: "pb_Nlink old > 1" if "entries ?f (q, n) = Some d" "en_Ino d = en_Ino e" "(q, n) \<noteq> (parent, name)" for q n d
  proof -
    have "{(q, n), (parent, name)} \<subseteq> links ?f (en_Ino e)" using that assms(5) by (auto simp: links_def)
    from card_mono [OF finite_links [OF fs_invD(2) [OF r(4)]] this] fs_invD(6) [OF r(4) assms(8)] that(3)
    show ?thesis by (simp add: word_less_nat_alt)
  qed
  have q0: "q \<noteq> 0" if "entries ?f (q, n) = Some d" for q n d using reach_entry(1) [OF assms(1,2) that] .
  have "Lookup spec_store L srv parent name t = (Inl (Status NotFound), t)"
    using Lookup_gone [OF q0 [OF assms(5)] assms(3,4) gone] .
  moreover have "\<exists>p. Lookup spec_store L srv q n t = (Inr (Some p), t) \<and> pb_Inode p = en_Ino e
      \<and> unat (pb_Nlink p) = unat (pb_Nlink old) - 1"
    if "entries ?f (q, n) = Some d'" "en_Ino d' = en_Ino e" "(q, n) \<noteq> (parent, name)" "good_name n" "\<not> dotted q n" for q n d'
    using Lookup_found [OF q0 [OF that(1)] that(4,5), of t d'] that d f two [OF that(1-3)] unat_pred32 tp by auto
  ultimately show ?thesis using d(4) f tp by (auto simp: not_less)
qed

lemma sample_two_facts:
  "entries (fs_of (committed sample_two)) (1, ''f'') =
     Some \<lparr> en_ParentIno = 1, en_Name = ''f'', en_Ino = 2, en_Mode = 0x1A4 \<rparr>"
  "fst (DeleteInode spec_store sample_libs (4, 0) 1 ''f'' sample_two) = Inr ()"
  by code_simp+

text \<open>Witness of C11: the file with two names loses one of them.\<close>

theorem delete_then_lookup_witness:
  "\<exists>p t. DeleteInode spec_store sample_libs (4, 0) 1 ''f'' sample_two = (Inr (), t)
     \<and> Lookup spec_store sample_libs sample_srv 1 ''f'' t = (Inl (Status NotFound), t)
     \<and> Lookup spec_store sample_libs sample_srv 1 ''g'' t = (Inr (Some p), t) \<and> unat (pb_Nlink p) = 1"
proof -
  from sample_two_entry(2) obtain old where old: "pb_of (fs_of (committed sample_two)) 2 = Some old" "pb_Nlink old = 2"
    by auto
  obtain t where t: "DeleteInode spec_store sample_libs (4, 0) 1 ''f'' sample_two = (Inr (), t)"
    using sample_two_facts(2) by (metis prod.collapse)
  from delete_then_lookup [OF sample_reach_step [folded sample_two_def] _ _ _ sample_two_facts(1) _ t] old
    sample_two_entry(1) t
  show ?thesis by (force simp: good_name_def dotted_def Entry_IsDir_def mode_IsDir_def ModeDir_def)
qed

section \<open>Owners\<close>

text \<open>\<open>owned u g p r\<close>: a stage keeps the owner if \<open>u\<close> and the group if \<open>g\<close>.\<close>

definition owned :: "bool \<Rightarrow> bool \<Rightarrow> pb_attr \<Rightarrow> error + upd \<Rightarrow> bool" where
  "owned u g p r \<longleftrightarrow> (\<forall>x. r = Inr x \<longrightarrow> (u \<longrightarrow> pb_Uid (u_attr x) = pb_Uid p) \<and> (g \<longrightarrow> pb_Gid (u_attr x) = pb_Gid p))"

lemma owned_intros:
  "owned u g p (Inl e)"
  "(u \<Longrightarrow> pb_Uid (u_attr x) = pb_Uid p) \<Longrightarrow> (g \<Longrightarrow> pb_Gid (u_attr x) = pb_Gid p) \<Longrightarrow> owned u g p (Inr x)"
  "(\<And>x. r = Inr x \<Longrightarrow> owned u g p (f x)) \<Longrightarrow> owned u g p (bindR r f)"
  "(c \<Longrightarrow> owned u g p y) \<Longrightarrow> (\<not> c \<Longrightarrow> owned u g p z) \<Longrightarrow> owned u g p (if c then y else z)"
  by (auto simp: owned_def bindR_def split: sum.splits)

lemma clearSUGID_owned:
  "clearSUGID os ctx cur mode = Inr (cur', mode') \<Longrightarrow> pb_Uid cur' = pb_Uid cur \<and> pb_Gid cur' = pb_Gid cur"
  by (auto simp: clearSUGID_def Let_def split: goos.splits if_splits option.splits)

lemma upd_stage_owned:
  "owned True True (u_attr u) (upd_sugid os ctx vset u)"
  "owned True (cx_Uid ctx \<noteq> 0 \<and> cx_Uid ctx \<noteq> pb_Uid (u_attr u)) (u_attr u) (upd_gid ctx vset req u)"
  "owned (cx_Uid ctx \<noteq> 0) True (u_attr u) (upd_uid ctx vset req u)"
  "owned True True (u_attr u) (upd_mode ctx vset u)" "owned True True (u_attr u) (upd_atime ctx vset now req u)"
  "owned True True (u_attr u) (upd_mtime ctx vset now req u)"
proof -
  show "owned True True (u_attr u) (upd_sugid os ctx vset u)"
    unfolding upd_sugid_def Let_def by (intro owned_intros) (auto intro!: owned_intros dest: clearSUGID_owned)
qed (unfold upd_gid_def upd_uid_def upd_mode_def upd_atime_def upd_mtime_def Let_def, (intro owned_intros; simp)+)

lemma upd_flag_size_owned: "owned True True (u_attr u) (upd_flag_size vset now req u)"
proof -
  define v where "v = (if has vset SetAttrFlag then
      bindR (derefR (reqf req md_Flags)) (\<lambda>f. Inr (u \<lparr> u_attr := (u_attr u) \<lparr> pb_Flags := f \<rparr>, u_changed := True \<rparr>))
    else Inr u)"
  have "owned True True (u_attr u) v" unfolding v_def by (intro owned_intros; simp)
  then show ?thesis unfolding upd_flag_size_def v_def [symmetric]
    by (intro owned_intros) (auto simp: owned_def)
qed

lemma upd_all_owned:
  assumes "upd_all os ctx vset now req p = Inr q" and "cx_Uid ctx \<noteq> 0"
  shows "pb_Uid q = pb_Uid p \<and> (cx_Uid ctx \<noteq> pb_Uid p \<longrightarrow> pb_Gid q = pb_Gid p)"
proof -
  from assms(1) obtain u1 u2 u3 u4 u5 u6 u7 where st:
    "upd_sugid os ctx vset \<lparr> u_attr = p, u_mode = reqf req md_Mode, u_changed = False \<rparr> = Inr u1"
    "upd_gid ctx vset req u1 = Inr u2" "upd_uid ctx vset req u2 = Inr u3" "upd_mode ctx vset u3 = Inr u4"
    "upd_atime ctx vset now req u4 = Inr u5" "upd_mtime ctx vset now req u5 = Inr u6"
    "upd_flag_size vset now req u6 = Inr u7"
    "q = (if u_changed u7 then (touch_c now (u_attr u7)) \<lparr> pb_Epoch := pb_Epoch (touch_c now (u_attr u7)) + 1 \<rparr>
          else touch_c now (u_attr u7))"
    by (rule upd_all_stages)
  then show ?thesis using assms(2)
      upd_stage_owned(1) [of "\<lparr> u_attr = p, u_mode = reqf req md_Mode, u_changed = False \<rparr>" os ctx vset]
      upd_stage_owned(2) [of ctx u1 vset req] upd_stage_owned(3) [of ctx u2 vset req]
      upd_stage_owned(4) [of u3 ctx vset] upd_stage_owned(5) [of u4 ctx vset now req]
      upd_stage_owned(6) [of u5 ctx vset now req] upd_flag_size_owned [of u6 vset now req]
    by (auto simp: owned_def touch_c_def)
qed

text \<open>
  C12. An update by a caller other than root leaves the owner, the inode number and the link count as they
  are, and the group too unless the caller owns the inode.
\<close>

theorem update_respects_owner:
  assumes "reach L srv k m" and "k < 2 ^ 32 - 2" and "MDFromContext md = Some ctx" and "cx_Uid ctx \<noteq> 0"
    and "pb_of (fs_of (committed m)) ino = Some p" and "UpdateInodeAttr spec_store L md now ino req vset m = (Inr q, t)"
  shows "pb_of (fs_of (committed t)) ino = Some q \<and> pb_Uid q = pb_Uid p \<and> pb_Inode q = pb_Inode p
    \<and> pb_Nlink q = pb_Nlink p \<and> (cx_Uid ctx \<noteq> pb_Uid p \<longrightarrow> pb_Gid q = pb_Gid p)"
proof -
  from UpdateInodeAttr_refines [OF reach_facts(1) [OF assms(1,2)] assms(3), of L now ino req vset] assms(6)
  obtain f where u: "update_fs (GOOS L) ctx now ino req vset (fs_of (committed m)) = Inr (q, f)"
    and f: "fs_of (committed t) = f" by (auto split: sum.splits)
  from u assms(5) have q: "upd_all (GOOS L) ctx vset now req p = Inr q" and "pb_of f ino = Some q"
    by (auto simp: update_fs_def pb_of_def bindR_def derefR_def bind_eq_Some_conv split: sum.splits)
  with f upd_all_owned [OF q assms(4)] upd_all_node [OF q] show ?thesis by simp
qed

definition sample_update where
  "sample_update = UpdateInodeAttr spec_store sample_libs [(''uid'', [''7''])] (6, 0) 2
     (Some (sample_md 0 \<lparr> md_Size := Some 10 \<rparr>)) SetAttrSize sample_two"

lemma sample_updated:
  "fst sample_update = Inr (sample_file \<lparr> pb_Nlink := 2, pb_Size := 10, pb_Mtime := 6, pb_Ctime := 6, pb_Epoch := 1 \<rparr>)"
  "MDFromContext [(''uid'', [''7''])] = Some \<lparr> cx_Uid = 7, cx_Gid = 0 \<rparr>"
  by code_simp+

text \<open>Witness of C12: another user truncates the file.\<close>

theorem update_respects_owner_witness:
  "\<exists>p q. pb_of (fs_of (committed sample_two)) 2 = Some p
     \<and> pb_of (fs_of (committed (snd sample_update))) 2 = Some q \<and> pb_Size q = 10 \<and> pb_Uid q = pb_Uid p \<and> pb_Nlink q = 2"
proof -
  from sample_two_entry(2) obtain p where p: "pb_of (fs_of (committed sample_two)) 2 = Some p" by auto
  have "UpdateInodeAttr spec_store sample_libs [(''uid'', [''7''])] (6, 0) 2
      (Some (sample_md 0 \<lparr> md_Size := Some 10 \<rparr>)) SetAttrSize sample_two =
      (Inr (sample_file \<lparr> pb_Nlink := 2, pb_Size := 10, pb_Mtime := 6, pb_Ctime := 6, pb_Epoch := 1 \<rparr>), snd sample_update)"
    using sample_updated(1) by (simp add: sample_update_def prod_eq_iff)
  from update_respects_owner [OF sample_reach_step [folded sample_two_def] _ sample_updated(2) _ p this] p
  show ?thesis by simp
qed

section \<open>Renaming\<close>

lemma root_access [simp]: "cx_Uid ctx = 0 \<Longrightarrow> access ctx a mm = None"
  by (simp add: access_def)

lemma thepb_some: "at_pb a = Some p \<Longrightarrow> thepb a = p"
  by (simp add: thepb_def)

lemma setpb_simps [simp]:
  "at_pb (setpb g a) = Some (g (thepb a))" "at_ParentIno (setpb g a) = at_ParentIno a" "at_Name (setpb g a) = at_Name a"
  "thepb (setpb g a) = g (thepb a)"
  by (simp_all add: setpb_def thepb_def)

lemma addlink_simps [simp]:
  "pb_Inode (thepb (addlink n a)) = pb_Inode (thepb a)" "pb_Mode (thepb (addlink n a)) = pb_Mode (thepb a)"
  "\<exists>q. at_pb (addlink n a) = Some q \<and> pb_Inode q = pb_Inode (thepb a)"
  by (simp_all add: addlink_def)

text \<open>The parents after a rename: same numbers, and the source only has its change time set.\<close>

lemma rename_parents_root:
  assumes "cx_Uid ctx = 0" and "at_pb (r_spa r) = Some sp" and "at_pb (r_dpa r) = Some dp" and "at_pb (r_sa r) = Some ap"
  obtains r' where "rename_parents ctx now ps pd r = Inr r'" "r_da r' = r_da r" "r_de r' = r_de r"
    "r_sa r' = r_sa r \<lparr> at_pb := Some (touch_c now ap) \<rparr>"
    "\<exists>q. at_pb (r_spa r') = Some q \<and> pb_Inode q = pb_Inode sp" "\<exists>q. at_pb (r_dpa r') = Some q \<and> pb_Inode q = pb_Inode dp"
proof -
  define r1 where "r1 = (if ps \<noteq> pd \<and> Attr_IsDir (thepb (r_sa r))
      then r \<lparr> r_spa := addlink (-1) (r_spa r), r_dpa := addlink 1 (r_dpa r), r_supdate := True, r_dupdate := True \<rparr> else r)"
  have 1: "r_da r1 = r_da r" "r_de r1 = r_de r" "r_sa r1 = r_sa r"
    "\<exists>q. at_pb (r_spa r1) = Some q \<and> pb_Inode q = pb_Inode sp" "\<exists>q. at_pb (r_dpa r1) = Some q \<and> pb_Inode q = pb_Inode dp"
    using assms by (auto simp: r1_def thepb_some addlink_def)
  define r2 where "r2 = (if r_supdate r1 \<or> long_ago now (pb_Mtime (thepb (r_spa r1))) (pb_Ctimens (thepb (r_spa r1)))
      then r1 \<lparr> r_spa := setpb (touch_mc now) (r_spa r1), r_supdate := True \<rparr> else r1)"
  have 2: "r_da r2 = r_da r" "r_de r2 = r_de r" "r_sa r2 = r_sa r"
    "\<exists>q. at_pb (r_spa r2) = Some q \<and> pb_Inode q = pb_Inode sp" "\<exists>q. at_pb (r_dpa r2) = Some q \<and> pb_Inode q = pb_Inode dp"
    using 1 by (auto simp: r2_def thepb_some)
  define r3 where "r3 = (if r_dupdate r2 \<or> long_ago now (pb_Mtime (thepb (r_dpa r2))) (pb_Mtimens (thepb (r_dpa r2)))
      then r2 \<lparr> r_dpa := setpb (touch_mc now) (r_dpa r2), r_dupdate := True \<rparr> else r2)"
  have 3: "r_da r3 = r_da r" "r_de r3 = r_de r" "r_sa r3 = r_sa r"
    "\<exists>q. at_pb (r_spa r3) = Some q \<and> pb_Inode q = pb_Inode sp" "\<exists>q. at_pb (r_dpa r3) = Some q \<and> pb_Inode q = pb_Inode dp"
    using 2 by (auto simp: r3_def thepb_some)
  have "rename_parents ctx now ps pd r = Inr (r3 \<lparr> r_sa := setpb (touch_c now) (r_sa r3) \<rparr>)"
    unfolding rename_parents_def Let_def r1_def [symmetric] r2_def [symmetric] r3_def [symmetric]
    by (simp add: bindR_def assms(1))
  then show thesis by (rule that) (use 3 assms(4) in \<open>simp_all add: setpb_def thepb_some\<close>)
qed

definition unflagged :: "pb_attr \<Rightarrow> bool" where
  "unflagged p \<longleftrightarrow> pb_Flags p AND FlagAppend = 0 \<and> pb_Flags p AND FlagImmutable = 0"

lemma rename_load_root:
  assumes "pending m = Some kv" and "cx_Uid ctx = 0" and "read_entry kv ps old = Inr e"
    and "read_attr kv ps = Inr spa" "at_pb spa = Some sp" "Attr_IsDir sp" "unflagged sp"
    and "read_attr kv pd = Inr dpa" "at_pb dpa = Some dp" "Attr_IsDir dp" "unflagged dp"
    and "read_attr kv (en_Ino e) = Inr sa" "at_pb sa = Some ap" "unflagged ap"
  shows "rename_load spec_store L True ctx ps old pd m = (Inr (e, spa, dpa, sa), m)"
  using assms by (simp add: rename_load_def run_simps unflagged_def spec_read_def spec_view_def)

text \<open>
  C14. Root renames an entry to a free name: the old name is gone, the new one is there for the same inode
  and type, and no other entry changes. The copier of the libraries must copy the attribute.
\<close>

theorem rename_moves_entry:
  assumes "reach L srv k m" and "k < 2 ^ 32 - 2" and f: "f = fs_of (committed m)"
    and "MDFromContext md = Some ctx" and "cx_Uid ctx = 0" and "flags = 0 \<or> flags = RenameNoReplace"
    and "good_name old" and "good_name new" and "entries f (ps, old) = Some e" and "entries f (pd, new) = None"
    and "pb_of f ps = Some sp" and "unflagged sp" and "pb_of f pd = Some dp" and "unflagged dp" and "Attr_IsDir dp"
    and "pb_of f (en_Ino e) = Some ap" and "unflagged ap" and "\<And>a. copy_attr L a = Inr a"
  shows "\<exists>x t. Rename spec_store L md now flags ps old pd new m = (Inr x, t)
    \<and> entries (fs_of (committed t)) = (entries f)((ps, old) := None, (pd, new) \<mapsto>
        \<lparr> en_ParentIno = pd, en_Name = new, en_Ino = en_Ino e, en_Mode = en_Mode e \<rparr>)"
proof -
  note i = reach_facts [OF assms(1,2), folded f]
  let ?m = "m \<lparr> pending := Some (committed m) \<rparr>"
  have ok: "en_ParentIno e = ps" "en_Name e = old" "Attr_IsDir sp"
    using fs_invD(5) [OF i(4) assms(9)] assms(11) by (auto simp: entry_ok_def)
  have se: "read_entry (committed m) ps old = Inr e" using assms(7,9) by (simp add: f fs_of_def abs_entries_read)
  obtain x where de: "read_entry (committed m) pd new = Inl x" "x \<noteq> Panic"
    using assms(8,10) read_Inl(2) by (auto simp: f fs_of_def abs_entries_None)
  obtain spa dpa sa where at: "read_attr (committed m) ps = Inr spa" "at_pb spa = Some sp"
    "read_attr (committed m) pd = Inr dpa" "at_pb dpa = Some dp"
    "read_attr (committed m) (en_Ino e) = Inr sa" "at_pb sa = Some ap"
    using assms(11,13,16) by (auto simp: f fs_of_def pb_of_def bind_eq_Some_conv abs_attrs_read)
  have load: "rename_load spec_store L True ctx ps old pd ?m = (Inr (e, spa, dpa, sa), ?m)"
    by (rule rename_load_root [of _ "committed m", where sp = sp and dp = dp and ap = ap]) (use assms ok se at in simp_all)
  define r0 where "r0 = \<lparr> r_spa = spa, r_dpa = dpa, r_sa = sa, r_de = None, r_da = None, r_supdate = False, r_dupdate = False \<rparr>"
  obtain r where r: "rename_parents ctx now ps pd r0 = Inr r" "r_da r = None" "r_de r = None"
    "r_sa r = sa \<lparr> at_pb := Some (touch_c now ap) \<rparr>"
    and keys: "\<exists>q. at_pb (r_spa r) = Some q \<and> pb_Inode q = pb_Inode sp" "\<exists>q. at_pb (r_dpa r) = Some q \<and> pb_Inode q = pb_Inode dp"
    using rename_parents_root [OF assms(5), of r0 sp dp ap now ps pd] at by (auto simp: r0_def)
  have fl: "rename_flags flags = returnE ()" "flags \<noteq> RenameExchange"
    using assms(6) by (auto simp: rename_flags_def RenameNoReplace_def RenameExchange_def)
  have [simp]: "old \<noteq> []" "new \<noteq> []" using assms(7,8) by (simp_all add: good_name_def)
  show ?thesis
    using keys
    by (auto simp: Rename_def run_simps fl load de assms(4) rename_dst_def r0_def [symmetric] r rename_entries_def
        rename_finish_def Clone_def assms(18) Let_def ok Entry_FormatKey_def Attr_FormatKey_def thepb_some f fs_of_def)
qed

text \<open>Witness of C14: root renames the file.\<close>

theorem rename_moves_entry_witness:
  "\<exists>x t. Rename spec_store sample_libs [] (7, 0) 0 1 ''f'' 1 ''h'' sample_two = (Inr x, t)
     \<and> entries (fs_of (committed t)) (1, ''f'') = None
     \<and> entries (fs_of (committed t)) (1, ''h'') =
         Some \<lparr> en_ParentIno = 1, en_Name = ''h'', en_Ino = 2, en_Mode = 0x1A4 \<rparr>"
proof -
  have "map_option (\<lambda>p. unflagged p \<and> Attr_IsDir p) (pb_of (fs_of (committed sample_two)) 1) = Some True"
    "map_option unflagged (pb_of (fs_of (committed sample_two)) 2) = Some True"
    "entries (fs_of (committed sample_two)) (1, ''h'') = None" "MDFromContext [] = Some \<lparr> cx_Uid = 0, cx_Gid = 0 \<rparr>"
    by code_simp+
  then obtain d p where "pb_of (fs_of (committed sample_two)) 1 = Some d" "unflagged d" "Attr_IsDir d"
    "pb_of (fs_of (committed sample_two)) 2 = Some p" "unflagged p" by auto
  note facts = this \<open>entries _ _ = None\<close> \<open>MDFromContext [] = _\<close>
  from rename_moves_entry [OF sample_reach_step [folded sample_two_def] _ refl facts(7) _ _ _ _ sample_two_facts(1) facts(6)
      facts(1,2,1,2,3), of 0 p "(7, 0)"] facts(4,5)
  show ?thesis by (fastforce simp: good_name_def sample_libs_def)
qed

section \<open>Removing directories\<close>

lemma ino_attr_file: "at_pb (ino_attr i) = Some p \<Longrightarrow> \<not> Attr_IsDir p"
  by (auto simp: ino_attr_def zero_pb_def Attr_IsDir_def mode_IsDir_def)

lemma mapE_return: "(\<And>x. x \<in> set xs \<Longrightarrow> f x = returnE (g x)) \<Longrightarrow> mapE f xs = returnE (map g xs)"
  by (induction xs) (auto simp: fun_eq_iff run_simps)

text \<open>
  C37. The recursion of \<^verbatim>\<open>doDeleteDir\<close> ends at once: the children are given as attributes without a mode,
  so none is taken for a directory, and subdirectories lose their entry but not their content.
\<close>

theorem doDeleteDir_no_recursion: "doDeleteDir n S parent name = doDeleteDir 0 S parent name"
proof -
  have "mapE (\<lambda>item. case at_pb item of None \<Rightarrow> throwE Panic | Some p \<Rightarrow>
          if Attr_IsDir p then (case fuel of 0 \<Rightarrow> throwE (ErrOther ''fuel'')
             | Suc k \<Rightarrow> doDeleteDir k S (at_ParentIno item) (at_Name item))
          else returnE ()) (map (\<lambda>(_, e). ino_attr (en_Ino e)) kids) =
        returnE (map (\<lambda>_. ()) (map (\<lambda>(_, e). ino_attr (en_Ino e)) kids))" for fuel and kids :: "(string \<times> Entry) list"
    by (rule mapE_return) (auto simp: ino_attr_file ino_attr_def split: option.split)
  then show ?thesis by (subst (1 2) doDeleteDir.simps) (simp only: Let_def)
qed

section \<open>Stored form\<close>

text \<open>C15. An attribute with an inode number survives being stored and read back unchanged.\<close>

theorem attr_stored_form:
  assumes "at_pb a = Some p" and "pb_Inode p \<noteq> 0"
  shows "\<exists>b. Attr_Serialize a = Inr b \<and> Attr_Deserialize b = Inr a"
  using Attr_Deserialize_ino [OF assms] by (simp add: attr_doc_def Attr_Serialize_def)

text \<open>Witness of C15: the attribute of the root directory.\<close>

theorem attr_stored_form_witness:
  "\<exists>b. Attr_Serialize (root_attr (5, 6) 7 8) = Inr b \<and> Attr_Deserialize b = Inr (root_attr (5, 6) 7 8)"
  by (rule attr_stored_form) (simp add: root_attr_def, simp add: zero_pb_def)

text \<open>A directory entry survives being stored and read back unchanged.\<close>

theorem entry_stored_form: "\<exists>b. Entry_Serialize e = Inr b \<and> Entry_Deserialize b = Inr e"
  using Entry_Deserialize_doc [of e] by (simp add: entry_doc_def Entry_Serialize_def)

text \<open>
  C27. Keys do not collide: attributes and entries have different keys, different numbers and different
  names in a directory have different keys, and a scan of a directory's prefix meets only its entries.
\<close>

theorem keys_separate:
  "attr_key i \<noteq> entry_key p n \<and> (attr_key i = attr_key j \<longleftrightarrow> i = j)
   \<and> (entry_key p n = entry_key q l \<longleftrightarrow> p = q \<and> n = l)
   \<and> (prefix (entry_prefix p) (entry_key q l) \<longleftrightarrow> p = q) \<and> \<not> prefix (entry_prefix p) (attr_key i)
   \<and> attr_key i \<noteq> InoKey \<and> entry_key p n \<noteq> InoKey"
  using plain_attr_key [of i] plain_entry_key [of p n] by (auto simp: plain_key_def)

end
