(* ===== verification/Block_Key.thy ===== *)
theory Block_Key
  imports Hugo_Prelude
begin

text \<open>
  \<^verbatim>\<open>src/pkg/storage/adaptor/if.go\<close> and \<^verbatim>\<open>block_view.go\<close>: the keys of blocks, and one reader/writer lock per key.
  A lock operation has two atomic parts, the lookup in the cache and the operation on the mutex, and other
  threads may run between them. An operation on a mutex that has to wait is \<^const>\<open>None\<close>.
\<close>

section \<open>Keys\<close>

type_synonym BlockKey = string

definition NewBlockKey :: "u64 \<Rightarrow> u64 \<Rightarrow> BlockKey" where
  "NewBlockKey ino idx = fmt_d (unat ino) @ '','' @ fmt_d (unat idx)"

definition EmptyBlockKey :: BlockKey where "EmptyBlockKey = NewBlockKey 0 0"

definition Split :: "BlockKey \<Rightarrow> u64 \<times> u64" where
  "Split k = (case cut CHR '','' k of (inoStr, indexStr) \<Rightarrow> (parse_uint inoStr, parse_uint indexStr))"

definition GetIno :: "BlockKey \<Rightarrow> u64" where
  "GetIno k = (case cut CHR '','' k of (inoStr, _) \<Rightarrow> parse_uint inoStr)"

definition GetIndex :: "BlockKey \<Rightarrow> u64" where
  "GetIndex k = (case cut CHR '','' k of (_, indexStr) \<Rightarrow> parse_uint indexStr)"

record BlockKeyView =
  view_key :: BlockKey
  Start :: int
  End :: int

definition NewBlockKeyView :: "u64 \<Rightarrow> u64 \<Rightarrow> BlockKeyView" where
  "NewBlockKeyView ino idx = \<lparr> view_key = NewBlockKey ino idx, Start = 0, End = 0 \<rparr>"

definition view_GetIno :: "BlockKeyView \<Rightarrow> u64" where "view_GetIno v = GetIno (view_key v)"
definition view_GetIndex :: "BlockKeyView \<Rightarrow> u64" where "view_GetIndex v = GetIndex (view_key v)"

definition SetStartStop :: "int \<Rightarrow> int \<Rightarrow> BlockKeyView \<Rightarrow> BlockKeyView" where
  "SetStartStop s e v = v \<lparr> Start := s, End := e \<rparr>"

definition ToBlockKey :: "BlockKeyView \<Rightarrow> BlockKey" where "ToBlockKey v = view_key v"

text \<open>A key gives back the inode and the index it was made of, however it is read.\<close>

theorem block_key_roundtrip:
  "Split (NewBlockKey ino idx) = (ino, idx) \<and> GetIno (NewBlockKey ino idx) = ino \<and> GetIndex (NewBlockKey ino idx) = idx
   \<and> Split k = (GetIno k, GetIndex k)"
proof -
  have "CHR '','' \<notin> set (fmt_d (unat ino))" by (simp add: fmt_d_no)
  from cut_append [OF this] show ?thesis by (simp add: Split_def GetIno_def GetIndex_def NewBlockKey_def split_beta)
qed

lemma GetIno_New [simp]: "GetIno (NewBlockKey ino idx) = ino" "GetIndex (NewBlockKey ino idx) = idx"
  using cut_append [OF fmt_d_no [of "CHR '',''" "unat ino"]] by (simp_all add: GetIno_def GetIndex_def NewBlockKey_def)

lemma Split_eq: "Split k = (GetIno k, GetIndex k)"
  by (simp add: Split_def GetIno_def GetIndex_def split_beta)

section \<open>Locks\<close>

record RWMutex =
  writer :: bool
  readers :: nat

record keyLockCache =
  cache :: "BlockKey \<rightharpoonup> nat"
  mutexes :: "RWMutex list"

definition keyLocker :: keyLockCache where
  "keyLocker = \<lparr> cache = Map.empty, mutexes = [] \<rparr>"

text \<open>The first part of \<^verbatim>\<open>LockFor\<close> and \<^verbatim>\<open>RLockFor\<close>: the mutex of a key, new if there is none.\<close>

definition find_mutex :: "BlockKey \<Rightarrow> keyLockCache \<Rightarrow> nat \<times> keyLockCache" where
  "find_mutex key c = (case cache c key of
     None \<Rightarrow> (length (mutexes c),
       c \<lparr> cache := (cache c)(key \<mapsto> length (mutexes c)), mutexes := mutexes c @ [\<lparr> writer = False, readers = 0 \<rparr>] \<rparr>)
   | Some mu \<Rightarrow> (mu, c))"

definition set_mutex :: "nat \<Rightarrow> RWMutex \<Rightarrow> keyLockCache \<Rightarrow> keyLockCache" where
  "set_mutex mu x c = c \<lparr> mutexes := (mutexes c)[mu := x] \<rparr>"

definition mu_Lock :: "nat \<Rightarrow> keyLockCache \<Rightarrow> keyLockCache option" where
  "mu_Lock mu c = (let x = mutexes c ! mu in
     if writer x \<or> readers x > 0 then None else Some (set_mutex mu (x \<lparr> writer := True \<rparr>) c))"

definition mu_RLock :: "nat \<Rightarrow> keyLockCache \<Rightarrow> keyLockCache option" where
  "mu_RLock mu c = (let x = mutexes c ! mu in
     if writer x then None else Some (set_mutex mu (x \<lparr> readers := Suc (readers x) \<rparr>) c))"

text \<open>Releasing a mutex that is not held is a fatal error of the runtime.\<close>

datatype released = Released keyLockCache | Fatal

definition mu_Unlock :: "nat \<Rightarrow> keyLockCache \<Rightarrow> released" where
  "mu_Unlock mu c = (let x = mutexes c ! mu in
     if writer x then Released (set_mutex mu (x \<lparr> writer := False \<rparr>) c) else Fatal)"

definition mu_RUnlock :: "nat \<Rightarrow> keyLockCache \<Rightarrow> released" where
  "mu_RUnlock mu c = (let x = mutexes c ! mu in
     if readers x > 0 then Released (set_mutex mu (x \<lparr> readers := readers x - 1 \<rparr>) c) else Fatal)"

definition LockFor :: "BlockKey \<Rightarrow> keyLockCache \<Rightarrow> keyLockCache option" where
  "LockFor key c = (case find_mutex key c of (mu, c1) \<Rightarrow> mu_Lock mu c1)"

definition RLockFor :: "BlockKey \<Rightarrow> keyLockCache \<Rightarrow> keyLockCache option" where
  "RLockFor key c = (case find_mutex key c of (mu, c1) \<Rightarrow> mu_RLock mu c1)"

definition UnlockFor :: "BlockKey \<Rightarrow> keyLockCache \<Rightarrow> released" where
  "UnlockFor key c = (case cache c key of None \<Rightarrow> Released c | Some mu \<Rightarrow> mu_Unlock mu c)"

definition RUnlockFor :: "BlockKey \<Rightarrow> keyLockCache \<Rightarrow> released" where
  "RUnlockFor key c = (case cache c key of None \<Rightarrow> Released c | Some mu \<Rightarrow> mu_RUnlock mu c)"

definition kl_Delete :: "BlockKey \<Rightarrow> keyLockCache \<Rightarrow> keyLockCache" where
  "kl_Delete key c = c \<lparr> cache := (cache c)(key := None) \<rparr>"

definition RemoveBlockKey :: "BlockKey list \<Rightarrow> keyLockCache \<Rightarrow> keyLockCache" where
  "RemoveBlockKey keys c = fold kl_Delete keys c"

subsection \<open>Threads\<close>

text \<open>
  Threads that lock and release keys, in any interleaving. A thread that waits has done the lookup; it
  acquires when the mutex allows. \<open>Crashed\<close> is the fatal error.
\<close>

datatype lmode = ModeR | ModeW
datatype tstate = Idle | Waiting BlockKey nat lmode | Holding BlockKey nat lmode

record lsys =
  kl :: keyLockCache
  th :: "nat \<Rightarrow> tstate"
  crashed :: bool

definition acquire :: "lmode \<Rightarrow> nat \<Rightarrow> keyLockCache \<Rightarrow> keyLockCache option" where
  "acquire md mu c = (case md of ModeW \<Rightarrow> mu_Lock mu c | ModeR \<Rightarrow> mu_RLock mu c)"

definition release :: "lmode \<Rightarrow> BlockKey \<Rightarrow> keyLockCache \<Rightarrow> released" where
  "release md key c = (case md of ModeW \<Rightarrow> UnlockFor key c | ModeR \<Rightarrow> RUnlockFor key c)"

inductive lstep :: "lsys \<Rightarrow> lsys \<Rightarrow> bool" where
  look: "th s t = Idle \<Longrightarrow> find_mutex key (kl s) = (mu, c) \<Longrightarrow>
     lstep s (s \<lparr> kl := c, th := (th s)(t := Waiting key mu md) \<rparr>)"
| acq: "th s t = Waiting key mu md \<Longrightarrow> acquire md mu (kl s) = Some c \<Longrightarrow>
     lstep s (s \<lparr> kl := c, th := (th s)(t := Holding key mu md) \<rparr>)"
| rel: "th s t = Holding key mu md \<Longrightarrow> release md key (kl s) = Released c \<Longrightarrow>
     lstep s (s \<lparr> kl := c, th := (th s)(t := Idle) \<rparr>)"
| crash: "th s t = Holding key mu md \<Longrightarrow> release md key (kl s) = Fatal \<Longrightarrow> lstep s (s \<lparr> crashed := True \<rparr>)"

inductive_cases lstepE: "lstep s s'"

definition linit :: lsys where
  "linit = \<lparr> kl = keyLocker, th = (\<lambda>_. Idle), crashed = False \<rparr>"

inductive lreach :: "lsys \<Rightarrow> bool" where
  start: "lreach linit"
| more: "lreach s \<Longrightarrow> lstep s s' \<Longrightarrow> lreach s'"

definition holders :: "(nat \<Rightarrow> tstate) \<Rightarrow> nat \<Rightarrow> lmode \<Rightarrow> nat set" where
  "holders T mu md = {t. \<exists>key. T t = Holding key mu md}"

text \<open>
  The invariant: threads use the mutex the cache has for their key, keys do not share mutexes, a mutex counts
  its readers and knows its writer, and a writer is alone.
\<close>

definition mu_ok :: "RWMutex \<Rightarrow> nat set \<Rightarrow> nat set \<Rightarrow> bool" where
  "mu_ok x R W \<longleftrightarrow> readers x = card R \<and> (if writer x then is_singleton W \<and> readers x = 0 else W = {})"

definition cache_ok :: "keyLockCache \<Rightarrow> bool" where
  "cache_ok c \<longleftrightarrow> (\<forall>key mu. cache c key = Some mu \<longrightarrow> mu < length (mutexes c))
     \<and> (\<forall>k1 k2 mu. cache c k1 = Some mu \<and> cache c k2 = Some mu \<longrightarrow> k1 = k2)"

fun uses :: "tstate \<Rightarrow> (BlockKey \<times> nat) option" where
  "uses Idle = None" | "uses (Waiting key mu _) = Some (key, mu)" | "uses (Holding key mu _) = Some (key, mu)"

definition linv :: "lsys \<Rightarrow> bool" where
  "linv s \<longleftrightarrow> finite {t. th s t \<noteq> Idle} \<and> \<not> crashed s \<and> cache_ok (kl s)
     \<and> (\<forall>t key mu. uses (th s t) = Some (key, mu) \<longrightarrow> cache (kl s) key = Some mu)
     \<and> (\<forall>mu < length (mutexes (kl s)). mu_ok (mutexes (kl s) ! mu) (holders (th s) mu ModeR) (holders (th s) mu ModeW))"

lemma holders_update:
  "holders (T(t := Holding key mu md)) mu' md' = (if mu' = mu \<and> md' = md then insert t (holders T mu' md') else holders T mu' md' - {t})"
  "holders (T(t := Idle)) mu' md' = holders T mu' md' - {t}"
  "holders (T(t := Waiting key mu md)) mu' md' = holders T mu' md' - {t}"
  by (auto simp: holders_def)

lemma not_holder: "T t = Idle \<or> (\<exists>key mu md. T t = Waiting key mu md) \<Longrightarrow> t \<notin> holders T mu' md'"
  by (auto simp: holders_def)

lemma holder_mode: "T t = Holding key mu md \<Longrightarrow> t \<in> holders T mu' md' \<longleftrightarrow> mu' = mu \<and> md' = md"
  by (auto simp: holders_def)

lemma finite_holders: "finite {t. T t \<noteq> Idle} \<Longrightarrow> finite (holders T mu md)"
  by (rule finite_subset [rotated]) (auto simp: holders_def)

lemma finite_busy: "finite {t. T t \<noteq> Idle} \<Longrightarrow> finite {x. (T(t := st)) x \<noteq> Idle}"
  by (rule finite_subset [of _ "insert t {t. T t \<noteq> Idle}"]) auto

lemma find_mutex_ok:
  assumes "find_mutex key c = (mu, c')" and "cache_ok c"
  shows "cache_ok c'" "cache c' key = Some mu" "\<And>k m. cache c k = Some m \<Longrightarrow> cache c' k = Some m"
    "mutexes c' = mutexes c \<or> (mutexes c' = mutexes c @ [\<lparr> writer = False, readers = 0 \<rparr>])"
  using assms by (auto simp: find_mutex_def cache_ok_def less_Suc_eq split: option.splits if_splits) blast+

lemma set_mutex_simps [simp]:
  "cache (set_mutex mu x c) = cache c" "mutexes (set_mutex mu x c) = (mutexes c)[mu := x]"
  "cache_ok (set_mutex mu x c) = cache_ok c"
  by (simp_all add: set_mutex_def cache_ok_def)

lemma acquire_some:
  assumes "acquire md mu c = Some c'"
  obtains x where "c' = set_mutex mu x c"
    "md = ModeW \<Longrightarrow> x = (mutexes c ! mu) \<lparr> writer := True \<rparr> \<and> \<not> writer (mutexes c ! mu) \<and> readers (mutexes c ! mu) = 0"
    "md = ModeR \<Longrightarrow> x = (mutexes c ! mu) \<lparr> readers := Suc (readers (mutexes c ! mu)) \<rparr> \<and> \<not> writer (mutexes c ! mu)"
  using assms by (cases md) (auto simp: acquire_def mu_Lock_def mu_RLock_def Let_def split: if_splits)

lemma acquire_mu_ok:
  assumes "acquire md mu c = Some (set_mutex mu x c)" and "mu < length (mutexes c)" and "mu_ok (mutexes c ! mu) R W"
    and "finite R" and "t \<notin> R" and "t \<notin> W"
  shows "mu_ok x (if md = ModeR then insert t R else R) (if md = ModeW then insert t W else W)"
proof -
  obtain y where y: "set_mutex mu x c = set_mutex mu y c"
    "md = ModeW \<Longrightarrow> y = (mutexes c ! mu) \<lparr> writer := True \<rparr> \<and> \<not> writer (mutexes c ! mu) \<and> readers (mutexes c ! mu) = 0"
    "md = ModeR \<Longrightarrow> y = (mutexes c ! mu) \<lparr> readers := Suc (readers (mutexes c ! mu)) \<rparr> \<and> \<not> writer (mutexes c ! mu)"
    using acquire_some [OF assms(1)] by metis
  have "x = y" using arg_cong [OF y(1), of "\<lambda>c. mutexes c ! mu"] assms(2) by simp
  with y(2,3) assms(3-6) show ?thesis
    by (cases md) (auto simp: mu_ok_def)
qed

lemma release_held:
  assumes "cache c key = Some mu" and "mu_ok (mutexes c ! mu) R W" and "finite R"
    and "md = ModeR \<and> t \<in> R \<or> md = ModeW \<and> t \<in> W"
  obtains x where "release md key c = Released (set_mutex mu x c)"
    "mu_ok x (if md = ModeR then R - {t} else R) (if md = ModeW then W - {t} else W)"
proof (cases md)
  case ModeR
  then have t: "t \<in> R" using assms(4) by simp
  then have "card R > 0" "\<not> writer (mutexes c ! mu)" using assms(2,3) by (auto simp: mu_ok_def card_gt_0_iff)
  then show thesis using ModeR t assms
    by (intro that [of "(mutexes c ! mu) \<lparr> readers := readers (mutexes c ! mu) - 1 \<rparr>"])
      (auto simp: release_def RUnlockFor_def mu_RUnlock_def Let_def mu_ok_def)
next
  case ModeW
  then have t: "t \<in> W" using assms(4) by simp
  then have w: "writer (mutexes c ! mu)" "W = {t}" using assms(2) by (auto simp: mu_ok_def is_singleton_def split: if_splits)
  then show thesis using ModeW assms
    by (intro that [of "(mutexes c ! mu) \<lparr> writer := False \<rparr>"])
      (auto simp: release_def UnlockFor_def mu_Unlock_def Let_def mu_ok_def)
qed

lemma linv_update:
  assumes "linv s" and "cache_ok c" and "\<forall>k m. cache (kl s) k = Some m \<longrightarrow> cache c k = Some m"
    and "\<forall>key mu. uses st = Some (key, mu) \<longrightarrow> cache c key = Some mu"
    and "\<forall>mu < length (mutexes c). mu_ok (mutexes c ! mu) (holders ((th s)(t := st)) mu ModeR) (holders ((th s)(t := st)) mu ModeW)"
  shows "linv (s \<lparr> kl := c, th := (th s)(t := st) \<rparr>)"
  using assms finite_busy [of "th s" t st] unfolding linv_def by (auto simp del: fun_upd_apply) (auto split: if_splits)

lemma linvD:
  assumes "linv s"
  shows "finite (holders (th s) mu md)" "cache_ok (kl s)"
    "uses (th s t) = Some (key, mu) \<Longrightarrow> cache (kl s) key = Some mu \<and> mu < length (mutexes (kl s))"
    "mu < length (mutexes (kl s)) \<Longrightarrow> mu_ok (mutexes (kl s) ! mu) (holders (th s) mu ModeR) (holders (th s) mu ModeW)"
  using assms by (auto simp: linv_def finite_holders cache_ok_def) metis

lemma linv_step:
  assumes "lstep s s'" and "linv s"
  shows "linv s'"
  using assms(1)
proof (cases rule: lstep.cases)
  case (look t key mu c md)
  note f = find_mutex_ok [OF look(3) linvD(2) [OF assms(2)]]
  have fresh: "holders (th s) (length (mutexes (kl s))) md' = {}" for md'
  proof (rule ccontr)
    assume "holders (th s) (length (mutexes (kl s))) md' \<noteq> {}"
    then obtain t' k where "th s t' = Holding k (length (mutexes (kl s))) md'" by (auto simp: holders_def)
    with linvD(3) [OF assms(2), of t'] show False by simp
  qed
  have "mu_ok (mutexes c ! m) (holders (th s) m ModeR) (holders (th s) m ModeW)" if "m < length (mutexes c)" for m
    using f(4) that linvD(4) [OF assms(2), of m] fresh by (auto simp: nth_append mu_ok_def less_Suc_eq)
  with f look(2) show ?thesis unfolding look(1)
    by (intro linv_update [OF assms(2)]) (auto simp: holders_update not_holder)
next
  case (acq t key mu md c)
  have u: "cache (kl s) key = Some mu" "mu < length (mutexes (kl s))" using linvD(3) [OF assms(2), of t] acq(2) by auto
  obtain x where x: "c = set_mutex mu x (kl s)" using acquire_some [OF acq(3)] by metis
  have nh: "t \<notin> holders (th s) m d" for m d using acq(2) by (intro not_holder) blast
  have "mu_ok x (if md = ModeR then insert t (holders (th s) mu ModeR) else holders (th s) mu ModeR)
      (if md = ModeW then insert t (holders (th s) mu ModeW) else holders (th s) mu ModeW)"
    using acquire_mu_ok [OF acq(3) [unfolded x] u(2) linvD(4) [OF assms(2) u(2)] linvD(1) [OF assms(2)] nh nh] .
  then have m: "mu_ok (mutexes c ! m) (holders ((th s)(t := Holding key mu md)) m ModeR) (holders ((th s)(t := Holding key mu md)) m ModeW)"
    if "m < length (mutexes c)" for m
    using that linvD(4) [OF assms(2), of m] nh by (cases md) (auto simp: x nth_list_update holders_update)
  show ?thesis unfolding acq(1)
    by (intro linv_update [OF assms(2)]) (use u m linvD(2) [OF assms(2)] x in auto)
next
  case (rel t key mu md c)
  have u: "cache (kl s) key = Some mu" "mu < length (mutexes (kl s))" using linvD(3) [OF assms(2), of t] rel(2) by auto
  note hm = holder_mode [of "th s", OF rel(2)]
  have mt: "md = ModeR \<and> t \<in> holders (th s) mu ModeR \<or> md = ModeW \<and> t \<in> holders (th s) mu ModeW"
    by (cases md) (auto simp: hm)
  obtain x where x: "release md key (kl s) = Released (set_mutex mu x (kl s))"
    "mu_ok x (if md = ModeR then holders (th s) mu ModeR - {t} else holders (th s) mu ModeR)
      (if md = ModeW then holders (th s) mu ModeW - {t} else holders (th s) mu ModeW)"
    by (rule release_held [OF u(1) linvD(4) [OF assms(2) u(2)] linvD(1) [OF assms(2)] mt])
  have c: "c = set_mutex mu x (kl s)" using rel(3) x(1) by simp
  have m: "mu_ok (mutexes c ! m) (holders ((th s)(t := Idle)) m ModeR) (holders ((th s)(t := Idle)) m ModeW)"
    if "m < length (mutexes c)" for m
    using that x(2) linvD(4) [OF assms(2), of m]
    by (cases md; cases "m = mu") (auto simp: c holders_update hm)
  show ?thesis unfolding rel(1)
    by (intro linv_update [OF assms(2)]) (use u m linvD(2) [OF assms(2)] c in auto)
next
  case (crash t key mu md)
  have u: "cache (kl s) key = Some mu" "mu < length (mutexes (kl s))" using linvD(3) [OF assms(2), of t] crash(2) by auto
  have mt: "md = ModeR \<and> t \<in> holders (th s) mu ModeR \<or> md = ModeW \<and> t \<in> holders (th s) mu ModeW"
    by (cases md) (auto simp: holder_mode [of "th s", OF crash(2)])
  obtain x where "release md key (kl s) = Released (set_mutex mu x (kl s))"
    by (rule release_held [OF u(1) linvD(4) [OF assms(2) u(2)] linvD(1) [OF assms(2)] mt])
  with crash(3) show ?thesis by simp
qed

lemma linv_reach: "lreach s \<Longrightarrow> linv s"
proof (induction rule: lreach.induct)
  case start
  then show ?case by (simp add: linit_def linv_def keyLocker_def cache_ok_def)
qed (rule linv_step)

text \<open>
  C36. While no key is deleted, in every interleaving: two threads hold the same key only if both read, no
  release is fatal, and a thread waiting for a key that nobody holds can take it.
\<close>

theorem key_locks_exclude:
  assumes "lreach s"
  shows "\<not> crashed s
    \<and> (th s t1 = Holding key m1 md1 \<and> th s t2 = Holding key m2 md2 \<and> t1 \<noteq> t2 \<longrightarrow> md1 = ModeR \<and> md2 = ModeR)
    \<and> (th s t = Waiting key mu md \<and> (\<forall>t' mu' md'. th s t' \<noteq> Holding key mu' md') \<longrightarrow> acquire md mu (kl s) \<noteq> None)"
proof (intro conjI impI)
  note I = linv_reach [OF assms]
  show "\<not> crashed s" using I by (simp add: linv_def)
  show "md1 = ModeR" "md2 = ModeR" if h: "th s t1 = Holding key m1 md1 \<and> th s t2 = Holding key m2 md2 \<and> t1 \<noteq> t2"
  proof -
    have u: "cache (kl s) key = Some m1" "m1 = m2" "m1 < length (mutexes (kl s))"
      using linvD(3) [OF I, of t1] linvD(3) [OF I, of t2] h by auto
    have t: "t1 \<in> holders (th s) m1 md1" "t2 \<in> holders (th s) m1 md2" using h u(2) by (auto simp: holders_def)
    have "md1 = ModeR \<and> md2 = ModeR"
      using linvD(4) [OF I u(3)] t h linvD(1) [OF I, of m1 ModeR]
      by (cases md1; cases md2) (auto simp: mu_ok_def is_singleton_def split: if_splits)
    then show "md1 = ModeR" "md2 = ModeR" by simp_all
  qed
  show "acquire md mu (kl s) \<noteq> None"
    if w: "th s t = Waiting key mu md \<and> (\<forall>t' mu' md'. th s t' \<noteq> Holding key mu' md')"
  proof -
    have u: "cache (kl s) key = Some mu" "mu < length (mutexes (kl s))" using linvD(3) [OF I, of t] w by auto
    have "holders (th s) mu d = {}" for d
    proof (rule ccontr)
      assume "holders (th s) mu d \<noteq> {}"
      then obtain t' key' where t': "th s t' = Holding key' mu d" by (auto simp: holders_def)
      then have "cache (kl s) key' = Some mu" using linvD(3) [OF I, of t'] by simp
      then have "key' = key" using linvD(2) [OF I] u(1) unfolding cache_ok_def by blast
      with t' w show False by blast
    qed
    with linvD(4) [OF I u(2)] show ?thesis
      by (cases md) (auto simp: acquire_def mu_Lock_def mu_RLock_def Let_def mu_ok_def is_singleton_def split: if_splits)
  qed
qed

text \<open>Witness of C36: one thread holds a key for writing and a second one waits for it.\<close>

theorem key_locks_exclude_witness:
  "\<exists>s. lreach s \<and> th s 1 = Holding ''1,0'' 0 ModeW \<and> \<not> crashed s"
proof -
  let ?c = "\<lparr> cache = [''1,0'' \<mapsto> 0], mutexes = [\<lparr> writer = False, readers = 0 \<rparr>] \<rparr>"
  let ?s1 = "linit \<lparr> kl := ?c, th := (th linit)(1 := Waiting ''1,0'' 0 ModeW) \<rparr>"
  let ?s2 = "?s1 \<lparr> kl := ?c \<lparr> mutexes := [\<lparr> writer = True, readers = 0 \<rparr>] \<rparr>, th := (th ?s1)(1 := Holding ''1,0'' 0 ModeW) \<rparr>"
  have "lstep linit ?s1"
    by (rule lstep.look) (simp_all add: linit_def keyLocker_def find_mutex_def)
  then have "lreach ?s1" by (blast intro: lreach.intros)
  moreover have "lstep ?s1 ?s2"
    by (rule lstep.acq [of _ _ "''1,0''" 0 ModeW]) (simp_all add: acquire_def mu_Lock_def set_mutex_def)
  ultimately have "lreach ?s2" by (blast intro: lreach.intros)
  with key_locks_exclude [OF this] show ?thesis by (intro exI [of _ ?s2]) simp
qed

text \<open>
  Deleting a key while it is locked undoes the exclusion: after the deletion the key can be locked for
  writing a second time, and the first release then frees the second holder's lock.
\<close>

theorem delete_undoes_lock:
  assumes "LockFor key c = Some c1" and "cache_ok c"
  shows "LockFor key c1 = None \<and> (\<exists>c2 c3. LockFor key (kl_Delete key c1) = Some c2 \<and> UnlockFor key c2 = Released c3
    \<and> LockFor key c3 \<noteq> None)"
  using assms
  by (auto simp: LockFor_def find_mutex_def mu_Lock_def Let_def set_mutex_def kl_Delete_def UnlockFor_def mu_Unlock_def
      cache_ok_def split: option.splits if_splits)

text \<open>Witness of C38.\<close>

theorem delete_undoes_lock_witness:
  "\<exists>c1. LockFor ''1,0'' keyLocker = Some c1 \<and> LockFor ''1,0'' c1 = None \<and> LockFor ''1,0'' (kl_Delete ''1,0'' c1) \<noteq> None"
proof -
  obtain c1 where c: "LockFor ''1,0'' keyLocker = Some c1"
    by (simp add: LockFor_def find_mutex_def mu_Lock_def keyLocker_def)
  moreover have "cache_ok keyLocker" by (simp add: cache_ok_def keyLocker_def)
  ultimately show ?thesis using delete_undoes_lock [of "''1,0''" keyLocker c1] by auto
qed

end
