(* ===== verification/Slot_Pool.thy ===== *)
theory Slot_Pool
  imports Hugo_Prelude
begin

unbundle bit_operations_syntax

text \<open>
  \<^verbatim>\<open>src/pkg/util/mem/slot_pool.go\<close>: buffers from pools of slots of 1 KB, 2 KB and so on. A slice is the
  address of an array and a length; \<^verbatim>\<open>sync.Pool\<close> may hand out any buffer that was put back or make a new one,
  which an argument decides. The collector loop that \<^verbatim>\<open>init\<close> starts has no effect on values.
\<close>

section \<open>The pool\<close>

definition min_size :: nat where "min_size = 1024"

function bitCount :: "nat \<Rightarrow> nat" where
  "bitCount n = (if n > min_size then Suc (bitCount ((n + 1) div 2)) else 0)"
  by pat_completeness auto
termination by (relation "measure id") (auto simp: min_size_def)

declare bitCount.simps [simp del]

text \<open>
  Arrays live in an explicit store, since a buffer that is handed out, the pool and other components share
  them. A slice is the address of its array and its length; every slice of this code starts at the front of
  its array, so the capacity is the array's length.
\<close>

record slice =
  arr :: nat
  len :: nat

record mem =
  used :: int
  pools :: "slice list list"
  arrays :: "bytes list"

definition slice_cap :: "mem \<Rightarrow> slice \<Rightarrow> nat" where "slice_cap m s = length (arrays m ! arr s)"
definition slice_bytes :: "mem \<Rightarrow> slice \<Rightarrow> bytes" where "slice_bytes m s = take (len s) (arrays m ! arr s)"

definition make_slice :: "nat \<Rightarrow> mem \<Rightarrow> slice \<times> mem" where
  "make_slice n m = (\<lparr> arr = length (arrays m), len = n \<rparr>, m \<lparr> arrays := arrays m @ [replicate n 0] \<rparr>)"

definition slice_write :: "slice \<Rightarrow> nat \<Rightarrow> bytes \<Rightarrow> mem \<Rightarrow> mem" where
  "slice_write s off bs m = m \<lparr> arrays := (arrays m)[arr s := blit off bs (arrays m ! arr s)] \<rparr>"

definition slotSize :: "nat \<Rightarrow> nat" where "slotSize i = 1024 * 2 ^ i"

definition init_pools :: mem where
  "init_pools = \<lparr> used = 0, pools = replicate (bitCount (1024 * 1024 * 256)) [], arrays = [] \<rparr>"

definition getSlotPool :: "nat \<Rightarrow> mem \<Rightarrow> nat option" where
  "getSlotPool n m = (if bitCount n \<ge> length (pools m) then None else Some (bitCount n))"

text \<open>\<^verbatim>\<open>Get\<close> of a pool: item \<open>ch\<close> if there is one, otherwise a new buffer.\<close>

definition pool_get :: "nat \<Rightarrow> nat \<Rightarrow> mem \<Rightarrow> slice \<times> mem" where
  "pool_get i ch m = (let p = pools m ! i in
     if ch < length p then (p ! ch, m \<lparr> pools := (pools m)[i := take ch p @ drop (Suc ch) p] \<rparr>)
     else make_slice (slotSize i) m)"

definition zero :: "slice \<Rightarrow> mem \<Rightarrow> mem" where
  "zero s = slice_write s 0 (replicate (len s) 0)"

text \<open>\<^verbatim>\<open>slab[:size]\<close> panics beyond the capacity; \<^const>\<open>None\<close> is the panic.\<close>

definition Allocate :: "nat \<Rightarrow> nat \<Rightarrow> mem \<Rightarrow> (slice \<times> mem) option" where
  "Allocate ch n m = (case getSlotPool n m of
     Some i \<Rightarrow> (case pool_get i ch m of (slab, m1) \<Rightarrow>
       let m2 = m1 \<lparr> used := used m1 + int (slice_cap m1 slab) \<rparr>; r = slab \<lparr> len := n \<rparr>
       in if n \<le> slice_cap m1 slab then Some (r, zero r m2) else None)
   | None \<Rightarrow> Some (make_slice n m))"

definition Free :: "slice \<Rightarrow> mem \<Rightarrow> mem" where
  "Free buf m = (let m1 = zero buf m in
     case getSlotPool (slice_cap m1 buf) m1 of
       Some i \<Rightarrow> m1 \<lparr> used := used m1 - int (slice_cap m1 buf), pools := (pools m1)[i := pools m1 ! i @ [buf]] \<rparr>
     | None \<Rightarrow> m1)"

definition AllocMemory :: "mem \<Rightarrow> int" where "AllocMemory m = used m"

definition Align :: "slice \<Rightarrow> nat \<Rightarrow> mem \<Rightarrow> slice \<times> mem" where
  "Align p n m = (case make_slice n m of (dst, m1) \<Rightarrow> (dst, slice_write dst 0 (slice_bytes m1 p) m1))"

definition len8 :: nat where "len8 = 0xFFFFFFF8"

text \<open>The loop over 8-byte words, read as little-endian numbers.\<close>

function words_zero :: "bytes \<Rightarrow> nat \<Rightarrow> nat \<Rightarrow> bool" where
  "words_zero data i n = (if i < n then (if un_le64 (subrange i (i + 8) data) \<noteq> 0 then False else words_zero data (i + 8) n)
     else True)"
  by pat_completeness auto
termination by (relation "measure (\<lambda>(d, i, n). n - i)") auto

declare words_zero.simps [simp del]

definition IsAllBytesZero :: "bytes \<Rightarrow> bool" where
  "IsAllBytesZero data = (let nlen8 = length data AND len8 in
     words_zero data 0 nlen8 \<and> list_all (\<lambda>b. b = 0) (drop nlen8 data))"

section \<open>Slots are large enough\<close>

lemma bitCount_le: "n \<le> slotSize (bitCount n)"
proof (induction n rule: bitCount.induct)
  case (1 n)
  show ?case
  proof (cases "n > min_size")
    case True
    have "n \<le> 2 * ((n + 1) div 2)" by simp
    also have "\<dots> \<le> 2 * slotSize (bitCount ((n + 1) div 2))" using 1 True by simp
    also have "\<dots> = slotSize (bitCount n)" using True by (subst (2) bitCount.simps) (simp add: slotSize_def)
    finally show ?thesis .
  qed (simp add: bitCount.simps [of n] slotSize_def min_size_def)
qed

lemma bitCount_slot [simp]: "bitCount (slotSize i) = i"
proof (induction i)
  case (Suc i)
  have "(slotSize (Suc i) + 1) div 2 = slotSize i" by (simp add: slotSize_def)
  moreover have "slotSize (Suc i) > min_size" using one_less_power [of "2 :: nat" "Suc i"] by (simp add: slotSize_def min_size_def)
  ultimately show ?case using Suc by (subst bitCount.simps) simp
qed (simp add: bitCount.simps slotSize_def min_size_def)

text \<open>Slots are not wasteful: the next smaller slot would not do.\<close>

lemma bitCount_tight: "bitCount n = Suc i \<Longrightarrow> slotSize i < n"
proof (induction n arbitrary: i rule: bitCount.induct)
  case (1 n)
  then have n: "n > min_size" and b: "bitCount ((n + 1) div 2) = i"
    by (auto simp: bitCount.simps [of n] split: if_splits)
  show ?case
  proof (cases i)
    case 0
    with n show ?thesis by (simp add: slotSize_def min_size_def)
  next
    case (Suc j)
    from 1(1) [OF n, of j] b Suc have "slotSize j < (n + 1) div 2" by simp
    then show ?thesis using Suc by (simp add: slotSize_def)
  qed
qed

text \<open>Pools in order: slots of their size, and no array twice.\<close>

definition pooled :: "mem \<Rightarrow> nat set" where
  "pooled m = (\<Union>p \<in> set (pools m). arr ` set p)"

definition pool_ok :: "mem \<Rightarrow> bool" where
  "pool_ok m \<longleftrightarrow> length (pools m) = 18 \<and> distinct (map arr (concat (pools m)))
     \<and> (\<forall>i < 18. \<forall>s \<in> set (pools m ! i). arr s < length (arrays m) \<and> slice_cap m s = slotSize i)"

lemma pooled_concat: "pooled m = set (map arr (concat (pools m)))"
  by (auto simp: pooled_def)

lemma concat_update:
  "i < length xss \<Longrightarrow> concat (xss[i := ys]) = concat (take i xss) @ ys @ concat (drop (Suc i) xss)"
  by (simp add: upd_conv_take_nth_drop)

lemma concat_split:
  "i < length xss \<Longrightarrow> concat xss = concat (take i xss) @ xss ! i @ concat (drop (Suc i) xss)"
  using concat_update [of i xss "xss ! i"] by simp

lemma take_nth_drop: "k < length xs \<Longrightarrow> xs = take k xs @ xs ! k # drop (Suc k) xs"
  by (simp add: id_take_nth_drop)

text \<open>Taking an item out of a pool and putting one into it.\<close>

lemma distinct_take_out:
  assumes "i < length xss" and "k < length (xss ! i)" and "distinct (map f (concat xss))"
  defines "yss \<equiv> xss[i := take k (xss ! i) @ drop (Suc k) (xss ! i)]"
  shows "distinct (map f (concat yss))" "set (map f (concat yss)) = set (map f (concat xss)) - {f (xss ! i ! k)}"
proof -
  define A B where "A = concat (take i xss) @ take k (xss ! i)" and "B = drop (Suc k) (xss ! i) @ concat (drop (Suc i) xss)"
  have x: "concat xss = A @ xss ! i ! k # B"
    using concat_split [OF assms(1)] take_nth_drop [OF assms(2)] by (simp add: A_def B_def)
  have y: "concat yss = A @ B" using concat_update [OF assms(1)] by (simp add: yss_def A_def B_def)
  show "distinct (map f (concat yss))" "set (map f (concat yss)) = set (map f (concat xss)) - {f (xss ! i ! k)}"
    using assms(3) unfolding x y by auto
qed

lemma distinct_put_in:
  assumes "i < length xss" and "f x \<notin> set (map f (concat xss))" and "distinct (map f (concat xss))"
  shows "distinct (map f (concat (xss[i := xss ! i @ [x]])))"
    "set (map f (concat (xss[i := xss ! i @ [x]]))) = insert (f x) (set (map f (concat xss)))"
  using assms(2,3) unfolding concat_update [OF assms(1)] concat_split [OF assms(1)] by auto

lemma pool_ok_arr: "pool_ok m \<Longrightarrow> i < 18 \<Longrightarrow> s \<in> set (pools m ! i) \<Longrightarrow> arr s < length (arrays m) \<and> slice_cap m s = slotSize i"
  by (simp add: pool_ok_def)

lemma pool_ok_bound: "pool_ok m \<Longrightarrow> a \<in> pooled m \<Longrightarrow> a < length (arrays m)"
  by (auto simp: pooled_def in_set_conv_nth pool_ok_def) (metis nth_mem)

lemma nth_update: "xs[i := y] ! j = (if j = i \<and> i < length xs then y else xs ! j)"
  by (cases "i < length xs") (auto simp: nth_list_update list_update_beyond)

lemma slice_write_nth:
  "arrays (slice_write r off bs m) ! a = (if a = arr r \<and> arr r < length (arrays m) then blit off bs (arrays m ! a) else arrays m ! a)"
  by (auto simp: slice_write_def nth_update)

lemma slice_cap_write [simp]: "slice_cap (slice_write r off bs m) s = slice_cap m s"
  by (simp add: slice_cap_def slice_write_nth)

lemma slice_write_simps [simp]:
  "pools (slice_write r off bs m) = pools m" "used (slice_write r off bs m) = used m"
  "length (arrays (slice_write r off bs m)) = length (arrays m)"
  by (simp_all add: slice_write_def)

lemma pool_ok_write [simp]: "pool_ok (slice_write r off bs m) = pool_ok m" "pooled (slice_write r off bs m) = pooled m"
  by (simp_all add: pool_ok_def pooled_def)

lemma pool_ok_used [simp]: "pool_ok (m \<lparr> used := u \<rparr>) = pool_ok m" "pooled (m \<lparr> used := u \<rparr>) = pooled m"
  by (simp_all add: pool_ok_def pooled_def slice_cap_def)

lemma make_ok:
  assumes "pool_ok m" and "make_slice n m = (s, m')"
  shows "pool_ok m'" "pooled m' = pooled m" "arr s = length (arrays m)" "arrays m' = arrays m @ [replicate n 0]" "len s = n"
    "used m' = used m"
  using assms by (auto simp: make_slice_def pool_ok_def pooled_def slice_cap_def nth_append less_Suc_eq)

text \<open>What a pool hands out belongs to nobody else: it is new, or it was in the pool and is no more.\<close>

lemma pool_get_all:
  assumes "pool_ok m" and "i < 18" and "pool_get i ch m = (s, m')"
  shows "slice_cap m' s = slotSize i \<and> pool_ok m' \<and> used m' = used m \<and> arr s < length (arrays m')
    \<and> pooled m' = pooled m - {arr s} \<and> (\<forall>a. a < length (arrays m) \<longrightarrow> arrays m' ! a = arrays m ! a)
    \<and> (arr s \<in> pooled m \<or> arr s = length (arrays m)) \<and> length (arrays m) \<le> length (arrays m')"
proof (cases "ch < length (pools m ! i)")
  case True
  let ?p = "pools m ! i"
  have i: "i < length (pools m)" using assms by (simp add: pool_ok_def)
  have s: "s = ?p ! ch" and m': "m' = m \<lparr> pools := (pools m)[i := take ch ?p @ drop (Suc ch) ?p] \<rparr>"
    using assms(3) True by (auto simp: pool_get_def Let_def)
  note d = distinct_take_out [OF i True, of arr]
  have sub: "set ((pools m)[i := take ch ?p @ drop (Suc ch) ?p] ! j) \<subseteq> set (pools m ! j)" for j
    by (auto simp: nth_update dest: in_set_takeD in_set_dropD)
  have ok: "pool_ok m'"
    using assms(1) d(1) sub unfolding m' pool_ok_def by (simp add: slice_cap_def subset_iff)
  have P: "pooled m' = pooled m - {arr s}"
    using d(2) assms(1) by (simp add: pooled_concat m' s pool_ok_def)
  have "s \<in> set ?p" using True by (simp add: s)
  moreover have "arr s \<in> pooled m" using \<open>s \<in> set ?p\<close> i by (auto simp: pooled_def)
  ultimately show ?thesis
    using pool_ok_arr [OF assms(1,2)] ok P by (simp add: m' slice_cap_def)
next
  case False
  with assms(3) have "make_slice (slotSize i) m = (s, m')" by (simp add: pool_get_def Let_def)
  from make_ok [OF assms(1) this] pool_ok_bound [OF assms(1)]
  show ?thesis
    by (auto simp: slice_cap_def nth_append)
qed

lemma pool_get_ok:
  assumes "pool_ok m" and "i < 18" and "pool_get i ch m = (s, m')"
  shows "slice_cap m' s = slotSize i" "pool_ok m'" "used m' = used m" "arr s < length (arrays m')"
    "pooled m' = pooled m - {arr s}" "\<And>a. a < length (arrays m) \<Longrightarrow> arrays m' ! a = arrays m ! a"
    "arr s \<in> pooled m \<or> arr s = length (arrays m)" "length (arrays m) \<le> length (arrays m')"
  using pool_get_all [OF assms] by simp_all

lemma zero_bytes: "arr s < length (arrays m) \<Longrightarrow> len s \<le> slice_cap m s \<Longrightarrow> slice_bytes (zero s m) s = replicate (len s) 0"
  by (simp add: slice_bytes_def zero_def slice_write_nth slice_cap_def blit_def Let_def)

lemma Allocate_spec:
  assumes "pool_ok m"
  shows "\<exists>b m'. Allocate ch n m = Some (b, m') \<and> len b = n \<and> slice_bytes m' b = replicate n 0 \<and> pool_ok m'
    \<and> arr b \<notin> pooled m' \<and> arr b < length (arrays m') \<and> (arr b \<in> pooled m \<or> arr b = length (arrays m)) \<and> pooled m' \<subseteq> pooled m
    \<and> (\<forall>a < length (arrays m). a \<notin> pooled m \<longrightarrow> arrays m' ! a = arrays m ! a)
    \<and> length (arrays m) \<le> length (arrays m') \<and> n \<le> slice_cap m' b
    \<and> slice_cap m' b = (if n \<le> slotSize 17 then slotSize (bitCount n) else n)"
proof (cases "bitCount n < 18")
  case True
  obtain s m1 where g: "pool_get (bitCount n) ch m = (s, m1)" by fastforce
  note p = pool_get_ok [OF assms True g]
  let ?r = "s \<lparr> len := n \<rparr>" and ?m2 = "m1 \<lparr> used := used m1 + int (slice_cap m1 s) \<rparr>"
  have le: "n \<le> slice_cap m1 s" using p(1) bitCount_le [of n] by simp
  have n17: "n \<le> slotSize 17"
  proof -
    have "slotSize (bitCount n) \<le> slotSize 17" using True power_increasing [of "bitCount n" 17 "2 :: nat"] by (simp add: slotSize_def)
    with bitCount_le [of n] show ?thesis by simp
  qed
  have A: "Allocate ch n m = Some (?r, zero ?r ?m2)"
    using True assms g le by (simp add: Allocate_def getSlotPool_def pool_ok_def Let_def)
  have B: "slice_bytes (zero ?r ?m2) ?r = replicate n 0"
    using zero_bytes [of ?r ?m2] le p(4) by (simp add: slice_cap_def)
  have C: "\<forall>a < length (arrays m). a \<notin> pooled m \<longrightarrow> arrays (zero ?r ?m2) ! a = arrays m ! a"
    using p(6,7) by (auto simp: zero_def slice_write_nth)
  have D: "slice_cap (zero ?r ?m2) ?r = slotSize (bitCount n)" using p(1) by (simp add: zero_def slice_cap_def slice_write_nth)
  show ?thesis
    by (intro exI conjI) (rule A, simp, rule B, use p C D n17 le in \<open>auto simp: zero_def\<close>)
next
  case False
  have "slotSize 17 < n"
  proof -
    obtain i where i: "bitCount n = Suc i" "17 \<le> i" using False by (cases "bitCount n") auto
    have "slotSize 17 \<le> slotSize i" using i(2) power_increasing [of 17 i "2 :: nat"] by (simp add: slotSize_def)
    with bitCount_tight [OF i(1)] show ?thesis by simp
  qed
  moreover have "Allocate ch n m = Some (make_slice n m)" using False assms by (simp add: Allocate_def getSlotPool_def pool_ok_def)
  moreover obtain s m' where "make_slice n m = (s, m')" by fastforce
  ultimately show ?thesis using make_ok [OF assms, of n s m'] pool_ok_bound [OF assms]
    by (auto simp: slice_bytes_def slice_cap_def nth_append)
qed


lemma pools_number: "bitCount (1024 * 1024 * 256) = 18"
proof -
  have "1024 * 1024 * 256 = slotSize 18" by (simp add: slotSize_def)
  then show ?thesis by (metis bitCount_slot)
qed

lemma init_pools_ok: "pool_ok init_pools"
  using pools_number by (simp add: init_pools_def pool_ok_def)


lemma Free_spec:
  assumes "pool_ok m" and "arr b < length (arrays m)" and "arr b \<notin> pooled m" and "slice_cap m b = slotSize i" and "i < 18"
  shows "pool_ok (Free b m) \<and> used (Free b m) = used m - int (slotSize i) \<and> pooled (Free b m) = insert (arr b) (pooled m)
    \<and> arrays (Free b m) ! arr b = blit 0 (replicate (len b) 0) (arrays m ! arr b)
    \<and> (\<forall>a. a \<noteq> arr b \<longrightarrow> arrays (Free b m) ! a = arrays m ! a)"
proof -
  let ?z = "zero b m"
  let ?f = "?z \<lparr> used := used m - int (slotSize i), pools := (pools m)[i := pools m ! i @ [b]] \<rparr>"
  have F: "Free b m = ?f"
    using assms by (simp add: Free_def Let_def getSlotPool_def zero_def pool_ok_def)
  have l: "i < length (pools m)" using assms by (simp add: pool_ok_def)
  have d: "distinct (map arr (concat (pools m)))" using assms(1) by (simp add: pool_ok_def)
  note dp = distinct_put_in [OF l _ d, of b, folded pooled_concat, OF assms(3)]
  have z: "pool_ok ?z" using assms(1) by (simp add: zero_def)
  have cap: "slice_cap ?f = slice_cap m" by (rule ext) (simp add: slice_cap_def zero_def slice_write_nth)
  have "pool_ok ?f"
    using assms(1) dp(1) assms(2,4) unfolding pool_ok_def cap by (auto simp: nth_update zero_def split: if_splits)
  moreover have "pooled ?f = insert (arr b) (pooled m)" using dp(2) by (simp add: pooled_concat zero_def)
  ultimately show ?thesis unfolding F using assms(2) by (simp add: zero_def slice_write_nth)
qed

text \<open>
  Giving back a buffer that is not in the pool and whose capacity is a slot size keeps the pools in
  order and takes its capacity off the account; the array is pooled, and its front is wiped.
\<close>

theorem Free_ok:
  assumes "pool_ok m" and "arr b < length (arrays m)" and "arr b \<notin> pooled m" and "slice_cap m b = slotSize i" and "i < 18"
  shows "pool_ok (Free b m) \<and> used (Free b m) = used m - int (slotSize i) \<and> pooled (Free b m) = insert (arr b) (pooled m)
    \<and> arrays (Free b m) ! arr b = blit 0 (replicate (len b) 0) (arrays m ! arr b)
    \<and> (\<forall>a. a \<noteq> arr b \<longrightarrow> arrays (Free b m) ! a = arrays m ! a)"
  using Free_spec [OF assms] .

text \<open>Witness of C38: a slot of 2 KB.\<close>

theorem Free_ok_witness:
  "\<exists>b m. make_slice 2048 init_pools = (b, m) \<and> pool_ok (Free b m) \<and> pooled (Free b m) = {0}"
proof -
  obtain b m where b: "make_slice 2048 init_pools = (b, m)" by fastforce
  note k = make_ok [OF init_pools_ok b]
  have "pooled m = {}" using k(2) by (auto simp: pooled_def init_pools_def)
  moreover have "arrays m = [replicate 2048 0]" "arr b = 0" using k by (simp_all add: init_pools_def)
  ultimately have "pool_ok (Free b m) \<and> pooled (Free b m) = {0}"
    using Free_ok [OF k(1), of b 1] by (simp add: slice_cap_def slotSize_def)
  with b show ?thesis by blast
qed

text \<open>
  A buffer that does not come from the pools spoils them: one of 1500 bytes is put with the slots of
  2 KB, and the next allocation of 2000 bytes panics.
\<close>

theorem Free_foreign_panics: "Allocate 0 2000 (case make_slice 1500 init_pools of (b, m) \<Rightarrow> Free b m) = None"
proof -
  have b: "bitCount 1500 = 1" "bitCount 2000 = 1" by (simp_all add: bitCount.simps min_size_def)
  show ?thesis using pools_number
    by (simp add: Free_def Allocate_def getSlotPool_def pool_get_def init_pools_def make_slice_def slice_cap_def
        zero_def slice_write_nth Let_def b)
qed

section \<open>Testing for zero\<close>

lemma un_le64_zero: "length bs = 8 \<Longrightarrow> un_le64 bs = 0 \<longleftrightarrow> bs = replicate 8 0"
proof
  assume l: "length bs = 8" and "un_le64 bs = 0"
  then have "bs = le64 0" using le64_un_le64 [OF l] by simp
  also have "\<dots> = replicate 8 0" by code_simp
  finally show "bs = replicate 8 0" .
next
  have "un_le64 (replicate 8 0) = 0" by code_simp
  then show "un_le64 bs = 0" if "bs = replicate 8 0" using that by simp
qed

lemma words_zero_iff:
  assumes "m mod 8 = 0" and "i mod 8 = 0" and "m \<le> length data"
  shows "words_zero data i m \<longleftrightarrow> (\<forall>j. i \<le> j \<and> j < m \<longrightarrow> data ! j = 0)"
  using assms
proof (induction data i m rule: words_zero.induct)
  case (1 data i n)
  show ?case
  proof (cases "i < n")
    case True
    have le: "i + 8 \<le> n" using 1(2,3) True by presburger
    have w: "un_le64 (subrange i (i + 8) data) = 0 \<longleftrightarrow> (\<forall>j. i \<le> j \<and> j < i + 8 \<longrightarrow> data ! j = 0)"
    proof -
      have "length (subrange i (i + 8) data) = 8" using le 1(4) by simp
      from un_le64_zero [OF this] show ?thesis using le 1(4)
        by (auto simp: list_eq_iff_nth_eq nth_subrange) (metis add_diff_inverse_nat nat_add_left_cancel_less not_less)
    qed
    have IH: "words_zero data (i + 8) n \<longleftrightarrow> (\<forall>j. i + 8 \<le> j \<and> j < n \<longrightarrow> data ! j = 0)"
      if "un_le64 (subrange i (i + 8) data) = 0" using 1(1) [OF True] that 1(2-4) by simp
    show ?thesis using True w IH le by (subst words_zero.simps) (auto, metis not_less)
  next
    case False
    then show ?thesis by (subst words_zero.simps) auto
  qed
qed

lemma and_len8: "(n AND len8) mod 8 = 0" "n AND len8 \<le> n"
proof -
  have "take_bit 3 (n AND len8) = 0" by (simp add: len8_def)
  then show "(n AND len8) mod 8 = 0" by (simp add: take_bit_eq_mod)
  have "int (n AND len8) \<le> int n" by (simp add: of_nat_and_eq AND_upper1)
  then show "n AND len8 \<le> n" by simp
qed

lemma all_zero_iff: "IsAllBytesZero data = (data = replicate (length data) 0)"
proof -
  let ?m = "length data AND len8"
  have "words_zero data 0 ?m \<longleftrightarrow> (\<forall>j < ?m. data ! j = 0)"
    using words_zero_iff [of ?m 0 data] and_len8 by simp
  moreover have "list_all (\<lambda>b. b = 0) (drop ?m data) \<longleftrightarrow> (\<forall>j. ?m \<le> j \<and> j < length data \<longrightarrow> data ! j = 0)"
    by (auto simp: list_all_length) (metis add_diff_inverse_nat diff_less_mono not_less)
  ultimately show ?thesis using and_len8(2) [of "length data"]
    by (auto simp: IsAllBytesZero_def Let_def list_eq_iff_nth_eq) (metis not_less)
qed

text \<open>C39. The word-wise test for zero agrees with testing each byte.\<close>

theorem IsAllBytesZero_spec: "IsAllBytesZero data = (data = replicate (length data) 0)"
  by (rule all_zero_iff)

end
