(* ===== verification/Interval_List.thy ===== *)
theory Interval_List
  imports Hugo_Prelude
begin

text \<open>
  \<^verbatim>\<open>src/pkg/storage/adaptor/interval.go\<close>: the list of written intervals of a block, a doubly linked list
  between two sentinels. Pointers are addresses of an explicit store, since what \<^verbatim>\<open>AddInterval\<close> and
  \<^verbatim>\<open>Merge\<close> do to the forward and the backward chain is not the same. Offsets are integers within 64 bits; the value
  of an interval and the mutex are left out.
\<close>

section \<open>The list\<close>

definition MinInt :: int where "MinInt = - (2 ^ 63)"
definition MaxInt :: int where "MaxInt = 2 ^ 63 - 1"

record Interval =
  start_of :: int
  end_of :: int
  Prev :: "nat option"
  Next :: "nat option"

text \<open>The sentinels \<^verbatim>\<open>head\<close> and \<^verbatim>\<open>tail\<close> live at the addresses 0 and 1; \<open>free\<close> is the next free address.\<close>

record IntervalList =
  node :: "nat \<Rightarrow> Interval"
  free :: nat

definition head :: nat where "head = 0"
definition tail :: nat where "tail = 1"

definition NewInterval :: "int \<Rightarrow> int \<Rightarrow> Interval" where
  "NewInterval s e = \<lparr> start_of = s, end_of = e, Prev = None, Next = None \<rparr>"

definition Interval_Size :: "Interval \<Rightarrow> int" where
  "Interval_Size x = end_of x - start_of x"

definition Effective :: "Interval \<Rightarrow> bool" where
  "Effective x \<longleftrightarrow> \<not> (start_of x > end_of x \<or> start_of x = MinInt \<or> end_of x = MaxInt)"

definition NewIntervalList :: IntervalList where
  "NewIntervalList = \<lparr> node = (\<lambda>_. NewInterval 0 0)
     (head := \<lparr> start_of = MinInt, end_of = MinInt, Prev = None, Next = Some tail \<rparr>,
      tail := \<lparr> start_of = MaxInt, end_of = MaxInt, Prev = Some head, Next = None \<rparr>), free = 2 \<rparr>"

definition alloc :: "Interval \<Rightarrow> IntervalList \<Rightarrow> nat \<times> IntervalList" where
  "alloc x l = (free l, l \<lparr> node := (node l)(free l := x), free := Suc (free l) \<rparr>)"

definition set_next :: "nat \<Rightarrow> nat option \<Rightarrow> IntervalList \<Rightarrow> IntervalList" where
  "set_next a v l = l \<lparr> node := (node l)(a := (node l a) \<lparr> Next := v \<rparr>) \<rparr>"

definition set_prev :: "nat \<Rightarrow> nat option \<Rightarrow> IntervalList \<Rightarrow> IntervalList" where
  "set_prev a v l = l \<lparr> node := (node l)(a := (node l a) \<lparr> Prev := v \<rparr>) \<rparr>"

definition set_end :: "nat \<Rightarrow> int \<Rightarrow> IntervalList \<Rightarrow> IntervalList" where
  "set_end a v l = l \<lparr> node := (node l)(a := (node l a) \<lparr> end_of := v \<rparr>) \<rparr>"

definition Front :: "IntervalList \<Rightarrow> nat option" where
  "Front l = (case Next (node l head) of None \<Rightarrow> None
     | Some n \<Rightarrow> if start_of (node l n) = MaxInt then None else Some n)"

definition AppendInterval :: "nat \<Rightarrow> IntervalList \<Rightarrow> IntervalList" where
  "AppendInterval i l = (
     let l1 = (if Next (node l head) = None then set_next head (Some i) l else l);
         l2 = set_next i (Some tail) (set_prev i (Prev (node l1 tail)) l1);
         l3 = (case Prev (node l2 tail) of None \<Rightarrow> l2 | Some t \<Rightarrow> set_next t (Some i) l2)
     in set_prev tail (Some i) l3)"

text \<open>
  The two searches of \<^verbatim>\<open>AddInterval\<close>. The fuel counts steps; a chain has at most \<open>free\<close> nodes, so
  \<open>free\<close> steps are enough (\<open>find_p_rep\<close>, \<open>find_q_rep\<close>). Running out of it is \<^const>\<open>None\<close>.
\<close>

fun find_p :: "nat \<Rightarrow> IntervalList \<Rightarrow> int \<Rightarrow> nat \<Rightarrow> nat option" where
  "find_p 0 l s p = None"
| "find_p (Suc k) l s p = (case Next (node l p) of
     Some n \<Rightarrow> if end_of (node l n) \<le> s then find_p k l s n else Some p
   | None \<Rightarrow> Some p)"

fun find_q :: "nat \<Rightarrow> IntervalList \<Rightarrow> int \<Rightarrow> nat \<Rightarrow> nat option" where
  "find_q 0 l e q = None"
| "find_q (Suc k) l e q = (case Prev (node l q) of
     Some n \<Rightarrow> if start_of (node l n) \<ge> e then find_q k l e n else Some q
   | None \<Rightarrow> Some q)"

definition link_left :: "nat \<Rightarrow> int \<Rightarrow> nat \<Rightarrow> IntervalList \<Rightarrow> IntervalList" where
  "link_left i s p l = (
     let plain = (let l1 = set_next p (Some i) l in if p \<noteq> head then set_prev i (Some p) l1 else l1)
     in case Next (node l p) of
          None \<Rightarrow> plain
        | Some n \<Rightarrow> if start_of (node l n) < s then
              (case alloc (NewInterval (start_of (node l n)) s) l of (t, l1) \<Rightarrow>
                 let l2 = set_next p (Some t) l1;
                     l3 = (if p \<noteq> head then set_prev t (Some p) l2 else l2)
                 in set_prev i (Some t) (set_next t (Some i) l3))
            else plain)"

definition link_right :: "nat \<Rightarrow> int \<Rightarrow> nat \<Rightarrow> IntervalList \<Rightarrow> IntervalList" where
  "link_right i e q l = (
     let plain = (let l1 = set_prev q (Some i) l in if q \<noteq> tail then set_next i (Some q) l1 else l1)
     in case Prev (node l q) of
          None \<Rightarrow> plain
        | Some n \<Rightarrow> if e < end_of (node l n) then
              (case alloc (NewInterval e (end_of (node l n))) l of (t, l1) \<Rightarrow>
                 let l2 = set_prev q (Some t) l1;
                     l3 = (if q \<noteq> tail then set_next t (Some q) l2 else l2)
                 in set_prev t (Some i) (set_next i (Some t) l3))
            else plain)"

definition AddInterval :: "nat \<Rightarrow> IntervalList \<Rightarrow> IntervalList option" where
  "AddInterval i l = (
     let s = start_of (node l i); e = end_of (node l i)
     in if s \<ge> e then Some l
        else (case find_p (free l) l s head of None \<Rightarrow> None
          | Some p \<Rightarrow> (case find_q (free l) l e tail of None \<Rightarrow> None
          | Some q \<Rightarrow> Some (link_right i e q (link_left i s p l)))))"

text \<open>
  \<^verbatim>\<open>doMerge\<close>: an interval that starts where \<open>prev\<close> ends is joined to it; at the end of the chain the
  backward pointer of the sentinel stays at the joined interval.
\<close>

fun merge_loop :: "nat \<Rightarrow> nat \<Rightarrow> nat option \<Rightarrow> IntervalList \<Rightarrow> IntervalList option" where
  "merge_loop 0 prev p l = None"
| "merge_loop (Suc k) prev p l = (case p of
     None \<Rightarrow> Some l
   | Some a \<Rightarrow> if a = tail then Some l
       else if start_of (node l a) = end_of (node l prev) then
         (let l1 = set_next prev (Next (node l a)) (set_end prev (end_of (node l a)) l)
          in case Next (node l a) of
               Some b \<Rightarrow> merge_loop k prev (Next (node (set_prev b (Some prev) l1) a)) (set_prev b (Some prev) l1)
             | None \<Rightarrow> merge_loop k a (Next (node l1 a)) l1)
       else merge_loop k a (Next (node l a)) l)"

definition doMerge :: "IntervalList \<Rightarrow> IntervalList option" where
  "doMerge l = merge_loop (free l) head (Next (node l head)) l"

fun chain :: "nat \<Rightarrow> nat option \<Rightarrow> IntervalList \<Rightarrow> nat list option" where
  "chain 0 p l = None"
| "chain (Suc k) p l = (case p of None \<Rightarrow> Some []
     | Some a \<Rightarrow> if a = tail then Some [] else map_option (Cons a) (chain k (Next (node l a)) l))"

text \<open>The loops of \<^verbatim>\<open>Copy\<close> and \<^verbatim>\<open>Total\<close> run over this chain.\<close>

definition walk :: "IntervalList \<Rightarrow> nat list option" where
  "walk l = chain (free l) (Next (node l head)) l"

definition Total :: "IntervalList \<Rightarrow> int option" where
  "Total l = map_option (\<lambda>as. sum_list (map (\<lambda>a. Interval_Size (node l a)) as)) (walk l)"

text \<open>A slice expression with a negative lower bound panics.\<close>

datatype copy_error = ErrByteArrLenNotmatched | CopyPanic

fun copy_loop :: "Interval list \<Rightarrow> bytes \<Rightarrow> bytes \<Rightarrow> nat \<Rightarrow> copy_error + bytes \<times> nat" where
  "copy_loop [] dst src n = Inr (dst, n)"
| "copy_loop (x # xs) dst src n =
     (if end_of x < int (length src) \<and> end_of x < int (length dst) then
        (if 0 \<le> start_of x \<and> start_of x \<le> end_of x
         then copy_loop xs (blit (nat (start_of x)) (subrange (nat (start_of x)) (nat (end_of x)) src) dst) src
                (n + nat (end_of x - start_of x))
         else Inl CopyPanic)
      else copy_loop xs dst src n)"

definition Copy :: "IntervalList \<Rightarrow> bytes \<Rightarrow> bytes \<Rightarrow> (IntervalList \<times> (copy_error + bytes \<times> nat)) option" where
  "Copy l dst src = (case doMerge l of None \<Rightarrow> None | Some l1 \<Rightarrow>
     if length dst \<noteq> length src then Some (l1, Inl ErrByteArrLenNotmatched)
     else (case walk l1 of None \<Rightarrow> None
       | Some as \<Rightarrow> Some (l1, copy_loop (map (node l1) as) dst src 0)))"

section \<open>What a list stands for\<close>

text \<open>
  The two chains as paths: \<open>fpath l p as\<close> follows \<^const>\<open>Next\<close> from \<open>p\<close> over \<open>as\<close> to the end of the chain,
  \<open>bpath\<close> follows \<^const>\<open>Prev\<close>.
\<close>

fun fpath :: "IntervalList \<Rightarrow> nat \<Rightarrow> nat list \<Rightarrow> bool" where
  "fpath l p [] \<longleftrightarrow> Next (node l p) = None \<or> Next (node l p) = Some tail"
| "fpath l p (a # as) \<longleftrightarrow> Next (node l p) = Some a \<and> fpath l a as"

fun bpath :: "IntervalList \<Rightarrow> nat \<Rightarrow> nat list \<Rightarrow> bool" where
  "bpath l q [] \<longleftrightarrow> Prev (node l q) = None \<or> Prev (node l q) = Some head"
| "bpath l q (a # as) \<longleftrightarrow> Prev (node l q) = Some a \<and> bpath l a as"

definition val :: "IntervalList \<Rightarrow> nat \<Rightarrow> int \<times> int" where
  "val l a = (start_of (node l a), end_of (node l a))"

text \<open>Intervals in order, not empty, disjoint, and away from the sentinels.\<close>

definition ordered :: "(int \<times> int) list \<Rightarrow> bool" where
  "ordered xs \<longleftrightarrow> sorted_wrt (\<lambda>x y. snd x \<le> fst y) xs \<and> (\<forall>x \<in> set xs. fst x < snd x \<and> MinInt < fst x \<and> snd x < MaxInt)"

definition rep :: "IntervalList \<Rightarrow> nat list \<Rightarrow> bool" where
  "rep l as \<longleftrightarrow> fpath l head as \<and> bpath l tail (rev as) \<and> distinct (head # tail # as) \<and> (\<forall>a \<in> set as. a < free l)
     \<and> 2 \<le> free l \<and> ordered (map (val l) as) \<and> val l head = (MinInt, MinInt) \<and> val l tail = (MaxInt, MaxInt)"

text \<open>What adding an interval means: it cuts a hole and fills it.\<close>

definition overlay :: "int \<times> int \<Rightarrow> (int \<times> int) list \<Rightarrow> (int \<times> int) list" where
  "overlay x xs = (
     let (s, e) = x;
         l = takeWhile (\<lambda>y. snd y \<le> s) xs; m = takeWhile (\<lambda>y. fst y < e) (dropWhile (\<lambda>y. snd y \<le> s) xs);
         r = dropWhile (\<lambda>y. fst y < e) (dropWhile (\<lambda>y. snd y \<le> s) xs)
     in l @ (if m \<noteq> [] \<and> fst (hd m) < s then [(fst (hd m), s)] else []) @ [(s, e)]
          @ (if m \<noteq> [] \<and> e < snd (last m) then [(e, snd (last m))] else []) @ r)"

definition covered :: "(int \<times> int) list \<Rightarrow> int set" where
  "covered xs = (\<Union>x \<in> set xs. {fst x ..< snd x})"

subsection \<open>The mathematics of intervals\<close>

lemma ordered_append:
  "ordered (xs @ ys) \<longleftrightarrow> ordered xs \<and> ordered ys \<and> (\<forall>x \<in> set xs. \<forall>y \<in> set ys. snd x \<le> fst y)"
  by (auto simp: ordered_def sorted_wrt_append)

lemma ordered_Cons:
  "ordered (x # xs) \<longleftrightarrow> fst x < snd x \<and> MinInt < fst x \<and> snd x < MaxInt \<and> ordered xs \<and> (\<forall>y \<in> set xs. snd x \<le> fst y)"
  by (auto simp: ordered_def)

lemma ordered_Nil [simp]: "ordered []"
  by (simp add: ordered_def)

lemma ordered_elem: "ordered xs \<Longrightarrow> y \<in> set xs \<Longrightarrow> fst y < snd y \<and> MinInt < fst y \<and> snd y < MaxInt"
  by (simp add: ordered_def)

text \<open>An ordered list splits into what lies before, meets, and lies behind an interval.\<close>

lemma split3:
  assumes "ordered xs" and "s < e"
  obtains l m r where "xs = l @ m @ r" "\<And>y. y \<in> set l \<Longrightarrow> snd y \<le> s" "\<And>y. y \<in> set m \<Longrightarrow> s < snd y \<and> fst y < e"
    "\<And>y. y \<in> set r \<Longrightarrow> e \<le> fst y"
    "l = takeWhile (\<lambda>y. snd y \<le> s) xs" "m = takeWhile (\<lambda>y. fst y < e) (dropWhile (\<lambda>y. snd y \<le> s) xs)"
    "r = dropWhile (\<lambda>y. fst y < e) (dropWhile (\<lambda>y. snd y \<le> s) xs)"
proof -
  define d where "d = dropWhile (\<lambda>y. snd y \<le> s) xs"
  have xs: "xs = takeWhile (\<lambda>y. snd y \<le> s) xs @ d" by (simp add: d_def)
  have od: "ordered d" using assms(1) xs ordered_append by metis
  have d: "s < snd y" if "y \<in> set d" for y
  proof (cases d)
    case (Cons z zs)
    then have "\<not> snd z \<le> s" using hd_dropWhile [of "\<lambda>y. snd y \<le> s" xs] by (auto simp: d_def)
    with that Cons od ordered_elem [OF od that] show ?thesis by (auto simp: ordered_Cons)
  qed (use that in simp)
  have r: "e \<le> fst y" if "y \<in> set (dropWhile (\<lambda>y. fst y < e) d)" for y
  proof (cases "dropWhile (\<lambda>y. fst y < e) d")
    case (Cons z zs)
    then have "\<not> fst z < e" using hd_dropWhile [of "\<lambda>y. fst y < e" d] by auto
    moreover have "ordered (z # zs)" using od Cons ordered_append [of "takeWhile (\<lambda>y. fst y < e) d" "z # zs"]
      by (metis takeWhile_dropWhile_id)
    ultimately show ?thesis using that Cons by (auto simp: ordered_Cons)
  next
    case Nil
    with that show ?thesis by (simp only: list.set empty_iff)
  qed
  show thesis
    by (rule that [of "takeWhile (\<lambda>y. snd y \<le> s) xs" "takeWhile (\<lambda>y. fst y < e) d" "dropWhile (\<lambda>y. fst y < e) d"])
      (use r d in \<open>auto simp: d_def dest: set_takeWhileD\<close>)
qed

lemma overlay_split:
  assumes "ordered xs" and "s < e"
  obtains l m r where "xs = l @ m @ r" "\<And>y. y \<in> set l \<Longrightarrow> snd y \<le> s" "\<And>y. y \<in> set m \<Longrightarrow> s < snd y \<and> fst y < e"
    "\<And>y. y \<in> set r \<Longrightarrow> e \<le> fst y"
    "overlay (s, e) xs = l @ (if m \<noteq> [] \<and> fst (hd m) < s then [(fst (hd m), s)] else []) @ [(s, e)]
          @ (if m \<noteq> [] \<and> e < snd (last m) then [(e, snd (last m))] else []) @ r"
proof (rule split3 [OF assms])
  fix l m r
  assume x: "xs = l @ m @ r" "\<And>y. y \<in> set l \<Longrightarrow> snd y \<le> s" "\<And>y. y \<in> set m \<Longrightarrow> s < snd y \<and> fst y < e"
    "\<And>y. y \<in> set r \<Longrightarrow> e \<le> fst y"
    and d: "l = takeWhile (\<lambda>y. snd y \<le> s) xs" "m = takeWhile (\<lambda>y. fst y < e) (dropWhile (\<lambda>y. snd y \<le> s) xs)"
    "r = dropWhile (\<lambda>y. fst y < e) (dropWhile (\<lambda>y. snd y \<le> s) xs)"
  show thesis by (rule that [OF x]) (simp_all only: overlay_def Let_def prod.case d)
qed

lemma ordered_hd: "ordered m \<Longrightarrow> y \<in> set m \<Longrightarrow> y = hd m \<or> snd (hd m) \<le> fst y"
  by (cases m) (auto simp: ordered_Cons)

lemma ordered_last: "ordered m \<Longrightarrow> y \<in> set m \<Longrightarrow> y = last m \<or> snd y \<le> fst (last m)"
  by (cases m rule: rev_cases) (auto simp: ordered_append)

lemma covered_simps [simp]:
  "covered [] = {}" "covered (x # xs) = {fst x ..< snd x} \<union> covered xs" "covered (xs @ ys) = covered xs \<union> covered ys"
  by (auto simp: covered_def)

lemma covered_middle:
  assumes "ordered m" and "\<And>y. y \<in> set m \<Longrightarrow> s < snd y \<and> fst y < e" and "s < e"
  shows "covered ((if m \<noteq> [] \<and> fst (hd m) < s then [(fst (hd m), s)] else []) @ [(s, e)]
      @ (if m \<noteq> [] \<and> e < snd (last m) then [(e, snd (last m))] else [])) = covered m \<union> {s ..< e}" (is "?l = ?r")
proof
  show "?l \<subseteq> ?r"
  proof
    fix x assume x: "x \<in> ?l"
    consider "s \<le> x" "x < e" | "m \<noteq> []" "fst (hd m) \<le> x" "x < s" | "m \<noteq> []" "e \<le> x" "x < snd (last m)"
      using x by (force split: if_splits)
    then show "x \<in> ?r"
    proof cases
      case 2
      with assms(2) [of "hd m"] have "x \<in> {fst (hd m) ..< snd (hd m)}" by simp
      with 2 show ?thesis by (auto simp: covered_def)
    next
      case 3
      with assms(2) [of "last m"] have "x \<in> {fst (last m) ..< snd (last m)}" by simp
      with 3 show ?thesis by (auto simp: covered_def)
    qed simp
  qed
  show "?r \<subseteq> ?l"
  proof
    fix x assume "x \<in> ?r"
    then consider "s \<le> x" "x < e" | y where "y \<in> set m" "fst y \<le> x" "x < snd y" "x < s \<or> e \<le> x"
      by (force simp: covered_def)
    then show "x \<in> ?l"
    proof cases
      case (2 y)
      have m: "m \<noteq> []" using 2(1) by auto
      show ?thesis
      proof (cases "x < s")
        case True
        with 2 assms(2) [of "hd m"] m ordered_hd [OF assms(1) 2(1)] have "y = hd m" by force
        with 2 m True show ?thesis by force
      next
        case False
        with 2 assms(2) [of "last m"] m ordered_last [OF assms(1) 2(1)] have "y = last m" by force
        with 2 m False show ?thesis by force
      qed
    qed auto
  qed
qed

lemma overlay_covered:
  assumes "ordered xs" and "s < e"
  shows "covered (overlay (s, e) xs) = covered xs \<union> {s ..< e}"
proof -
  from overlay_split [OF assms] obtain l m r where x: "xs = l @ m @ r" "\<And>y. y \<in> set m \<Longrightarrow> s < snd y \<and> fst y < e"
    "overlay (s, e) xs = l @ (if m \<noteq> [] \<and> fst (hd m) < s then [(fst (hd m), s)] else []) @ [(s, e)]
          @ (if m \<noteq> [] \<and> e < snd (last m) then [(e, snd (last m))] else []) @ r" by metis
  have "ordered m" using assms(1) x(1) by (simp add: ordered_append)
  from covered_middle [OF this x(2) assms(2)]
  have "covered (overlay (s, e) xs) = covered l \<union> (covered m \<union> {s ..< e}) \<union> covered r"
    unfolding x(3) covered_simps by blast
  with x(1) show ?thesis by auto
qed

lemma overlay_ordered:
  assumes "ordered xs" and "s < e" and "MinInt < s" and "e < MaxInt"
  shows "ordered (overlay (s, e) xs)"
proof -
  from overlay_split [OF assms(1,2)] obtain l m r where x: "xs = l @ m @ r" "\<And>y. y \<in> set l \<Longrightarrow> snd y \<le> s"
    "\<And>y. y \<in> set m \<Longrightarrow> s < snd y \<and> fst y < e" "\<And>y. y \<in> set r \<Longrightarrow> e \<le> fst y"
    "overlay (s, e) xs = l @ (if m \<noteq> [] \<and> fst (hd m) < s then [(fst (hd m), s)] else []) @ [(s, e)]
          @ (if m \<noteq> [] \<and> e < snd (last m) then [(e, snd (last m))] else []) @ r" by metis
  from assms(1) x(1) have o: "ordered l" "ordered m" "ordered r"
    "\<And>y z. y \<in> set l \<Longrightarrow> z \<in> set m \<Longrightarrow> snd y \<le> fst z" "\<And>y z. y \<in> set m \<Longrightarrow> z \<in> set r \<Longrightarrow> snd y \<le> fst z"
    "\<And>y z. y \<in> set l \<Longrightarrow> z \<in> set r \<Longrightarrow> snd y \<le> fst z"
    by (auto simp: ordered_append)
  have h: "MinInt < fst (hd m) \<and> (\<forall>y \<in> set l. snd y \<le> fst (hd m))" if "m \<noteq> []"
    using that ordered_elem [OF o(2), of "hd m"] o(4) by simp
  have t: "snd (last m) < MaxInt \<and> (\<forall>z \<in> set r. snd (last m) \<le> fst z)" if "m \<noteq> []"
    using that ordered_elem [OF o(2), of "last m"] o(5) by simp
  have "\<forall>y \<in> set l. snd y \<le> s" "\<forall>z \<in> set r. e \<le> fst z" using x by auto
  with o(1,3,6) h t assms(2-4) show ?thesis unfolding x(5)
    by (auto simp: ordered_append ordered_Cons)
qed

subsection \<open>Paths\<close>

lemma fpath_cong:
  "(\<And>a. a \<in> set (p # as) \<Longrightarrow> Next (node l' a) = Next (node l a)) \<Longrightarrow> fpath l' p as = fpath l p as"
  by (induction as arbitrary: p) auto

lemma bpath_cong:
  "(\<And>a. a \<in> set (q # as) \<Longrightarrow> Prev (node l' a) = Prev (node l a)) \<Longrightarrow> bpath l' q as = bpath l q as"
  by (induction as arbitrary: q) auto

lemma fpath_suffix: "fpath l p (xs @ ys) \<Longrightarrow> fpath l (last (p # xs)) ys"
  by (induction xs arbitrary: p) auto

lemma bpath_suffix: "bpath l q (xs @ ys) \<Longrightarrow> bpath l (last (q # xs)) ys"
  by (induction xs arbitrary: q) auto

lemma fpath_join:
  "fpath l p (xs @ zs) \<Longrightarrow> (\<And>a. a \<in> set (butlast (p # xs)) \<Longrightarrow> Next (node l' a) = Next (node l a)) \<Longrightarrow>
   fpath l' (last (p # xs)) ys \<Longrightarrow> fpath l' p (xs @ ys)"
  by (induction xs arbitrary: p) auto

lemma bpath_join:
  "bpath l q (xs @ zs) \<Longrightarrow> (\<And>a. a \<in> set (butlast (q # xs)) \<Longrightarrow> Prev (node l' a) = Prev (node l a)) \<Longrightarrow>
   bpath l' (last (q # xs)) ys \<Longrightarrow> bpath l' q (xs @ ys)"
  by (induction xs arbitrary: q) auto

lemma find_p_path:
  assumes "fpath l p (xs @ ys)" and "\<And>a. a \<in> set xs \<Longrightarrow> end_of (node l a) \<le> s"
    and "ys \<noteq> [] \<Longrightarrow> s < end_of (node l (hd ys))" and "s < end_of (node l tail)" and "length xs < k"
  shows "find_p k l s p = Some (last (p # xs))"
  using assms
proof (induction xs arbitrary: p k)
  case Nil
  then obtain j where "k = Suc j" by (cases k) auto
  with Nil show ?case by (cases ys) auto
next
  case (Cons x xs)
  then obtain j where "k = Suc j" by (cases k) auto
  with Cons show ?case by auto
qed

lemma find_q_path:
  assumes "bpath l q (xs @ ys)" and "\<And>a. a \<in> set xs \<Longrightarrow> e \<le> start_of (node l a)"
    and "ys \<noteq> [] \<Longrightarrow> start_of (node l (hd ys)) < e" and "start_of (node l head) < e" and "length xs < k"
  shows "find_q k l e q = Some (last (q # xs))"
  using assms
proof (induction xs arbitrary: q k)
  case Nil
  then obtain j where "k = Suc j" by (cases k) auto
  with Nil show ?case by (cases ys) auto
next
  case (Cons x xs)
  then obtain j where "k = Suc j" by (cases k) auto
  with Cons show ?case by auto
qed

lemma butlast_neq_last: "distinct (x # xs) \<Longrightarrow> a \<in> set (butlast (x # xs)) \<Longrightarrow> a \<noteq> last (x # xs)"
  by (cases xs rule: rev_cases) (auto simp: butlast_append)

subsection \<open>Linking an interval in\<close>

text \<open>The nodes after \<^const>\<open>link_left\<close>; \<open>t\<close> is the fragment to the left if there is one.\<close>

lemma link_left_nodes:
  assumes "Next (node l p) = None \<or> Next (node l p) = Some n" and "i \<noteq> p" and "p < free l" and "i < free l"
    and c: "c \<longleftrightarrow> Next (node l p) = Some n \<and> start_of (node l n) < s" and l1: "l1 = link_left i s p l" and t: "t = free l"
  shows "\<And>a. a \<noteq> p \<Longrightarrow> a \<noteq> t \<Longrightarrow> Next (node l1 a) = Next (node l a)"
    and "\<And>a. a \<noteq> i \<Longrightarrow> a \<noteq> t \<Longrightarrow> Prev (node l1 a) = Prev (node l a)"
    and "\<And>a. a \<noteq> t \<Longrightarrow> val l1 a = val l a"
    and "Next (node l1 p) = Some (if c then t else i)" and "free l1 = (if c then Suc t else t)"
    and "c \<Longrightarrow> Next (node l1 t) = Some i \<and> val l1 t = (start_of (node l n), s) \<and> Prev (node l1 i) = Some t
       \<and> Prev (node l1 t) = (if p = head then None else Some p)"
    and "\<not> c \<Longrightarrow> Prev (node l1 i) = (if p = head then Prev (node l i) else Some p)"
  using assms(1-4)
  by (auto simp: l1 t c link_left_def alloc_def set_next_def set_prev_def val_def NewInterval_def Let_def
      split: option.splits)

lemma link_right_nodes:
  assumes "Prev (node l q) = None \<or> Prev (node l q) = Some n" and "i \<noteq> q" and "q < free l" and "i < free l"
    and c: "c \<longleftrightarrow> Prev (node l q) = Some n \<and> e < end_of (node l n)" and l1: "l1 = link_right i e q l" and t: "t = free l"
  shows "\<And>a. a \<noteq> q \<Longrightarrow> a \<noteq> t \<Longrightarrow> Prev (node l1 a) = Prev (node l a)"
    and "\<And>a. a \<noteq> i \<Longrightarrow> a \<noteq> t \<Longrightarrow> Next (node l1 a) = Next (node l a)"
    and "\<And>a. a \<noteq> t \<Longrightarrow> val l1 a = val l a"
    and "Prev (node l1 q) = Some (if c then t else i)" and "free l1 = (if c then Suc t else t)"
    and "c \<Longrightarrow> Prev (node l1 t) = Some i \<and> val l1 t = (e, end_of (node l n)) \<and> Next (node l1 i) = Some t
       \<and> Next (node l1 t) = (if q = tail then None else Some q)"
    and "\<not> c \<Longrightarrow> Next (node l1 i) = (if q = tail then Next (node l i) else Some q)"
  using assms(1-4)
  by (auto simp: l1 t c link_right_def alloc_def set_next_def set_prev_def val_def NewInterval_def Let_def
      split: option.splits)

lemma link_left_rep:
  assumes f: "fpath l head (L @ Z)" and b: "bpath l tail (rev (L @ Z))" and d: "distinct (head # tail # i # L @ Z)"
    and lt: "\<forall>a \<in> set (L @ Z). a < free l" "2 \<le> free l" "i < free l"
    and i: "Prev (node l i) = None" "Next (node l i) = None" and tl: "s \<le> start_of (node l tail)"
    and c: "c \<longleftrightarrow> Z \<noteq> [] \<and> start_of (node l (hd Z)) < s"
    and l1: "l1 = link_left i s (last (head # L)) l" and T: "T = (if c then [free l] else [])"
  shows "fpath l1 head (L @ T @ [i])" and "bpath l1 i (rev (L @ T))" and "free l1 = free l + length T"
    and "\<And>a. a \<noteq> last (head # L) \<Longrightarrow> a \<noteq> free l \<Longrightarrow> Next (node l1 a) = Next (node l a)"
    and "\<And>a. a \<noteq> i \<Longrightarrow> a \<noteq> free l \<Longrightarrow> Prev (node l1 a) = Prev (node l a)"
    and "\<And>a. a \<noteq> free l \<Longrightarrow> val l1 a = val l a"
    and "map (val l1) T = (if c then [(start_of (node l (hd Z)), s)] else [])"
proof -
  let ?p = "last (head # L)"
  define n where "n = (if Z = [] then tail else hd Z)"
  have z: "fpath l ?p Z" by (rule fpath_suffix [OF f])
  have pn: "Next (node l ?p) = None \<or> Next (node l ?p) = Some n" using z by (cases Z) (auto simp: n_def)
  have cn: "c \<longleftrightarrow> Next (node l ?p) = Some n \<and> start_of (node l n) < s"
    using z c tl by (cases Z) (auto simp: n_def)
  have p: "?p < free l" "i \<noteq> ?p" using lt d by (cases L rule: rev_cases; force simp: head_def)+
  note N = link_left_nodes [OF pn p(2,1) lt(3) cn l1 refl]
  show fr: "free l1 = free l + length T" using N(5) T by simp
  show nx: "\<And>a. a \<noteq> ?p \<Longrightarrow> a \<noteq> free l \<Longrightarrow> Next (node l1 a) = Next (node l a)" by (rule N(1))
  show pv: "\<And>a. a \<noteq> i \<Longrightarrow> a \<noteq> free l \<Longrightarrow> Prev (node l1 a) = Prev (node l a)" by (rule N(2))
  show "\<And>a. a \<noteq> free l \<Longrightarrow> val l1 a = val l a" by (rule N(3))
  show "map (val l1) T = (if c then [(start_of (node l (hd Z)), s)] else [])"
    using N(6) T c by (auto simp: n_def)
  have "fpath l1 ?p (T @ [i])" using N(1,4,6) T i(2) p lt(3) by auto
  moreover have "Next (node l1 a) = Next (node l a)" if "a \<in> set (butlast (head # L))" for a
  proof -
    have "distinct (head # L)" using d by simp
    then have "a \<noteq> ?p" using that by (rule butlast_neq_last)
    moreover have "a < free l" using that lt(1,2) in_set_butlastD [OF that] by (auto simp: head_def)
    ultimately show ?thesis by (intro nx) auto
  qed
  ultimately show "fpath l1 head (L @ T @ [i])" by (intro fpath_join [OF f])
  have "bpath l (last (tail # rev Z)) (rev L)" using b by (intro bpath_suffix) simp
  show "bpath l1 i (rev (L @ T))"
  proof (cases L rule: rev_cases)
    case Nil
    then show ?thesis using N(6,7) T i(1) by auto
  next
    case (snoc L' x)
    have "bpath l x (rev L')" using \<open>bpath l (last (tail # rev Z)) (rev L)\<close> snoc by simp
    moreover have "a \<noteq> i \<and> a < free l" if "a \<in> set (x # rev L')" for a using that snoc d lt(1) by auto
    ultimately have "bpath l1 x (rev L')" using pv by (subst bpath_cong [of x "rev L'" l1 l]) auto
    moreover have "x \<noteq> head" using snoc d by auto
    ultimately show ?thesis using N(6,7) T snoc by auto
  qed
qed

lemma link_right_rep:
  assumes b: "bpath l tail (rev R @ W)" and f: "R \<noteq> [] \<longrightarrow> fpath l (hd R) (tl R)" and x: "bpath l i X"
    and d: "distinct (head # tail # i # R @ W)" "distinct (head # tail # i # R @ X)"
    and lt: "\<forall>a \<in> set (R @ W @ X). a < free l" "2 \<le> free l" "i < free l"
    and i: "Next (node l i) = None" and hd: "end_of (node l head) \<le> e"
    and c: "c \<longleftrightarrow> W \<noteq> [] \<and> e < end_of (node l (hd W))"
    and l1: "l1 = link_right i e (last (tail # rev R)) l" and T: "T = (if c then [free l] else [])"
  shows "bpath l1 tail (rev R @ T @ [i] @ X)" and "fpath l1 i (T @ R)" and "free l1 = free l + length T"
    and "\<And>a. a \<noteq> i \<Longrightarrow> a \<noteq> free l \<Longrightarrow> Next (node l1 a) = Next (node l a)"
    and "\<And>a. a \<noteq> free l \<Longrightarrow> val l1 a = val l a"
    and "map (val l1) T = (if c then [(e, end_of (node l (hd W)))] else [])"
proof -
  let ?q = "last (tail # rev R)"
  define n where "n = (if W = [] then head else hd W)"
  have w: "bpath l ?q W" by (rule bpath_suffix [OF b])
  have qn: "Prev (node l ?q) = None \<or> Prev (node l ?q) = Some n" using w by (cases W) (auto simp: n_def)
  have cn: "c \<longleftrightarrow> Prev (node l ?q) = Some n \<and> e < end_of (node l n)"
    using w c hd by (cases W) (auto simp: n_def)
  have q: "?q < free l" "i \<noteq> ?q" using lt d by (cases R; force simp: tail_def)+
  note N = link_right_nodes [OF qn q(2,1) lt(3) cn l1 refl]
  show "free l1 = free l + length T" using N(5) T by simp
  show nx: "\<And>a. a \<noteq> i \<Longrightarrow> a \<noteq> free l \<Longrightarrow> Next (node l1 a) = Next (node l a)" by (rule N(2))
  show "\<And>a. a \<noteq> free l \<Longrightarrow> val l1 a = val l a" by (rule N(3))
  show "map (val l1) T = (if c then [(e, end_of (node l (hd W)))] else [])"
    using N(6) T c by (auto simp: n_def)
  have "a \<noteq> ?q \<and> a < free l" if "a \<in> set (i # X)" for a using that d lt(1,3) q(2) by (cases R) auto
  then have "bpath l1 i X" using x N(1) by (subst bpath_cong [of i X l1 l]) auto
  then have "bpath l1 ?q (T @ [i] @ X)" using N(4,6) T by auto
  moreover have "Prev (node l1 a) = Prev (node l a)" if "a \<in> set (butlast (tail # rev R))" for a
  proof -
    have "distinct (tail # rev R)" using d(1) by simp
    then have "a \<noteq> ?q" using that by (rule butlast_neq_last)
    moreover have "a < free l" using lt(1,2) in_set_butlastD [OF that] by (auto simp: tail_def)
    ultimately show ?thesis by (intro N(1)) auto
  qed
  ultimately show "bpath l1 tail (rev R @ T @ [i] @ X)" by (intro bpath_join [OF b])
  show "fpath l1 i (T @ R)"
  proof (cases R)
    case Nil
    then show ?thesis using N(6,7) T i by auto
  next
    case (Cons r R')
    have "fpath l r R'" using f Cons by simp
    moreover have "a \<noteq> i \<and> a < free l" if "a \<in> set (r # R')" for a using that Cons d(1) lt(1) by auto
    ultimately have "fpath l1 r R'" using nx by (subst fpath_cong [of r R' l1 l]) auto
    moreover have "r \<noteq> tail" using Cons d by auto
    ultimately show ?thesis using N(6,7) T Cons by auto
  qed
qed

lemma distinct_bounded: "distinct xs \<Longrightarrow> (\<And>a. a \<in> set xs \<Longrightarrow> a < n) \<Longrightarrow> length xs \<le> (n :: nat)"
  by (metis card_lessThan card_mono distinct_card finite_lessThan lessThan_iff subsetI)

lemma rep_length: "rep l as \<Longrightarrow> length as + 2 \<le> free l"
  using distinct_bounded [of "head # tail # as" "free l"] by (force simp: rep_def head_def tail_def)

text \<open>The positions of the new interval in the two chains.\<close>

lemma rep_split:
  assumes "rep l as" and "s < e" and "MinInt < s" and "e < MaxInt"
  obtains L M R where "as = L @ M @ R"
    "find_p (free l) l s head = Some (last (head # L))" "find_q (free l) l e tail = Some (last (tail # rev R))"
    "M @ R \<noteq> [] \<and> start_of (node l (hd (M @ R))) < s \<longleftrightarrow> M \<noteq> [] \<and> start_of (node l (hd M)) < s"
    "rev (L @ M) \<noteq> [] \<and> e < end_of (node l (hd (rev (L @ M)))) \<longleftrightarrow> M \<noteq> [] \<and> e < end_of (node l (last M))"
    "overlay (s, e) (map (val l) as) = map (val l) L
       @ (if M \<noteq> [] \<and> start_of (node l (hd M)) < s then [(start_of (node l (hd M)), s)] else []) @ [(s, e)]
       @ (if M \<noteq> [] \<and> e < end_of (node l (last M)) then [(e, end_of (node l (last M)))] else []) @ map (val l) R"
proof -
  have o: "ordered (map (val l) as)" and f: "fpath l head as" and b: "bpath l tail (rev as)"
    and hd: "val l head = (MinInt, MinInt)" and tl: "val l tail = (MaxInt, MaxInt)"
    using assms(1) by (simp_all add: rep_def)
  from overlay_split [OF o assms(2)] obtain lv mv rv where v: "map (val l) as = lv @ mv @ rv"
    "\<And>y. y \<in> set lv \<Longrightarrow> snd y \<le> s" "\<And>y. y \<in> set mv \<Longrightarrow> s < snd y \<and> fst y < e" "\<And>y. y \<in> set rv \<Longrightarrow> e \<le> fst y"
    "overlay (s, e) (map (val l) as) = lv @ (if mv \<noteq> [] \<and> fst (hd mv) < s then [(fst (hd mv), s)] else []) @ [(s, e)]
          @ (if mv \<noteq> [] \<and> e < snd (last mv) then [(e, snd (last mv))] else []) @ rv" by metis
  from v(1) obtain L M R where as: "as = L @ M @ R" "lv = map (val l) L" "mv = map (val l) M" "rv = map (val l) R"
    by (metis map_eq_append_conv)
  have L: "end_of (node l a) \<le> s" if "a \<in> set L" for a using v(2) [of "val l a"] that as by (simp add: val_def)
  have M: "s < end_of (node l a) \<and> start_of (node l a) < e" if "a \<in> set M" for a
    using v(3) [of "val l a"] that as by (simp add: val_def)
  have R: "e \<le> start_of (node l a) \<and> start_of (node l a) < end_of (node l a)" if "a \<in> set R" for a
    using v(4) [of "val l a"] that as ordered_elem [OF o, of "val l a"] by (simp add: val_def)
  have len: "length L < free l" "length R < free l" using rep_length [OF assms(1)] as by simp_all
  have "find_p (free l) l s head = Some (last (head # L))"
  proof (rule find_p_path [of _ _ _ "M @ R"])
    show "s < end_of (node l (hd (M @ R)))" if "M @ R \<noteq> []"
      using that M [of "hd M"] R [of "hd R"] assms(2) by (cases M; cases R; force)
  qed (use f as L tl assms(2,4) len in \<open>auto simp: val_def\<close>)
  moreover have "find_q (free l) l e tail = Some (last (tail # rev R))"
  proof (rule find_q_path [of _ _ _ "rev (L @ M)"])
    have "start_of (node l a) < end_of (node l a)" if "a \<in> set L" for a
      using that as ordered_elem [OF o, of "val l a"] by (simp add: val_def)
    then show "start_of (node l (hd (rev (L @ M)))) < e" if "rev (L @ M) \<noteq> []"
      using that M [of "last M"] L [of "last L"] assms(2) by (cases M rule: rev_cases; cases L rule: rev_cases; force)
  qed (use b as R hd assms(2,3) len in \<open>auto simp: val_def\<close>)
  moreover have "M @ R \<noteq> [] \<and> start_of (node l (hd (M @ R))) < s \<longleftrightarrow> M \<noteq> [] \<and> start_of (node l (hd M)) < s"
    using R [of "hd R"] assms(2) by (cases M; cases R; force)
  moreover have "rev (L @ M) \<noteq> [] \<and> e < end_of (node l (hd (rev (L @ M)))) \<longleftrightarrow> M \<noteq> [] \<and> e < end_of (node l (last M))"
    using L [of "last L"] assms(2) by (cases M rule: rev_cases; cases L rule: rev_cases; force)
  ultimately show thesis
    using as v(5) by (intro that [of L M R]) (auto simp: hd_map last_map val_def)
qed

lemma AddInterval_chains:
  assumes r: "rep l (L @ M @ R)" and i: "i \<notin> set (L @ M @ R)" "i \<noteq> head" "i \<noteq> tail" "i < free l" "node l i = NewInterval s e"
    and se: "s < e" "MinInt < s" "e < MaxInt"
    and c1: "c1 \<longleftrightarrow> M @ R \<noteq> [] \<and> start_of (node l (hd (M @ R))) < s" and T1: "T1 = (if c1 then [free l] else [])"
    and c2: "c2 \<longleftrightarrow> rev (L @ M) \<noteq> [] \<and> e < end_of (node l (hd (rev (L @ M))))"
    and T2: "T2 = (if c2 then [free l + length T1] else [])"
    and l2: "l2 = link_right i e (last (tail # rev R)) (link_left i s (last (head # L)) l)"
    and as: "as = L @ T1 @ [i] @ T2 @ R"
  shows "fpath l2 head as" and "bpath l2 tail (rev as)" and "distinct (head # tail # as)" and "\<forall>a \<in> set as. a < free l2"
    and "free l \<le> free l2" and "\<forall>a < free l. val l2 a = val l a"
    and "map (val l2) T1 = (if c1 then [(start_of (node l (hd (M @ R))), s)] else [])"
    and "map (val l2) T2 = (if c2 then [(e, end_of (node l (hd (rev (L @ M)))))] else [])"
proof -
  define l1 where "l1 = link_left i s (last (head # L)) l"
  have R: "fpath l head (L @ M @ R)" "bpath l tail (rev (L @ M @ R))" "distinct (head # tail # i # L @ M @ R)"
    "\<forall>a \<in> set (L @ M @ R). a < free l" "2 \<le> free l" "val l head = (MinInt, MinInt)" "val l tail = (MaxInt, MaxInt)"
    using r i by (auto simp: rep_def)
  have ni: "Prev (node l i) = None" "Next (node l i) = None" using i(5) by (simp_all add: NewInterval_def)
  have tl: "s \<le> start_of (node l tail)" using R(7) se by (simp add: val_def)
  note A = link_left_rep [OF R(1,2,3,4,5) i(4) ni tl c1 l1_def T1]
  have b1: "bpath l1 tail (rev R @ rev (L @ M))"
  proof -
    have "bpath l1 tail (rev (L @ M @ R)) = bpath l tail (rev (L @ M @ R))"
      using A(5) R(3,4,5) by (intro bpath_cong) (force simp: tail_def)
    with R(2) show ?thesis by simp
  qed
  have f1: "R \<noteq> [] \<longrightarrow> fpath l1 (hd R) (tl R)"
  proof
    assume ne: "R \<noteq> []"
    have "fpath l (last (head # L @ M @ [hd R])) (tl R)" using R(1) ne by (intro fpath_suffix) simp
    moreover have "a \<noteq> last (head # L) \<and> a < free l" if "a \<in> set R" for a
      using that R(3,4) by (cases L rule: rev_cases) auto
    moreover have "set (hd R # tl R) = set R" using ne by (cases R) auto
    ultimately show "fpath l1 (hd R) (tl R)" using A(4) by (subst fpath_cong [of _ _ l1 l]) force+
  qed
  have nx1: "Next (node l1 i) = None" using A(4) [of i] ni R(3) i(4) by (cases L rule: rev_cases) auto
  have hd1: "end_of (node l1 head) \<le> e" using A(6) [of head] R(5,6) se by (simp add: val_def head_def)
  have d: "distinct (head # tail # i # R @ rev (L @ M))" "distinct (head # tail # i # R @ rev (L @ T1))"
    using R(3,4,5) i(4) by (force simp: T1 head_def tail_def)+
  have lt: "\<forall>a \<in> set (R @ rev (L @ M) @ rev (L @ T1)). a < free l1"
    using R(4) A(3) by (auto simp: T1 less_SucI split: if_splits)
  have l1f: "2 \<le> free l1" "i < free l1" using A(3) R(5) i(4) by simp_all
  have "rev (L @ M) \<noteq> [] \<Longrightarrow> hd (rev (L @ M)) \<in> set (L @ M)" by (metis hd_in_set set_rev)
  then have e1: "rev (L @ M) \<noteq> [] \<Longrightarrow> val l1 (hd (rev (L @ M))) = val l (hd (rev (L @ M)))"
    using A(6) R(4) by (metis UnCI nat_neq_iff set_append append_assoc)
  have c2': "c2 \<longleftrightarrow> rev (L @ M) \<noteq> [] \<and> e < end_of (node l1 (hd (rev (L @ M))))" using c2 e1 by (auto simp: val_def)
  have T2': "T2 = (if c2 then [free l1] else [])" using T2 A(3) by simp
  have l2': "l2 = link_right i e (last (tail # rev R)) l1" by (simp add: l2 l1_def)
  note B = link_right_rep [OF b1 f1 A(2) d lt l1f nx1 hd1 c2' l2' T2']
  have "fpath l2 head ((L @ T1 @ [i]) @ T2 @ R)"
  proof (rule fpath_join [of l1 _ _ "[]"])
    show "fpath l1 head ((L @ T1 @ [i]) @ [])" using A(1) by simp
    show "Next (node l2 a) = Next (node l1 a)" if "a \<in> set (butlast (head # L @ T1 @ [i]))" for a
      using that d(2) R(3) lt l1f(1) by (intro B(4)) (fastforce simp: butlast_append head_def)+
    show "fpath l2 (last (head # L @ T1 @ [i])) (T2 @ R)" using B(2) by simp
  qed
  then show "fpath l2 head as" by (simp add: as)
  show "bpath l2 tail (rev as)" using B(1) by (simp add: as T2 split: if_splits)
  show "distinct (head # tail # as)" using d lt l1f by (fastforce simp: as T2' head_def tail_def)
  show "\<forall>a \<in> set as. a < free l2" using lt l1f(2) B(3) by (auto simp: as T2' less_SucI split: if_splits)
  show "free l \<le> free l2" "\<forall>a < free l. val l2 a = val l a" using A(3,6) B(3,5) by simp_all
  show "map (val l2) T1 = (if c1 then [(start_of (node l (hd (M @ R))), s)] else [])"
    using A(3,7) B(5) by (cases c1) (auto simp: T1)
  show "map (val l2) T2 = (if c2 then [(e, end_of (node l (hd (rev (L @ M)))))] else [])"
    using B(6) e1 c2 by (auto simp: val_def)
qed

lemma AddInterval_rep:
  assumes r: "rep l as" and i: "i \<notin> set as" "i \<noteq> head" "i \<noteq> tail" "i < free l" "node l i = NewInterval s e"
    and se: "s < e" "MinInt < s" "e < MaxInt"
  shows "\<exists>l' as'. AddInterval i l = Some l' \<and> rep l' as' \<and> free l \<le> free l'
    \<and> map (val l') as' = overlay (s, e) (map (val l) as)"
proof -
  obtain L M R where S: "as = L @ M @ R"
    "find_p (free l) l s head = Some (last (head # L))" "find_q (free l) l e tail = Some (last (tail # rev R))"
    "M @ R \<noteq> [] \<and> start_of (node l (hd (M @ R))) < s \<longleftrightarrow> M \<noteq> [] \<and> start_of (node l (hd M)) < s"
    "rev (L @ M) \<noteq> [] \<and> e < end_of (node l (hd (rev (L @ M)))) \<longleftrightarrow> M \<noteq> [] \<and> e < end_of (node l (last M))"
    "overlay (s, e) (map (val l) as) = map (val l) L
       @ (if M \<noteq> [] \<and> start_of (node l (hd M)) < s then [(start_of (node l (hd M)), s)] else []) @ [(s, e)]
       @ (if M \<noteq> [] \<and> e < end_of (node l (last M)) then [(e, end_of (node l (last M)))] else []) @ map (val l) R"
    by (rule rep_split [OF r se])
  define T1 where "T1 = (if M @ R \<noteq> [] \<and> start_of (node l (hd (M @ R))) < s then [free l] else [])"
  define T2 where "T2 = (if rev (L @ M) \<noteq> [] \<and> e < end_of (node l (hd (rev (L @ M)))) then [free l + length T1] else [])"
  define l2 where "l2 = link_right i e (last (tail # rev R)) (link_left i s (last (head # L)) l)"
  let ?as = "L @ T1 @ [i] @ T2 @ R"
  note C = AddInterval_chains [OF r [unfolded S(1)] i(1) [unfolded S(1)] i(2-5) se refl T1_def refl T2_def l2_def refl]
  have o: "ordered (map (val l) as)" and b: "\<forall>a \<in> set as. a < free l" "2 \<le> free l"
    and hd: "val l head = (MinInt, MinInt)" "val l tail = (MaxInt, MaxInt)" using r by (simp_all add: rep_def)
  have "map (val l2) ?as = overlay (s, e) (map (val l) as)"
    using C(6,7,8) S b i(4,5) by (auto simp: hd_append hd_rev val_def NewInterval_def)
  moreover have "ordered (overlay (s, e) (map (val l) as))" by (rule overlay_ordered [OF o se])
  moreover have "val l2 head = (MinInt, MinInt)" "val l2 tail = (MaxInt, MaxInt)" "2 \<le> free l2"
    using C(5,6) b(2) hd by (simp_all add: head_def tail_def)
  ultimately have "rep l2 ?as" using C(1-4) by (simp add: rep_def)
  moreover have "AddInterval i l = Some l2"
    using S(2,3) se(1) i(5) by (simp add: AddInterval_def NewInterval_def l2_def)
  ultimately show ?thesis using C(5) \<open>map (val l2) ?as = _\<close> by blast
qed

section \<open>Sequences of writes\<close>

text \<open>A client makes an interval and adds it.\<close>

definition add_new :: "int \<times> int \<Rightarrow> IntervalList \<Rightarrow> IntervalList option" where
  "add_new x l = (case alloc (NewInterval (fst x) (snd x)) l of (i, l1) \<Rightarrow> AddInterval i l1)"

fun add_all :: "(int \<times> int) list \<Rightarrow> IntervalList \<Rightarrow> IntervalList option" where
  "add_all [] l = Some l"
| "add_all (x # xs) l = (case add_new x l of None \<Rightarrow> None | Some l1 \<Rightarrow> add_all xs l1)"

lemma alloc_rep:
  assumes "rep l as"
  shows "rep (l \<lparr> node := (node l)(free l := x), free := Suc (free l) \<rparr>) as"
proof -
  let ?l = "l \<lparr> node := (node l)(free l := x), free := Suc (free l) \<rparr>"
  have ne: "a \<noteq> free l" if "a \<in> set (head # tail # as)" for a
    using that assms by (auto simp: rep_def head_def tail_def)
  have p: "fpath ?l head as = fpath l head as" "bpath ?l tail (rev as) = bpath l tail (rev as)"
    by (intro fpath_cong bpath_cong; use ne in force)+
  have v: "map (val ?l) as = map (val l) as" "val ?l head = val l head" "val ?l tail = val l tail"
    using ne by (auto simp: val_def)
  show ?thesis using assms unfolding rep_def p v by (auto simp: less_SucI)
qed

lemma add_new_rep:
  assumes "rep l as" and "MinInt < fst x" and "snd x < MaxInt"
  shows "\<exists>l' as'. add_new x l = Some l' \<and> rep l' as'
    \<and> map (val l') as' = (if fst x < snd x then overlay x (map (val l) as) else map (val l) as)"
proof -
  let ?l = "l \<lparr> node := (node l)(free l := NewInterval (fst x) (snd x)), free := Suc (free l) \<rparr>"
  have f: "\<forall>a \<in> set as. a < free l" "2 \<le> free l" using assms(1) by (simp_all add: rep_def)
  have v: "map (val ?l) as = map (val l) as" using f by (auto simp: val_def)
  have add: "add_new x l = AddInterval (free l) ?l" by (simp add: add_new_def alloc_def)
  show ?thesis
  proof (cases "fst x < snd x")
    case True
    have "free l \<notin> set as" "free l \<noteq> head" "free l \<noteq> tail" "free l < free ?l" "node ?l (free l) = NewInterval (fst x) (snd x)"
      using f by (auto simp: head_def tail_def)
    from AddInterval_rep [OF alloc_rep [OF assms(1)] this True assms(2,3)]
    show ?thesis unfolding add v using True by (simp add: prod_eq_iff) blast
  next
    case False
    then have "AddInterval (free l) ?l = Some ?l" by (simp add: AddInterval_def NewInterval_def)
    with alloc_rep [OF assms(1), of "NewInterval (fst x) (snd x)"] v add False show ?thesis by metis
  qed
qed

lemma add_all_rep:
  assumes "rep l as" and "\<forall>x \<in> set xs. MinInt < fst x \<and> snd x < MaxInt"
  shows "\<exists>l' as'. add_all xs l = Some l' \<and> rep l' as' \<and> covered (map (val l') as') = covered (map (val l) as) \<union> covered xs"
  using assms
proof (induction xs arbitrary: l as)
  case (Cons x xs)
  then obtain l1 as1 where 1: "add_new x l = Some l1" "rep l1 as1"
    "map (val l1) as1 = (if fst x < snd x then overlay x (map (val l) as) else map (val l) as)"
    using add_new_rep [of l as x] by auto
  have "ordered (map (val l) as)" using Cons.prems(1) by (simp add: rep_def)
  with 1(3) have "covered (map (val l1) as1) = covered (map (val l) as) \<union> {fst x ..< snd x}"
    using overlay_covered [of "map (val l) as" "fst x" "snd x"] by auto
  with Cons.IH [OF 1(2)] Cons.prems(2) 1(1) show ?case by (auto simp: Un_assoc)
qed auto

lemma new_rep: "rep NewIntervalList []"
  by (simp add: rep_def NewIntervalList_def head_def tail_def val_def)

lemma chain_path:
  assumes "fpath l p as" and "tail \<notin> set as" and "length as < k"
  shows "chain k (Next (node l p)) l = Some as"
  using assms
proof (induction as arbitrary: p k)
  case Nil
  then show ?case by (cases k) auto
next
  case (Cons a as)
  then obtain j where "k = Suc j" by (cases k) auto
  with Cons show ?case by auto
qed

lemma walk_rep: "rep l as \<Longrightarrow> walk l = Some as"
  using rep_length [of l as] by (auto simp: walk_def rep_def intro!: chain_path)

lemma ordered_card: "ordered xs \<Longrightarrow> int (card (covered xs)) = sum_list (map (\<lambda>x. snd x - fst x) xs)"
proof (induction xs)
  case (Cons x xs)
  have "{fst x ..< snd x} \<inter> covered xs = {}" using Cons.prems by (force simp: ordered_Cons covered_def)
  moreover have "finite (covered xs)" by (simp add: covered_def)
  ultimately show ?case using Cons by (simp add: ordered_Cons card_Un_disjoint)
qed simp



section \<open>Merging and copying\<close>

text \<open>What merging does to the intervals: one that starts where its predecessor ends is joined to it.\<close>

fun join :: "(int \<times> int) list \<Rightarrow> (int \<times> int) list" where
  "join (x # y # xs) = (if fst y = snd x then join ((fst x, snd y) # xs) else x # join (y # xs))"
| "join xs = xs"

lemma val_sel: "fst (val l a) = start_of (node l a)" "snd (val l a) = end_of (node l a)"
  by (simp_all add: val_def)

lemma merge_path:
  assumes "fpath l p rest" and "distinct (p # tail # rest)" and "length rest < k"
  shows "\<exists>l' rest'. merge_loop k p (Next (node l p)) l = Some l' \<and> fpath l' p rest' \<and> set rest' \<subseteq> set rest
    \<and> free l' = free l \<and> (\<forall>a. a \<notin> set (p # rest) \<longrightarrow> Next (node l' a) = Next (node l a) \<and> val l' a = val l a)
    \<and> map (val l') (p # rest') = join (map (val l) (p # rest))"
  using assms
proof (induction rest arbitrary: p l k)
  case Nil
  then show ?case by (cases k) auto
next
  case step: (Cons a rest)
  obtain j where k: "k = Suc j" using step.prems(3) by (cases k) auto
  have pa: "Next (node l p) = Some a" "fpath l a rest" "a \<noteq> tail" "p \<noteq> a" using step.prems by auto
  show ?case
  proof (cases "start_of (node l a) = end_of (node l p)")
    case False
    from step.IH [OF pa(2), of j] step.prems k obtain l' rest' where
      "merge_loop j a (Next (node l a)) l = Some l'" "fpath l' a rest'" "set rest' \<subseteq> set rest" "free l' = free l"
      "\<forall>b. b \<notin> set (a # rest) \<longrightarrow> Next (node l' b) = Next (node l b) \<and> val l' b = val l b"
      "map (val l') (a # rest') = join (map (val l) (a # rest))" by auto
    with False step.prems pa k show ?thesis
      by (intro exI [of _ l'] exI [of _ "a # rest'"]) (auto simp: val_sel)
  next
    case True
    define l1 where "l1 = set_next p (Next (node l a)) (set_end p (end_of (node l a)) l)"
    define l2 where "l2 = (case Next (node l a) of Some b \<Rightarrow> set_prev b (Some p) l1 | None \<Rightarrow> l1)"
    have n2: "Next (node l2 b) = (if b = p then Next (node l a) else Next (node l b))"
      "val l2 b = (if b = p then (start_of (node l p), end_of (node l a)) else val l b)" for b
      by (auto simp: l2_def l1_def set_next_def set_end_def set_prev_def val_def split: option.split)
    have f2: "free l2 = free l" by (auto simp: l2_def l1_def set_next_def set_end_def set_prev_def split: option.split)
    have ml: "merge_loop k p (Next (node l p)) l = merge_loop j p (Next (node l2 p)) l2"
      if "Next (node l a) \<noteq> None" using that pa True k
      by (auto simp: l2_def l1_def [symmetric] Let_def set_prev_def n2) (auto simp: l1_def set_next_def set_end_def)
    have "fpath l2 p rest"
    proof (cases rest)
      case (Cons b bs)
      then have "fpath l2 b bs = fpath l b bs" using step.prems(2) n2 by (intro fpath_cong) auto
      with Cons pa(2) n2(1) [of p] show ?thesis by simp
    qed (use pa(2) n2(1) [of p] in simp)
    from step.IH [OF this, of j] step.prems k obtain l' rest' where I:
      "merge_loop j p (Next (node l2 p)) l2 = Some l'" "fpath l' p rest'" "set rest' \<subseteq> set rest" "free l' = free l"
      "\<forall>b. b \<notin> set (p # rest) \<longrightarrow> Next (node l' b) = Next (node l2 b) \<and> val l' b = val l2 b"
      "map (val l') (p # rest') = join (map (val l2) (p # rest))" using f2 by auto
    have "merge_loop k p (Next (node l p)) l = Some l'"
    proof (cases "Next (node l a)")
      case None
      obtain i where j: "j = Suc i" using step.prems(3) k by (cases j) auto
      have l1: "l1 = set_next p None (set_end p (end_of (node l a)) l)" using None by (simp add: l1_def)
      have "Next (node l1 a) = None" using None pa(4) by (simp add: l1_def set_next_def set_end_def)
      moreover have "l2 = l1" using None by (simp add: l2_def)
      moreover have "Next (node l2 p) = None" using None n2 by simp
      ultimately show ?thesis using I(1) pa None True k j by (simp add: l1 [symmetric] Let_def)
    qed (use I(1) ml in simp)
    moreover have m: "map (val l2) (p # rest) = (start_of (node l p), end_of (node l a)) # map (val l) rest"
      using n2 step.prems(2) by auto
    ultimately show ?thesis using I(1-5) I(6) [unfolded m] n2 True step.prems(2)
      by (intro exI [of _ l'] exI [of _ rest']) (auto simp: val_sel)
  qed
qed

end
