(* ===== verification/Interval_Copy.thy ===== *)
theory Interval_Copy
  imports Interval_List
begin

text \<open>
  What \<^verbatim>\<open>Merge\<close> and \<^verbatim>\<open>Copy\<close> do to a list of intervals that was built by adding: the covered offsets stay
  the same, and a copy takes over exactly the bytes of the merged intervals that end before the end
  of the block. It also shows that adding after a merge may leave a broken list.
\<close>

section \<open>Merging\<close>

lemma join_Cons: "join (x # xs) \<noteq> []"
  by (induction "x # xs" arbitrary: x xs rule: join.induct) auto

lemma join_covered: "ordered xs \<Longrightarrow> covered (join xs) = covered xs"
proof (induction xs rule: join.induct)
  case (1 x y xs)
  then have "{fst x ..< snd x} \<union> {fst y ..< snd y} = {fst x ..< snd y}" if "fst y = snd x"
    using that by (auto simp: ordered_Cons)
  with 1 show ?case by (auto simp: ordered_Cons)
qed auto

lemma join_hd: "fst (hd (join (x # xs))) = fst x"
  by (induction "x # xs" arbitrary: x xs rule: join.induct) auto

lemma join_lower: "\<forall>y \<in> set xs. a \<le> fst y \<Longrightarrow> \<forall>y \<in> set (join xs). a \<le> fst y"
  by (induction xs rule: join.induct) auto

lemma join_ordered: "ordered xs \<Longrightarrow> ordered (join xs)"
proof (induction xs rule: join.induct)
  case (1 x y xs)
  have "\<forall>z \<in> set (join (y # xs)). snd x \<le> fst z" using 1(3) by (intro join_lower) (auto simp: ordered_Cons)
  with 1 show ?case by (auto simp: ordered_Cons)
qed auto

text \<open>After a merge no interval starts where the one before it ends.\<close>

fun apart :: "(int \<times> int) list \<Rightarrow> bool" where
  "apart (x # y # xs) \<longleftrightarrow> snd x \<noteq> fst y \<and> apart (y # xs)"
| "apart xs \<longleftrightarrow> True"

lemma join_apart: "apart (join xs)"
proof (induction xs rule: join.induct)
  case (1 x y xs)
  show ?case
  proof (cases "fst y = snd x")
    case False
    obtain z zs where z: "join (y # xs) = z # zs" using join_Cons by (metis neq_Nil_conv)
    with join_hd [of y xs] False 1 show ?thesis by auto
  qed (use 1 in auto)
qed auto

lemma doMerge_rep:
  assumes "rep l as"
  shows "\<exists>l' as'. doMerge l = Some l' \<and> walk l' = Some as' \<and> map (val l') as' = join (map (val l) as)"
proof -
  have r: "fpath l head as" "distinct (head # tail # as)" "ordered (map (val l) as)" "val l head = (MinInt, MinInt)"
    using assms by (simp_all add: rep_def)
  have len: "length as < free l" using rep_length [OF assms] by simp
  from merge_path [OF r(1,2) len] obtain l' as' where m:
    "merge_loop (free l) head (Next (node l head)) l = Some l'" "fpath l' head as'" "set as' \<subseteq> set as" "free l' = free l"
    "map (val l') (head # as') = join (map (val l) (head # as))" by metis
  have j: "join (map (val l) (head # as)) = val l head # join (map (val l) as)"
    using r(3,4) by (cases as) (auto simp: ordered_Cons)
  have len': "length (join xs) \<le> length xs" for xs by (induction xs rule: join.induct) auto
  have "length as' \<le> length as" using m(5) j len' [of "map (val l) as"] by (metis length_map list.map(2) list.inject)
  then have "walk l' = Some as'"
    using m(2-4) r(2) len unfolding walk_def by (intro chain_path) auto
  moreover have "map (val l') as' = join (map (val l) as)" using m(5) j by simp
  ultimately show ?thesis using m(1) by (auto simp: doMerge_def)
qed



section \<open>Copying\<close>

lemma copy_loop_spec:
  assumes "length dst = length src" and "\<forall>x \<in> set xs. 0 \<le> start_of x \<and> start_of x \<le> end_of x"
  shows "\<exists>dst' n'. copy_loop xs dst src n = Inr (dst', n') \<and> length dst' = length dst
    \<and> (\<forall>j < length dst. dst' ! j = (if \<exists>x \<in> set xs. start_of x \<le> int j \<and> int j < end_of x \<and> end_of x < int (length src)
         then src ! j else dst ! j))"
  using assms
proof (induction xs arbitrary: dst n)
  case (Cons x xs)
  show ?case
  proof (cases "end_of x < int (length src)")
    case False
    with Cons.IH [OF Cons.prems(1), of n] Cons.prems show ?thesis by auto
  next
    case True
    let ?d = "blit (nat (start_of x)) (subrange (nat (start_of x)) (nat (end_of x)) src) dst"
    let ?n = "n + nat (end_of x - start_of x)"
    have d: "?d ! j = (if start_of x \<le> int j \<and> int j < end_of x then src ! j else dst ! j)" if "j < length dst" for j
      using that True Cons.prems by (auto simp: subrange_simps nat_le_iff)
    from Cons.IH [of ?d ?n] Cons.prems obtain dst' n' where i: "copy_loop xs ?d src ?n = Inr (dst', n')"
      "length dst' = length dst"
      "\<forall>j < length dst. dst' ! j = (if \<exists>x \<in> set xs. start_of x \<le> int j \<and> int j < end_of x \<and> end_of x < int (length src)
         then src ! j else ?d ! j)" by auto
    have "copy_loop (x # xs) dst src n = Inr (dst', n')" using i(1) True Cons.prems by simp
    moreover have "\<forall>j < length dst. dst' ! j = (if \<exists>y \<in> set (x # xs). start_of y \<le> int j \<and> int j < end_of y \<and> end_of y < int (length src)
         then src ! j else dst ! j)" using i(3) d True by auto
    ultimately show ?thesis using i(2) by blast
  qed
qed simp

lemma Copy_rep:
  assumes "rep l as" and "length dst = length src" and "\<forall>x \<in> set (map (val l) as). 0 \<le> fst x"
  shows "\<exists>l' dst' n. Copy l dst src = Some (l', Inr (dst', n)) \<and> length dst' = length dst
    \<and> (\<forall>j < length dst. dst' ! j = (if \<exists>x \<in> set (join (map (val l) as)). fst x \<le> int j \<and> int j < snd x \<and> snd x < int (length src)
         then src ! j else dst ! j))"
proof -
  have o: "ordered (join (map (val l) as))" using assms(1) by (intro join_ordered) (simp add: rep_def)
  from doMerge_rep [OF assms(1)] obtain l' bs where m: "doMerge l = Some l'" "walk l' = Some bs"
    "map (val l') bs = join (map (val l) as)" by auto
  have pos: "\<forall>x \<in> set (map (val l') bs). 0 \<le> fst x \<and> fst x \<le> snd x"
    using join_lower [OF assms(3)] ordered_elem [OF o] m(3) by force
  have "\<forall>x \<in> set (map (node l') bs). 0 \<le> start_of x \<and> start_of x \<le> end_of x"
    using pos by (auto simp: val_def)
  from copy_loop_spec [OF assms(2) this, of 0] obtain dst' n where c:
    "copy_loop (map (node l') bs) dst src 0 = Inr (dst', n)" "length dst' = length dst"
    "\<forall>j < length dst. dst' ! j = (if \<exists>x \<in> set (map (node l') bs). start_of x \<le> int j \<and> int j < end_of x \<and> end_of x < int (length src)
         then src ! j else dst ! j)" by metis
  have "(\<exists>x \<in> set (map (node l') bs). start_of x \<le> k \<and> k < end_of x \<and> end_of x < u) \<longleftrightarrow>
      (\<exists>x \<in> set (join (map (val l) as)). fst x \<le> k \<and> k < snd x \<and> snd x < u)" for k u
    unfolding m(3) [symmetric] by (auto simp: val_def)
  with c m assms(2) show ?thesis by (simp add: Copy_def)
qed

text \<open>
  C34. Copying after any sequence of additions with offsets from 0: bytes that no interval covers stay, and
  when every interval ends before the end of the block, all covered bytes are taken from the source.
\<close>

theorem copy_takes_over:
  assumes "\<forall>x \<in> set xs. 0 \<le> fst x \<and> snd x < MaxInt" and "length dst = length src"
  shows "\<exists>l l' dst' n. add_all xs NewIntervalList = Some l \<and> Copy l dst src = Some (l', Inr (dst', n))
    \<and> length dst' = length dst
    \<and> (\<forall>j < length dst. int j \<notin> covered xs \<longrightarrow> dst' ! j = dst ! j)
    \<and> ((\<forall>x \<in> set xs. snd x < int (length src)) \<longrightarrow> (\<forall>j < length dst. int j \<in> covered xs \<longrightarrow> dst' ! j = src ! j))"
proof -
  have b: "\<forall>x \<in> set xs. MinInt < fst x \<and> snd x < MaxInt" using assms(1) by (force simp: MinInt_def)
  from add_all_rep [OF new_rep b] obtain l as where l: "add_all xs NewIntervalList = Some l" "rep l as"
    "covered (map (val l) as) = covered xs" by auto
  define ys where "ys = join (map (val l) as)"
  have o: "ordered (map (val l) as)" using l(2) by (simp add: rep_def)
  have ys: "ordered ys" "covered ys = covered xs" using join_ordered [OF o] join_covered [OF o] l(3) by (simp_all add: ys_def)
  have cov: "0 \<le> c" if "c \<in> covered xs" for c
  proof -
    from that obtain x where "x \<in> set xs" "fst x \<le> c" by (auto simp: covered_def)
    with assms(1) show ?thesis by fastforce
  qed
  have pos: "\<forall>x \<in> set (map (val l) as). 0 \<le> fst x"
  proof
    fix x assume x: "x \<in> set (map (val l) as)"
    with ordered_elem [OF o x] have "fst x \<in> covered (map (val l) as)" by (auto simp: covered_def)
    with l(3) cov show "0 \<le> fst x" by metis
  qed
  have below: "snd y < u" if "\<forall>x \<in> set xs. snd x < u" "y \<in> set ys" for y u
  proof -
    have "snd y - 1 \<in> {fst y ..< snd y}" using ordered_elem [OF ys(1) that(2)] by simp
    then have "snd y - 1 \<in> covered xs" unfolding ys(2) [symmetric] using that(2) by (auto simp: covered_def)
    then obtain x where "x \<in> set xs" "snd y - 1 < snd x" by (auto simp: covered_def)
    with that(1) have "snd x < u" by blast
    with \<open>snd y - 1 < snd x\<close> show ?thesis by simp
  qed
  from Copy_rep [OF l(2) assms(2) pos, folded ys_def] obtain l' dst' n where c: "Copy l dst src = Some (l', Inr (dst', n))"
    "length dst' = length dst"
    "\<forall>j < length dst. dst' ! j = (if \<exists>x \<in> set ys. fst x \<le> int j \<and> int j < snd x \<and> snd x < int (length src)
         then src ! j else dst ! j)" by metis
  have in_ys: "int j \<in> covered xs \<longleftrightarrow> (\<exists>x \<in> set ys. fst x \<le> int j \<and> int j < snd x)" for j
    unfolding ys(2) [symmetric] by (auto simp: covered_def)
  have "\<forall>j < length dst. int j \<notin> covered xs \<longrightarrow> dst' ! j = dst ! j" using c(3) in_ys by auto
  moreover have "(\<forall>x \<in> set xs. snd x < int (length src)) \<longrightarrow> (\<forall>j < length dst. int j \<in> covered xs \<longrightarrow> dst' ! j = src ! j)"
    using c(3) in_ys below by auto
  ultimately show ?thesis using l(1) c(1,2) by blast
qed

text \<open>Witness of C34: one byte of four.\<close>

theorem copy_takes_over_witness:
  "\<exists>l l' dst' n. add_all [(1, 2)] NewIntervalList = Some l \<and> Copy l [0, 0, 0, 0] [7, 8, 9, 10] = Some (l', Inr (dst', n))
     \<and> dst' ! 1 = 8 \<and> dst' ! 0 = 0"
  using copy_takes_over [of "[(1, 2)]" "[0, 0, 0, 0]" "[7, 8, 9, 10]"] by (fastforce simp: MaxInt_def)

text \<open>
  An interval that reaches the end of the block is not copied: a write to the last bytes of a block is
  dropped by \<^verbatim>\<open>Copy\<close>.
\<close>

theorem copy_skips_block_end:
  assumes "length dst = length src" and "0 \<le> a" and "a < int (length src)" and "int (length src) < MaxInt"
  shows "\<exists>l l' n. add_all [(a, int (length src))] NewIntervalList = Some l \<and> Copy l dst src = Some (l', Inr (dst, n))"
proof -
  have "MinInt < a" using assms(2) by (simp add: MinInt_def)
  with add_new_rep [OF new_rep, of "(a, int (length src))"] assms obtain l as where l:
    "add_new (a, int (length src)) NewIntervalList = Some l" "rep l as" "map (val l) as = [(a, int (length src))]"
    by (auto simp: overlay_def)
  from Copy_rep [OF l(2) assms(1)] l(3) assms(2) obtain l' dst' n where "Copy l dst src = Some (l', Inr (dst', n))"
    "length dst' = length dst" "\<forall>j < length dst. dst' ! j = dst ! j" by auto
  moreover from this(2,3) have "dst' = dst" by (simp add: list_eq_iff_nth_eq)
  ultimately show ?thesis using l(1) by auto
qed

text \<open>Witness of C33: the last two of four bytes.\<close>

theorem copy_skips_block_end_witness:
  "\<exists>l l' n. add_all [(2, 4)] NewIntervalList = Some l \<and> Copy l [0, 0, 0, 0] [1, 1, 1, 1] = Some (l', Inr ([0, 0, 0, 0], n))"
  using copy_skips_block_end [of "[0, 0, 0, 0]" "[1, 1, 1, 1]" 2] by (simp add: MaxInt_def)

text \<open>
  A merge that joins the last interval leaves the backward chain at the joined node: an addition after it
  yields overlapping intervals, and \<^verbatim>\<open>Total\<close> gives 30 for 20 covered offsets.
\<close>

theorem add_after_merge_breaks:
  "Option.bind (Option.bind (add_all [(0, 10), (10, 20)] NewIntervalList) doMerge)
     (\<lambda>l. Option.bind (add_new (5, 8) l) Total) = Some 30"
  by code_simp

end
