(* ===== verification/Block_Backend.thy ===== *)
theory Block_Backend
  imports Block_Key Slot_Pool Interval_Copy
begin

text \<open>
  \<^verbatim>\<open>src/pkg/storage/adaptor/storage_backend.go\<close> and \<^verbatim>\<open>mem_storage_backend.go\<close>: the interface to the storage of
  blocks and the backend that keeps them in memory. Reading hands out the stored array itself, so byte slices
  are addresses in the store of arrays (\<^typ>\<open>mem\<close>) that blocks and pools share.
\<close>

section \<open>The interface\<close>

datatype gerror = ErrBlockNotFound | ErrByteArrLenNotmatched | ErrBlockDestoryed | ErrInvalidReadOffset
  | ErrInvalidWriteOffset | EOF | OtherError string

datatype 'a outcome = Done 'a | Fail gerror | Panic

text \<open>
  A call runs on the store of arrays and on the backend's own state; \<^const>\<open>None\<close> is a call that never
  returns. A slice may be nil. \<^verbatim>\<open>WriteAt\<close> merges the caller's list of intervals.
\<close>

type_synonym ('a, 's) call = "mem \<times> 's \<Rightarrow> ('a outcome \<times> mem \<times> 's) option"

record 's StorageBackend =
  be_Read :: "BlockKey \<Rightarrow> (slice, 's) call"
  be_Write :: "BlockKey \<Rightarrow> slice option \<Rightarrow> (unit, 's) call"
  be_WriteAt :: "BlockKey \<Rightarrow> IntervalList \<Rightarrow> slice option \<Rightarrow> mem \<times> 's \<Rightarrow> (unit outcome \<times> IntervalList \<times> mem \<times> 's) option"

definition data_bytes :: "mem \<Rightarrow> slice option \<Rightarrow> bytes" where
  "data_bytes m d = (case d of None \<Rightarrow> [] | Some s \<Rightarrow> slice_bytes m s)"

section \<open>The memory backend\<close>

record MemStorageBackend =
  blockSize :: nat
  backed :: "BlockKey \<rightharpoonup> nat"
  ino2key :: "u64 \<rightharpoonup> BlockKey list"

definition NewMemStorageBackend :: "nat \<Rightarrow> MemStorageBackend" where
  "NewMemStorageBackend n = \<lparr> blockSize = n, backed = Map.empty, ino2key = Map.empty \<rparr>"

definition mem_Read :: "BlockKey \<Rightarrow> (slice, MemStorageBackend) call" where
  "mem_Read key w = (case w of (m, b) \<Rightarrow> Some ((case backed b key of
     None \<Rightarrow> Fail ErrBlockNotFound
   | Some a \<Rightarrow> Done \<lparr> arr = a, len = blockSize b \<rparr>), w))"

definition ensureBlockExists :: "BlockKey \<Rightarrow> mem \<times> MemStorageBackend \<Rightarrow> mem \<times> MemStorageBackend" where
  "ensureBlockExists key w = (case w of (m, b) \<Rightarrow> (case backed b key of
     Some _ \<Rightarrow> w
   | None \<Rightarrow> (case make_slice (blockSize b) m of (s, m1) \<Rightarrow> (m1, b \<lparr> backed := (backed b)(key \<mapsto> arr s) \<rparr>))))"

text \<open>\<^verbatim>\<open>copy(b.backed[key], data[off:end])\<close>.\<close>

definition put_block :: "BlockKey \<Rightarrow> bytes \<Rightarrow> mem \<times> MemStorageBackend \<Rightarrow> mem \<times> MemStorageBackend" where
  "put_block key bs w = (case w of (m, b) \<Rightarrow> (case backed b key of
     None \<Rightarrow> w | Some a \<Rightarrow> (slice_write \<lparr> arr = a, len = blockSize b \<rparr> 0 bs m, b)))"

partial_function (option) write_loop ::
  "u64 \<Rightarrow> slice option \<Rightarrow> BlockKey \<Rightarrow> int \<Rightarrow> int \<Rightarrow> BlockKey list \<Rightarrow> (BlockKey list, MemStorageBackend) call" where
  [code]: "write_loop ino data key off remaining ka w = (
     if remaining > 0 then
       (let en = min (int (blockSize (snd w))) remaining;
            w1 = ensureBlockExists key w;
            bs = data_bytes (fst w1) data
        in if off \<le> en then
             write_loop ino data (NewBlockKey ino (GetIndex key + 1)) en (remaining - (en - off)) (ka @ [key])
               (put_block key (subrange (nat off) (nat en) bs) w1)
           else Some (Panic, w1))
     else Some (Done ka, w))"

definition doWrite :: "BlockKey \<Rightarrow> slice option \<Rightarrow> (unit, MemStorageBackend) call" where
  "doWrite key data w = (
     let ino = GetIno key; ka = (case ino2key (snd w) ino of None \<Rightarrow> [] | Some ka \<Rightarrow> ka)
     in case write_loop ino data key 0 (int (length (data_bytes (fst w) data))) ka w of
          None \<Rightarrow> None
        | Some (Done ka', m, b) \<Rightarrow> Some (Done (), m, b \<lparr> ino2key := (ino2key b)(ino \<mapsto> ka') \<rparr>)
        | Some (Fail e, w1) \<Rightarrow> Some (Fail e, w1)
        | Some (Panic, w1) \<Rightarrow> Some (Panic, w1))"

definition mem_Write :: "BlockKey \<Rightarrow> slice option \<Rightarrow> (unit, MemStorageBackend) call" where
  "mem_Write key data w = (
     if IsAllBytesZero (data_bytes (fst w) data) then Some (Panic, w) else doWrite key data w)"

definition mem_WriteAt :: "BlockKey \<Rightarrow> IntervalList \<Rightarrow> slice option \<Rightarrow> mem \<times> MemStorageBackend \<Rightarrow>
    (unit outcome \<times> IntervalList \<times> mem \<times> MemStorageBackend) option" where
  "mem_WriteAt key interval data w = (case w of (m, b) \<Rightarrow> (case backed b key of
     None \<Rightarrow> map_option (\<lambda>(r, w1). (r, interval, w1)) (doWrite key data w)
   | Some a \<Rightarrow> (case Copy interval (arrays m ! a) (data_bytes m data) of
       None \<Rightarrow> None
     | Some (l, Inr (dst, n)) \<Rightarrow> Some (Done (), l, m \<lparr> arrays := (arrays m)[a := dst] \<rparr>, b)
     | Some (l, Inl copy_error.ErrByteArrLenNotmatched) \<Rightarrow> Some (Fail ErrByteArrLenNotmatched, l, w)
     | Some (l, Inl CopyPanic) \<Rightarrow> Some (Panic, l, w))))"

definition mem_Delete :: "u64 \<Rightarrow> (unit, MemStorageBackend) call" where
  "mem_Delete ino w = (case w of (m, b) \<Rightarrow> (case ino2key b ino of
     None \<Rightarrow> Some (Done (), w)
   | Some ka \<Rightarrow> Some (Done (), m, b \<lparr> backed := fold (\<lambda>k f. f(k := None)) ka (backed b), ino2key := (ino2key b)(ino := None) \<rparr>)))"

definition Destory :: "(unit, MemStorageBackend) call" where
  "Destory w = (case w of (m, b) \<Rightarrow> Some (Done (), m, b \<lparr> ino2key := Map.empty, backed := Map.empty \<rparr>))"

definition mem_backend :: "MemStorageBackend StorageBackend" where
  "mem_backend = \<lparr> be_Read = mem_Read, be_Write = mem_Write, be_WriteAt = mem_WriteAt \<rparr>"

section \<open>What it stores\<close>

definition blocks :: "mem \<times> MemStorageBackend \<Rightarrow> BlockKey \<Rightarrow> bytes option" where
  "blocks w k = map_option (\<lambda>a. arrays (fst w) ! a) (backed (snd w) k)"

text \<open>
  The invariant: every block has an array of its own, of the block size and outside the pools, and is listed
  under its inode. \<^verbatim>\<open>doWrite\<close> brings the lists up to date only at its end.
\<close>

definition arrays_ok :: "mem \<times> MemStorageBackend \<Rightarrow> bool" where
  "arrays_ok w \<longleftrightarrow> pool_ok (fst w)
     \<and> (\<forall>k a. backed (snd w) k = Some a \<longrightarrow>
          a < length (arrays (fst w)) \<and> a \<notin> pooled (fst w) \<and> length (arrays (fst w) ! a) = blockSize (snd w))
     \<and> (\<forall>k k' a. backed (snd w) k = Some a \<and> backed (snd w) k' = Some a \<longrightarrow> k = k')"

definition listed :: "MemStorageBackend \<Rightarrow> bool" where
  "listed b \<longleftrightarrow> (\<forall>k a. backed b k = Some a \<longrightarrow> (\<exists>ka. ino2key b (GetIno k) = Some ka \<and> k \<in> set ka))
     \<and> (\<forall>ino ka k. ino2key b ino = Some ka \<and> k \<in> set ka \<longrightarrow> GetIno k = ino)"

definition backend_ok :: "mem \<times> MemStorageBackend \<Rightarrow> bool" where
  "backend_ok w \<longleftrightarrow> arrays_ok w \<and> listed (snd w)"

text \<open>The old contents of a block, zeros where there is none.\<close>

definition old_block :: "mem \<times> MemStorageBackend \<Rightarrow> BlockKey \<Rightarrow> bytes" where
  "old_block w k = (case blocks w k of None \<Rightarrow> replicate (blockSize (snd w)) 0 | Some d \<Rightarrow> d)"

lemma arrays_okD:
  assumes "arrays_ok w" and "backed (snd w) k = Some a"
  shows "a < length (arrays (fst w))" "a \<notin> pooled (fst w)" "length (arrays (fst w) ! a) = blockSize (snd w)"
  using assms by (simp_all add: arrays_ok_def)

lemma arrays_ok_inj: "arrays_ok w \<Longrightarrow> backed (snd w) k = Some a \<Longrightarrow> backed (snd w) k' = Some a \<Longrightarrow> k = k'"
  unfolding arrays_ok_def by blast

lemma new_backend_ok: "pool_ok m \<Longrightarrow> backend_ok (m, NewMemStorageBackend n)"
  by (simp add: backend_ok_def arrays_ok_def listed_def NewMemStorageBackend_def)

lemma blocks_length: "arrays_ok w \<Longrightarrow> blocks w k = Some d \<Longrightarrow> length d = blockSize (snd w)"
  by (auto simp: blocks_def arrays_okD)

lemma ensure_simps [simp]:
  "blockSize (snd (ensureBlockExists key w)) = blockSize (snd w)" "ino2key (snd (ensureBlockExists key w)) = ino2key (snd w)"
  "used (fst (ensureBlockExists key w)) = used (fst w)" "pooled (fst (ensureBlockExists key w)) = pooled (fst w)"
  "a < length (arrays (fst w)) \<Longrightarrow> arrays (fst (ensureBlockExists key w)) ! a = arrays (fst w) ! a"
  "backed (snd (ensureBlockExists key w)) key \<noteq> None"
  by (cases w; auto simp: ensureBlockExists_def make_slice_def nth_append pooled_def split: option.splits)+

lemma ensure_ok:
  assumes "arrays_ok w"
  shows "arrays_ok (ensureBlockExists key w) \<and> blocks (ensureBlockExists key w) = (blocks w)(key \<mapsto> old_block w key)"
proof (cases "backed (snd w) key")
  case None
  obtain m b where w: "w = (m, b)" by fastforce
  have lt: "\<And>k a. backed b k = Some a \<Longrightarrow> a < length (arrays m)" using arrays_okD(1) [OF assms] by (simp add: w)
  let ?m = "m \<lparr> arrays := arrays m @ [replicate (blockSize b) 0] \<rparr>"
  have e: "ensureBlockExists key w = (?m, b \<lparr> backed := (backed b)(key \<mapsto> length (arrays m)) \<rparr>)"
    using None by (simp add: ensureBlockExists_def w make_slice_def)
  have p: "pool_ok ?m" "pooled ?m = pooled m"
    using make_ok(1,2) [of m "blockSize b"] assms by (simp_all add: make_slice_def arrays_ok_def w)
  have n: "length (arrays m) \<notin> pooled m" using pool_ok_bound [of m] assms by (auto simp: arrays_ok_def w)
  have "arrays_ok (?m, b \<lparr> backed := (backed b)(key \<mapsto> length (arrays m)) \<rparr>)"
    unfolding arrays_ok_def using p n lt arrays_okD [OF assms] arrays_ok_inj [OF assms] None
    by (auto simp: w nth_append less_Suc_eq dest: lt)
  moreover have "blocks (?m, b \<lparr> backed := (backed b)(key \<mapsto> length (arrays m)) \<rparr>) = (blocks w)(key \<mapsto> old_block w key)"
  proof
    fix k
    show "blocks (?m, b \<lparr> backed := (backed b)(key \<mapsto> length (arrays m)) \<rparr>) k = ((blocks w)(key \<mapsto> old_block w key)) k"
      using lt [of k] None by (cases "backed b k") (auto simp: blocks_def old_block_def w nth_append)
  qed
  ultimately show ?thesis by (simp add: e)
next
  case (Some a)
  then show ?thesis using assms
    by (cases w) (auto simp: ensureBlockExists_def blocks_def old_block_def fun_upd_idem_iff split: option.splits)
qed

lemma put_simps [simp]: "snd (put_block key bs w) = snd w" "pooled (fst (put_block key bs w)) = pooled (fst w)"
  by (cases w; simp add: put_block_def split: option.splits)+

lemma put_ok:
  assumes "arrays_ok w" and "blocks w key = Some d"
  shows "arrays_ok (put_block key bs w) \<and> blocks (put_block key bs w) = (blocks w)(key \<mapsto> blit 0 bs d)"
proof -
  obtain m b where w: "w = (m, b)" by fastforce
  obtain a where a: "backed b key = Some a" "d = arrays m ! a" using assms(2) by (auto simp: blocks_def w)
  have p: "put_block key bs w = (slice_write \<lparr> arr = a, len = blockSize b \<rparr> 0 bs m, b)" using a by (simp add: put_block_def w)
  have "arrays_ok (put_block key bs w)"
    using assms(1) unfolding p arrays_ok_def by (auto simp: w slice_write_nth)
  moreover have "blocks (put_block key bs w) = (blocks w)(key \<mapsto> blit 0 bs d)"
  proof
    fix k
    show "blocks (put_block key bs w) k = ((blocks w)(key \<mapsto> blit 0 bs d)) k"
      using a arrays_okD(1) [OF assms(1), of k] arrays_ok_inj [OF assms(1), of k _ key] unfolding p
      by (cases "backed b k") (auto simp: blocks_def w slice_write_nth)
  qed
  ultimately show ?thesis by simp
qed

definition valid :: "mem \<Rightarrow> slice option \<Rightarrow> bool" where
  "valid m d \<longleftrightarrow> (case d of None \<Rightarrow> True | Some s \<Rightarrow> arr s < length (arrays m))"

lemma data_ensure [simp]: "valid (fst w) d \<Longrightarrow> data_bytes (fst (ensureBlockExists key w)) d = data_bytes (fst w) d"
  by (auto simp: valid_def data_bytes_def slice_bytes_def split: option.splits)

text \<open>The loop for data that fit into a block.\<close>

lemma write_loop_fits:
  assumes "valid (fst w) d" and "bs = data_bytes (fst w) d" and "0 < length bs" and "length bs \<le> blockSize (snd w)"
  shows "write_loop ino d key 0 (int (length bs)) ka w = Some (Done (ka @ [key]), put_block key bs (ensureBlockExists key w))"
proof -
  have "subrange 0 (length bs) bs = bs" by (simp add: subrange_def)
  with assms show ?thesis
    by (subst write_loop.simps, subst write_loop.simps) (simp add: Let_def)
qed

text \<open>A write of data that fit: the front of the block becomes the data, every other block stays.\<close>

lemma doWrite_fits:
  assumes "backend_ok w" and "valid (fst w) d" and "bs = data_bytes (fst w) d"
    and "0 < length bs" and "length bs \<le> blockSize (snd w)"
  obtains w' where "doWrite key d w = Some (Done (), w')" "backend_ok w'" "blocks w' = (blocks w)(key \<mapsto> blit 0 bs (old_block w key))"
    "blockSize (snd w') = blockSize (snd w)"
proof -
  let ?e = "ensureBlockExists key w" and ?p = "put_block key bs (ensureBlockExists key w)"
  let ?ka = "(case ino2key (snd w) (GetIno key) of None \<Rightarrow> [] | Some ka \<Rightarrow> ka) @ [key]"
  let ?w = "(fst ?p, (snd ?p) \<lparr> ino2key := (ino2key (snd ?p))(GetIno key \<mapsto> ?ka) \<rparr>)"
  have A: "arrays_ok w" "listed (snd w)" using assms(1) by (simp_all add: backend_ok_def)
  note e = ensure_ok [OF A(1), of key]
  have "blocks ?e key = Some (old_block w key)" using e by simp
  note p = put_ok [OF conjunct1 [OF e] this, of bs]
  have r: "doWrite key d w = Some (Done (), ?w)"
    using write_loop_fits [OF assms(2-5), of "GetIno key" key] prod.collapse [of ?p]
    unfolding doWrite_def Let_def assms(3) [symmetric] by (cases ?p) simp
  have k: "backed (snd ?e) k \<noteq> None \<Longrightarrow> k = key \<or> backed (snd w) k \<noteq> None" for k
    by (cases w) (auto simp: ensureBlockExists_def make_slice_def split: option.splits if_splits)
  have "listed (snd ?w)"
    unfolding listed_def
  proof (intro conjI allI impI)
    fix k a assume "backed (snd ?w) k = Some a"
    then have "k = key \<or> backed (snd w) k \<noteq> None" using k [of k] by simp
    then show "\<exists>ka. ino2key (snd ?w) (GetIno k) = Some ka \<and> k \<in> set ka"
    proof
      assume "k = key"
      then show ?thesis by simp
    next
      assume "backed (snd w) k \<noteq> None"
      then obtain ka where ka: "ino2key (snd w) (GetIno k) = Some ka" "k \<in> set ka" using A(2) unfolding listed_def by blast
      then show ?thesis by (cases "GetIno k = GetIno key") auto
    qed
  next
    fix ino ka k assume "ino2key (snd ?w) ino = Some ka \<and> k \<in> set ka"
    then show "GetIno k = ino" using A(2) unfolding listed_def by (auto split: if_splits option.splits)
  qed
  moreover have "arrays_ok ?w" using p by (simp add: arrays_ok_def)
  moreover have "blocks ?w = (blocks w)(key \<mapsto> blit 0 bs (old_block w key))"
    using p e by (simp add: blocks_def fun_eq_iff)
  ultimately show thesis using r by (intro that [of ?w]) (simp_all add: backend_ok_def)
qed

lemma fold_forget: "fold (\<lambda>k f. f(k := None)) ka f = (\<lambda>k. if k \<in> set ka then None else f k)"
  by (induction ka arbitrary: f) auto

lemma Delete_forgets:
  assumes "backend_ok w"
  obtains w' where "mem_Delete ino w = Some (Done (), w')" "backend_ok w'" "blocks w' = (\<lambda>k. if GetIno k = ino then None else blocks w k)"
proof (cases "ino2key (snd w) ino")
  case None
  have "blocks w k = None" if "GetIno k = ino" for k
  proof (cases "backed (snd w) k")
    case (Some a)
    then have "ino2key (snd w) (GetIno k) \<noteq> None" using assms unfolding backend_ok_def listed_def by blast
    with None that show ?thesis by simp
  qed (simp add: blocks_def)
  then have b: "blocks w = (\<lambda>k. if GetIno k = ino then None else blocks w k)" by auto
  have "mem_Delete ino w = Some (Done (), w)" using None by (simp add: mem_Delete_def split_beta)
  from that [OF this assms b] show thesis .
next
  case (Some ka)
  let ?b = "(snd w) \<lparr> backed := fold (\<lambda>k f. f(k := None)) ka (backed (snd w)), ino2key := (ino2key (snd w))(ino := None) \<rparr>"
  have L: "listed (snd w)" and A: "arrays_ok w" using assms by (simp_all add: backend_ok_def)
  have ka: "k \<in> set ka \<longleftrightarrow> GetIno k = ino" if b: "backed (snd w) k = Some a" for k a
  proof
    obtain ka' where "ino2key (snd w) (GetIno k) = Some ka'" "k \<in> set ka'" using L b unfolding listed_def by blast
    then show "k \<in> set ka" if "GetIno k = ino" using that Some by simp
    show "GetIno k = ino" if "k \<in> set ka" using that L Some unfolding listed_def by blast
  qed
  have "listed ?b"
    unfolding listed_def
  proof (intro conjI allI impI)
    fix k a assume "backed ?b k = Some a"
    then have k: "backed (snd w) k = Some a" "k \<notin> set ka" by (simp_all add: fold_forget split: if_splits)
    then obtain ka' where "ino2key (snd w) (GetIno k) = Some ka'" "k \<in> set ka'" using L unfolding listed_def by blast
    then show "\<exists>ka. ino2key ?b (GetIno k) = Some ka \<and> k \<in> set ka" using k ka [OF k(1)] by simp
  next
    fix ino' ka' k assume "ino2key ?b ino' = Some ka' \<and> k \<in> set ka'"
    then show "GetIno k = ino'" using L unfolding listed_def by (cases "ino' = ino") auto
  qed
  moreover have "arrays_ok (fst w, ?b)" 
    using A unfolding arrays_ok_def by (simp add: fold_forget split: if_splits)
  moreover have "blocks (fst w, ?b) = (\<lambda>k. if GetIno k = ino then None else blocks w k)"
  proof
    fix k show "blocks (fst w, ?b) k = (if GetIno k = ino then None else blocks w k)"
      using ka [of k] by (cases "backed (snd w) k") (auto simp: blocks_def fold_forget)
  qed
  ultimately show thesis using Some
    by (intro that [of "(fst w, ?b)"]) (simp_all add: mem_Delete_def split_beta backend_ok_def)
qed

definition nonzero :: "bytes \<Rightarrow> bool" where
  "nonzero bs \<longleftrightarrow> (\<exists>b \<in> set bs. b \<noteq> 0)"

lemma IsAllBytesZero_nonzero: "IsAllBytesZero bs \<longleftrightarrow> \<not> nonzero bs"
  using all_zero_iff [of bs] by (simp add: nonzero_def replicate_length_same [symmetric]) (metis in_set_replicate replicate_length_same)

lemma mem_Read_blocks:
  assumes "arrays_ok w"
  shows "case blocks w key of None \<Rightarrow> mem_Read key w = Some (Fail ErrBlockNotFound, w)
    | Some d \<Rightarrow> \<exists>s. mem_Read key w = Some (Done s, w) \<and> slice_bytes (fst w) s = d \<and> len s = blockSize (snd w)
        \<and> backed (snd w) key = Some (arr s)"
  using arrays_okD(3) [OF assms, of key]
  by (cases "backed (snd w) key") (auto simp: blocks_def mem_Read_def slice_bytes_def split_beta)


text \<open>Witness of C40: four bytes into an empty backend with blocks of eight.\<close>

lemma sample_ok: "backend_ok (snd (make_slice 4 init_pools), NewMemStorageBackend 8)"
  using make_ok(1) [OF init_pools_ok, of 4] by (intro new_backend_ok) (simp add: make_slice_def)


section \<open>Data longer than a block\<close>

lemma write_loop_stuck:
  assumes "write_loop ino d key off remaining ka w = Some r"
  shows "\<not> (off = int (blockSize (snd w)) \<and> off \<le> remaining \<and> 0 < remaining)"
  using assms
proof (induction ino d key off remaining ka w r rule: write_loop.raw_induct [rotated 1, consumes 1, case_names step])
  case (step f ino d key off remaining ka w r)
  show ?case
  proof
    assume o: "off = int (blockSize (snd w)) \<and> off \<le> remaining \<and> 0 < remaining"
    then have m: "min (int (blockSize (snd w))) remaining = off" by simp
    have "f ino d (NewBlockKey ino (GetIndex key + 1)) off remaining (ka @ [key])
        (put_block key (subrange (nat off) (nat off) (data_bytes (fst (ensureBlockExists key w)) d)) (ensureBlockExists key w)) = Some r"
      using step(2) o by (simp add: Let_def m)
    from step(1) [OF this] o show False by simp
  qed
qed

text \<open>
  Data longer than the block size are never written in pieces: up to less than twice the size the second
  piece is taken out of bounds and the call panics; from twice the size on the call never returns.
\<close>

theorem write_beyond_block:
  assumes "valid (fst w) d" and "n = length (data_bytes (fst w) d)" and "nonzero (data_bytes (fst w) d)"
    and "blockSize (snd w) < n" and "0 < blockSize (snd w)"
  shows "if n < 2 * blockSize (snd w) then \<exists>w'. mem_Write key d w = Some (Panic, w') else mem_Write key d w = None"
proof -
  let ?b = "blockSize (snd w)" and ?k = "NewBlockKey (GetIno key) (GetIndex key + 1)"
  let ?ka = "case ino2key (snd w) (GetIno key) of None \<Rightarrow> [] | Some ka \<Rightarrow> ka"
  define w1 where "w1 = put_block key (subrange 0 ?b (data_bytes (fst w) d)) (ensureBlockExists key w)"
  have b1: "blockSize (snd w1) = ?b" by (simp add: w1_def)
  have 1: "write_loop (GetIno key) d key 0 (int n) ?ka w = write_loop (GetIno key) d ?k (int ?b) (int n - int ?b) (?ka @ [key]) w1"
    using assms(1,4) by (subst write_loop.simps) (simp add: Let_def w1_def)
  have D: "mem_Write key d w = doWrite key d w" using assms(3) by (simp add: mem_Write_def IsAllBytesZero_nonzero)
  show ?thesis
  proof (cases "n < 2 * ?b")
    case True
    have "write_loop (GetIno key) d ?k (int ?b) (int n - int ?b) (?ka @ [key]) w1 = Some (Panic, ensureBlockExists ?k w1)"
      using True assms(4) by (subst write_loop.simps) (simp add: Let_def b1)
    with 1 True show ?thesis by (simp add: D doWrite_def Let_def assms(2))
  next
    case False
    have "write_loop (GetIno key) d ?k (int ?b) (int n - int ?b) (?ka @ [key]) w1 = None"
      using write_loop_stuck [of "GetIno key" d ?k "int ?b" "int n - int ?b" "?ka @ [key]" w1] False assms(4,5)
      by (cases "write_loop (GetIno key) d ?k (int ?b) (int n - int ?b) (?ka @ [key]) w1") (auto simp: b1)
    with 1 False show ?thesis by (simp add: D doWrite_def Let_def assms(2))
  qed
qed

text \<open>Witness of C37: three bytes panic and four never return where blocks have two.\<close>

theorem write_beyond_block_witness:
  "(\<exists>w'. mem_Write ''1,0'' (Some \<lparr> arr = 0, len = 3 \<rparr>) (init_pools \<lparr> arrays := [[1, 2, 3, 4]] \<rparr>, NewMemStorageBackend 2) = Some (Panic, w'))
   \<and> mem_Write ''1,0'' (Some \<lparr> arr = 0, len = 4 \<rparr>) (init_pools \<lparr> arrays := [[1, 2, 3, 4]] \<rparr>, NewMemStorageBackend 2) = None"
proof -
  let ?w = "(init_pools \<lparr> arrays := [[1, 2, 3, 4]] \<rparr>, NewMemStorageBackend 2)"
  have "data_bytes (fst ?w) (Some \<lparr> arr = 0, len = 3 \<rparr>) = [1, 2, 3]" "data_bytes (fst ?w) (Some \<lparr> arr = 0, len = 4 \<rparr>) = [1, 2, 3, 4]"
    by (simp_all add: data_bytes_def slice_bytes_def)
  with write_beyond_block [of ?w "Some \<lparr> arr = 0, len = 3 \<rparr>" 3 "''1,0''"] write_beyond_block [of ?w "Some \<lparr> arr = 0, len = 4 \<rparr>" 4 "''1,0''"]
  show ?thesis by (simp add: valid_def nonzero_def NewMemStorageBackend_def)
qed

section \<open>The contract of a backend\<close>

text \<open>
  What the users of a backend rely on: blocks written whole are read back, and arrays that the backend does not
  own, among them every buffer handed out by the pools, can be changed without changing what is stored.
\<close>

locale block_storage =
  fixes B :: "'s StorageBackend"
    and ok :: "mem \<times> 's \<Rightarrow> bool"
    and stored :: "mem \<times> 's \<Rightarrow> BlockKey \<Rightarrow> bytes option"
    and owned :: "'s \<Rightarrow> nat set"
    and bsize :: "'s \<Rightarrow> nat"
  assumes pools_kept: "ok w \<Longrightarrow> pool_ok (fst w)"
    and read_stored: "ok w \<Longrightarrow> stored w key = Some old \<Longrightarrow> \<exists>s. be_Read B key w = Some (Done s, w) \<and> slice_bytes (fst w) s = old"
    and write_whole: "ok w \<Longrightarrow> valid (fst w) d \<Longrightarrow> bs = data_bytes (fst w) d \<Longrightarrow> length bs = bsize (snd w) \<Longrightarrow> nonzero bs \<Longrightarrow>
      \<exists>w'. be_Write B key d w = Some (Done (), w') \<and> ok w' \<and> stored w' = (stored w)(key \<mapsto> bs)"
    and change_foreign: "ok (m, s) \<Longrightarrow> arr r \<notin> owned s \<Longrightarrow> arr r \<notin> pooled m \<Longrightarrow>
      ok (slice_write r off x m, s) \<and> stored (slice_write r off x m, s) = stored (m, s)"
    and allocate: "ok (m, s) \<Longrightarrow> Allocate ch n m = Some (r, m') \<Longrightarrow>
      ok (m', s) \<and> stored (m', s) = stored (m, s) \<and> arr r \<notin> owned s"

definition owned_arrays :: "MemStorageBackend \<Rightarrow> nat set" where
  "owned_arrays b = ran (backed b)"

lemma blit_whole: "length bs = length old \<Longrightarrow> blit 0 bs old = bs"
  by (simp add: blit_def Let_def)

lemma old_block_length: "arrays_ok w \<Longrightarrow> length (old_block w key) = blockSize (snd w)"
  by (auto simp: old_block_def blocks_length split: option.splits)

lemma blocks_cong:
  assumes "\<And>a. a \<in> owned_arrays b \<Longrightarrow> arrays m' ! a = arrays m ! a"
  shows "blocks (m', b) = blocks (m, b)"
proof
  fix k show "blocks (m', b) k = blocks (m, b) k"
    using assms by (cases "backed b k") (auto simp: blocks_def owned_arrays_def intro: ranI)
qed

lemma backend_ok_cong:
  assumes "backend_ok (m, b)" and "pool_ok m'" and "pooled m' \<subseteq> pooled m \<union> - owned_arrays b"
    and "\<And>a. a \<in> owned_arrays b \<Longrightarrow> a < length (arrays m') \<and> arrays m' ! a = arrays m ! a"
  shows "backend_ok (m', b)"
proof -
  have "a < length (arrays m') \<and> a \<notin> pooled m' \<and> length (arrays m' ! a) = blockSize b" if "backed b k = Some a" for k a
    using assms that ranI [of "backed b" k a] by (auto simp: backend_ok_def arrays_ok_def owned_arrays_def)
  then show ?thesis using assms(1,2) unfolding backend_ok_def arrays_ok_def by simp
qed

lemma owned_bound: "backend_ok (m, b) \<Longrightarrow> a \<in> owned_arrays b \<Longrightarrow> a < length (arrays m) \<and> a \<notin> pooled m"
  by (auto simp: backend_ok_def arrays_ok_def owned_arrays_def ran_def)

interpretation memst: block_storage mem_backend backend_ok blocks owned_arrays blockSize
proof
  fix w :: "mem \<times> MemStorageBackend" and key d bs
  assume ok: "backend_ok w"
  show "pool_ok (fst w)" using ok by (simp add: backend_ok_def arrays_ok_def)
  show "blocks w key = Some d' \<Longrightarrow> \<exists>s. be_Read mem_backend key w = Some (Done s, w) \<and> slice_bytes (fst w) s = d'" for d'
    using mem_Read_blocks [of w key] ok by (auto simp: backend_ok_def mem_backend_def)
  assume d: "valid (fst w) d" "bs = data_bytes (fst w) d" "length bs = blockSize (snd w)" "nonzero bs"
  have n: "0 < length bs" using d(4) by (auto simp: nonzero_def)
  have "blit 0 bs (old_block w key) = bs" using d(3) old_block_length [of w key] ok by (simp add: blit_whole backend_ok_def)
  with doWrite_fits [OF ok d(1,2) n, of key] d(3)
  have "\<exists>w'. doWrite key d w = Some (Done (), w') \<and> backend_ok w' \<and> blocks w' = (blocks w)(key \<mapsto> bs)" by (metis order_refl)
  then show "\<exists>w'. be_Write mem_backend key d w = Some (Done (), w') \<and> backend_ok w' \<and> blocks w' = (blocks w)(key \<mapsto> bs)"
    using d(2,4) IsAllBytesZero_nonzero [of bs] by (simp add: mem_backend_def mem_Write_def)
next
  fix m :: mem and s :: MemStorageBackend and r :: slice and off x
  assume ok: "backend_ok (m, s)" and r: "arr r \<notin> owned_arrays s"
  have e: "arrays (slice_write r off x m) ! a = arrays m ! a" if "a \<in> owned_arrays s" for a
    using r that by (auto simp: slice_write_nth)
  show "backend_ok (slice_write r off x m, s) \<and> blocks (slice_write r off x m, s) = blocks (m, s)"
    using blocks_cong [OF e] backend_ok_cong [OF ok, of "slice_write r off x m"] e owned_bound [OF ok] ok
    by (simp add: backend_ok_def arrays_ok_def)
next
  fix m m' :: mem and s :: MemStorageBackend and ch n and r :: slice
  assume ok: "backend_ok (m, s)" and al: "Allocate ch n m = Some (r, m')"
  have "pool_ok m" using ok by (simp add: backend_ok_def arrays_ok_def)
  from Allocate_spec [OF this, of ch n] al have A: "pool_ok m'" "pooled m' \<subseteq> pooled m" "arr r \<in> pooled m \<or> arr r = length (arrays m)"
    "\<forall>a < length (arrays m). a \<notin> pooled m \<longrightarrow> arrays m' ! a = arrays m ! a" "length (arrays m) \<le> length (arrays m')" by auto
  have e: "a < length (arrays m') \<and> arrays m' ! a = arrays m ! a" if "a \<in> owned_arrays s" for a
    using owned_bound [OF ok that] A(4,5) by simp
  have "arr r \<notin> owned_arrays s" using owned_bound [OF ok, of "arr r"] A(3) by auto
  then show "backend_ok (m', s) \<and> blocks (m', s) = blocks (m, s) \<and> arr r \<notin> owned_arrays s"
    using backend_ok_cong [OF ok A(1) _ e] blocks_cong [of s m' m] e A(2) by blast
qed

end
