(* ===== verification/Mem_Block.thy ===== *)
theory Mem_Block
  imports Block_Backend "HOL-Library.Signed_Division"
begin

text \<open>
  \<^verbatim>\<open>src/pkg/hugofs/vfs/buffer/block/block_mem.go\<close>: a block of a file in memory, filled by writes or from the
  storage, and flushed to it. A call runs on the store of arrays, the state of the storage and the block;
  \<^const>\<open>None\<close> is a call that never returns, \<^const>\<open>Panic\<close> one that panics. Each call holds the block's mutex, so calls
  are taken as atomic. Time stamps, which nothing reads, and logging are left out. File offsets stay far
  enough below \<open>2 ^ 63\<close> that sums with a block size do not wrap.
\<close>

section \<open>The block\<close>

record 's MemBlock =
  mb_blockSize :: int
  highOff :: int
  written :: int
  storage :: "'s StorageBackend option"
  mb_key :: BlockKey
  mb_data :: "slice option"
  flushed :: bool
  writtenMode :: bool
  mb_err :: "gerror option"
  closed :: bool
  interval :: IntervalList

definition NewMemBlock :: "'s StorageBackend option \<Rightarrow> BlockKey \<Rightarrow> int \<Rightarrow> 's MemBlock" where
  "NewMemBlock st key bsz = \<lparr> mb_blockSize = bsz, highOff = 0, written = 0, storage = st, mb_key = key, mb_data = None,
     flushed = False, writtenMode = False, mb_err = None, closed = False, interval = NewIntervalList \<rparr>"

text \<open>The counter of blocks open for writing is passed along.\<close>

definition NewMemBlockForWrite :: "'s StorageBackend option \<Rightarrow> BlockKey \<Rightarrow> int \<Rightarrow> int \<Rightarrow> 's MemBlock \<times> int" where
  "NewMemBlockForWrite st key bsz memBlockCounter = ((NewMemBlock st key bsz) \<lparr> writtenMode := True \<rparr>, memBlockCounter + 1)"

type_synonym ('a, 's) bcall = "(mem \<times> 's) \<times> 's MemBlock \<Rightarrow> ('a outcome \<times> (mem \<times> 's) \<times> 's MemBlock) option"

definition GetData :: "'s MemBlock \<Rightarrow> slice option" where "GetData b = mb_data b"
definition IsFlushed :: "'s MemBlock \<Rightarrow> bool" where "IsFlushed b = flushed b"
definition ShouldFlush :: "'s MemBlock \<Rightarrow> bool" where "ShouldFlush b \<longleftrightarrow> written b > 0 \<and> \<not> flushed b"
definition mb_Error :: "'s MemBlock \<Rightarrow> gerror option" where "mb_Error b = mb_err b"
definition mb_IsDestroyed :: "'s MemBlock \<Rightarrow> bool" where "mb_IsDestroyed b = closed b"

text \<open>\<^verbatim>\<open>strings.Contains\<close>, and the texts of the errors.\<close>

fun contains :: "string \<Rightarrow> string \<Rightarrow> bool" where
  "contains [] t \<longleftrightarrow> t = []"
| "contains (c # s) t \<longleftrightarrow> take (length t) (c # s) = t \<or> contains s t"

fun errText :: "gerror \<Rightarrow> string" where
  "errText ErrBlockNotFound = ''block not found''"
| "errText ErrByteArrLenNotmatched = ''byte array length should be equal''"
| "errText ErrBlockDestoryed = ''block is destroyed''"
| "errText ErrInvalidReadOffset = ''invalid read offset''"
| "errText ErrInvalidWriteOffset = ''invalid write offset''"
| "errText EOF = ''EOF''"
| "errText (OtherError s) = s"

text \<open>The end of \<^verbatim>\<open>doFlush\<close>.\<close>

definition flush_done :: "'s MemBlock \<Rightarrow> 's MemBlock" where
  "flush_done b = b \<lparr> flushed := True, written := 0 \<rparr>"

definition doFlush :: "(unit, 's) bcall" where
  "doFlush wb = (case wb of (w, b) \<Rightarrow>
     if flushed b \<or> written b = 0 then Some (Done (), wb)
     else (case storage b of None \<Rightarrow> Some (Done (), wb)
     | Some B \<Rightarrow> (case doMerge (interval b) of None \<Rightarrow> None
     | Some l \<Rightarrow> (let b1 = b \<lparr> interval := l \<rparr> in case Total l of None \<Rightarrow> None
     | Some t \<Rightarrow>
         if t = mb_blockSize b then
           (case be_Write B (mb_key b) (mb_data b) w of
              None \<Rightarrow> None
            | Some (Panic, w1) \<Rightarrow> Some (Panic, w1, b1)
            | Some (_, w1) \<Rightarrow> Some (Done (), w1, flush_done b1))
         else
           (case be_WriteAt B (mb_key b) l (mb_data b) w of
              None \<Rightarrow> None
            | Some (Panic, l1, w1) \<Rightarrow> Some (Panic, w1, b1 \<lparr> interval := l1 \<rparr>)
            | Some (Fail e, l1, w1) \<Rightarrow>
                if contains (errText e) ''block already exists'' then Some (Done (), w1, flush_done (b1 \<lparr> interval := l1 \<rparr>))
                else Some (Fail e, w1, b1 \<lparr> interval := l1 \<rparr>)
            | Some (Done _, l1, w1) \<Rightarrow> Some (Done (), w1, flush_done (b1 \<lparr> interval := l1 \<rparr>)))))))"

definition Flush :: "(unit, 's) bcall" where "Flush = doFlush"

definition IsFull :: "'s MemBlock \<Rightarrow> bool option" where
  "IsFull b = map_option (\<lambda>t. t = mb_blockSize b) (Total (interval b))"

definition Written :: "'s MemBlock \<Rightarrow> int option" where "Written b = Total (interval b)"

text \<open>\<^verbatim>\<open>if cap(b.data) > 0 { mem.Free(b.data) }\<close>.\<close>

definition free_data :: "'s MemBlock \<Rightarrow> mem \<Rightarrow> mem" where
  "free_data b m = (case mb_data b of None \<Rightarrow> m | Some s \<Rightarrow> if slice_cap m s > 0 then Free s m else m)"

text \<open>\<open>ch\<close> is the choice of \<^verbatim>\<open>sync.Pool\<close>.\<close>

definition doCache :: "nat \<Rightarrow> (unit, 's) bcall" where
  "doCache ch wb = (case wb of (w, b) \<Rightarrow> (case storage b of
     None \<Rightarrow> Some (Done (), wb)
   | Some B \<Rightarrow> (case be_Read B (mb_key b) w of
       None \<Rightarrow> None
     | Some (Panic, w1) \<Rightarrow> Some (Panic, w1, b)
     | Some (Fail e, m, s) \<Rightarrow> Some (Done (), (free_data b m, s), b \<lparr> mb_data := None, mb_err := Some e \<rparr>)
     | Some (Done d, m, s) \<Rightarrow>
         if int (len d) \<noteq> mb_blockSize b then
           (case Allocate ch (nat (mb_blockSize b)) m of
              None \<Rightarrow> Some (Panic, (m, s), b)
            | Some (nd, m1) \<Rightarrow>
                let bs = slice_bytes m1 d; m2 = slice_write nd 0 (take (len nd) bs) m1; b1 = b \<lparr> mb_data := Some nd \<rparr>
                in if IsAllBytesZero (slice_bytes m2 d) then Some (Panic, (m2, s), b1)
                   else Some (Done (), (m2, s), b1 \<lparr> written := 0, highOff := int (min (len nd) (length bs)) \<rparr>))
         else Some (Done (), (m, s), b \<lparr> mb_data := Some d, written := 0, highOff := int (len d) \<rparr>))))"

definition mb_reset :: "nat \<Rightarrow> (unit, 's) bcall" where "mb_reset ch = doCache ch"

text \<open>The part of \<^verbatim>\<open>ReadAt\<close> behind the test of the error; the slice expression reaches up to the capacity.\<close>

definition read_data :: "nat \<Rightarrow> int \<Rightarrow> u64 \<Rightarrow> (bytes, 's) bcall" where
  "read_data n startInBlock blockIdx wb = (case wb of (w, b) \<Rightarrow>
     let endInBlock = min (min (highOff b) (startInBlock + int n)) (sint (blockIdx + 1) * mb_blockSize b);
         dlen = (case mb_data b of None \<Rightarrow> 0 | Some d \<Rightarrow> len d);
         arr_bytes = (case mb_data b of None \<Rightarrow> [] | Some d \<Rightarrow> arrays (fst w) ! arr d)
     in if startInBlock \<ge> endInBlock \<or> startInBlock > int dlen then Some (Fail EOF, wb)
        else if startInBlock < 0 \<or> endInBlock > int (length arr_bytes) then Some (Panic, wb)
        else Some (Done (take n (subrange (nat startInBlock) (nat endInBlock) arr_bytes)), wb))"

text \<open>\<^verbatim>\<open>ReadAt(p, off)\<close> with a buffer of length \<open>n\<close>; the result is what is copied into it.\<close>

definition ReadAt :: "nat \<Rightarrow> nat \<Rightarrow> int \<Rightarrow> (bytes, 's) bcall" where
  "ReadAt ch n off wb = (case wb of (w, b) \<Rightarrow>
     let index = snd (Split (mb_key b)) in
     if mb_blockSize b = 0 then Some (Panic, wb)
     else if word_of_int (off sdiv mb_blockSize b) \<noteq> index then Some (Fail ErrInvalidReadOffset, wb)
     else (case mb_err b of
         None \<Rightarrow> read_data n (off smod mb_blockSize b) index wb
       | Some e \<Rightarrow> if e = ErrBlockDestoryed then
             (case mb_reset ch wb of
                None \<Rightarrow> None
              | Some (Done _, wb1) \<Rightarrow> read_data n (off smod mb_blockSize b) index wb1
              | Some (Fail e, wb1) \<Rightarrow> Some (Fail e, wb1)
              | Some (Panic, wb1) \<Rightarrow> Some (Panic, wb1))
           else Some (Fail e, wb)))"

text \<open>
  \<^verbatim>\<open>WriteAt(p, off)\<close>: the number of bytes and the error of the flush that a full count of written bytes causes.
\<close>

definition put_data :: "bytes \<Rightarrow> int \<Rightarrow> int \<Rightarrow> slice \<Rightarrow> (unit, 's) bcall" where
  "put_data p blockStart blockEnd d wb = (case wb of ((m, s), b) \<Rightarrow>
     if blockStart < 0 \<or> blockEnd < blockStart \<or> blockEnd > int (slice_cap m d) then Some (Panic, wb)
     else let n = nat (blockEnd - blockStart); m1 = slice_write d (nat blockStart) (take n p) m in
       (case add_new (blockStart, blockEnd) (interval b) of
          None \<Rightarrow> None
        | Some l \<Rightarrow> Some (Done (), (m1, s), b \<lparr> interval := l, written := written b + int n, highOff := max (highOff b) blockEnd \<rparr>)))"

definition WriteAt :: "nat \<Rightarrow> bytes \<Rightarrow> int \<Rightarrow> (nat \<times> gerror option, 's) bcall" where
  "WriteAt ch p off wb = (case wb of ((m, s), b) \<Rightarrow>
     if mb_blockSize b = 0 then Some (Panic, wb)
     else if word_of_int (off sdiv mb_blockSize b) \<noteq> snd (Split (mb_key b)) then Some (Done (0, Some ErrInvalidWriteOffset), wb)
     else let blockStart = off smod mb_blockSize b; blockEnd = min (blockStart + int (length p)) (mb_blockSize b);
              n = nat (blockEnd - blockStart)
       in case (case mb_data b of None \<Rightarrow> Allocate ch (nat (mb_blockSize b)) m | Some d \<Rightarrow> Some (d, m)) of
            None \<Rightarrow> Some (Panic, wb)
          | Some (d, m1) \<Rightarrow>
              (case put_data p blockStart blockEnd d ((m1, s), b \<lparr> mb_data := Some d \<rparr>) of
                 None \<Rightarrow> None
               | Some (Panic, wb1) \<Rightarrow> Some (Panic, wb1)
               | Some (Fail e, wb1) \<Rightarrow> Some (Fail e, wb1)
               | Some (Done _, w2, b2) \<Rightarrow>
                   if written b2 \<ge> mb_blockSize b2 then
                     (case Flush (w2, b2) of
                        None \<Rightarrow> None
                      | Some (Done _, wb3) \<Rightarrow> Some (Done (n, None), wb3)
                      | Some (Fail e, wb3) \<Rightarrow> Some (Done (n, Some e), wb3)
                      | Some (Panic, wb3) \<Rightarrow> Some (Panic, wb3))
                   else Some (Done (n, None), w2, b2)))"

definition Cache :: "nat \<Rightarrow> (unit, 's) bcall" where
  "Cache ch wb = (case doCache ch wb of
     None \<Rightarrow> None
   | Some (r, w, b) \<Rightarrow> Some (r, w, if mb_err b = Some ErrBlockDestoryed then b \<lparr> mb_err := None \<rparr> else b))"

definition Destroy :: "int \<Rightarrow> (mem \<times> 's) \<times> 's MemBlock \<Rightarrow> ((mem \<times> 's) \<times> 's MemBlock) \<times> int" where
  "Destroy memBlockCounter wb = (case wb of ((m, s), b) \<Rightarrow>
     if closed b then (wb, memBlockCounter)
     else (((free_data b m, s), b \<lparr> mb_data := None, mb_err := Some ErrBlockDestoryed, closed := True \<rparr>),
           if writtenMode b then memBlockCounter - 1 else memBlockCounter))"

section \<open>A block while it is written\<close>

text \<open>
  A block in writing stands for the bytes of the block, zero where nothing was written, and the set of offsets that
  were written; \<open>own\<close> are the arrays of the storage.
\<close>

definition content :: "nat set \<Rightarrow> mem \<Rightarrow> 's MemBlock \<Rightarrow> bytes \<Rightarrow> bool" where
  "content own m b bs \<longleftrightarrow> length bs = nat (mb_blockSize b) \<and> (case mb_data b of
       None \<Rightarrow> bs = replicate (nat (mb_blockSize b)) 0 \<and> highOff b = 0
     | Some d \<Rightarrow> arr d < length (arrays m) \<and> arr d \<notin> own \<and> arr d \<notin> pooled m \<and> len d = nat (mb_blockSize b) \<and> slice_bytes m d = bs)"

definition covers :: "'s MemBlock \<Rightarrow> int set \<Rightarrow> bool" where
  "covers b cv \<longleftrightarrow> (\<exists>as. rep (interval b) as \<and> covered (map (val (interval b)) as) = cv)
     \<and> cv \<subseteq> {0 ..< highOff b} \<and> 0 \<le> highOff b \<and> highOff b \<le> mb_blockSize b"

definition block_shape :: "'s MemBlock \<Rightarrow> bool" where
  "block_shape b \<longleftrightarrow> 0 < mb_blockSize b \<and> mb_blockSize b < 2 ^ 62"

definition writing :: "nat set \<Rightarrow> mem \<Rightarrow> 's MemBlock \<Rightarrow> bytes \<Rightarrow> int set \<Rightarrow> bool" where
  "writing own m b bs cv \<longleftrightarrow> block_shape b \<and> content own m b bs \<and> covers b cv"

definition in_block :: "'s MemBlock \<Rightarrow> int \<Rightarrow> bool" where
  "in_block b off \<longleftrightarrow> 0 \<le> off \<and> off < 2 ^ 62 \<and> word_of_int (off div mb_blockSize b) = snd (Split (mb_key b))"

text \<open>The offset in the block and the number of bytes a write takes.\<close>

definition boff :: "int \<Rightarrow> int \<Rightarrow> nat" where "boff z off = nat (off mod z)"
definition bcount :: "int \<Rightarrow> bytes \<Rightarrow> int \<Rightarrow> nat" where
  "bcount z p off = min (length p) (nat z - boff z off)"

lemma sdiv_nonneg: "0 \<le> a \<Longrightarrow> 0 < c \<Longrightarrow> a sdiv c = a div (c :: int)" "0 \<le> a \<Longrightarrow> 0 < c \<Longrightarrow> a smod c = a mod (c :: int)"
  by (auto simp: signed_divide_int_def signed_modulo_int_def sgn_if minus_div_mult_eq_mod)

lemma new_writing: "0 < n \<Longrightarrow> n < 2 ^ 62 \<Longrightarrow> writing own m (NewMemBlock st key n) (replicate (nat n) 0) {}"
  using new_rep by (auto simp: writing_def block_shape_def content_def covers_def NewMemBlock_def intro!: exI [of _ "[]"])

lemma boff_less: "block_shape b \<Longrightarrow> boff (mb_blockSize b) off < nat (mb_blockSize b)"
  by (simp add: boff_def block_shape_def nat_less_iff)

lemma bcount_end:
  assumes "block_shape b" and "0 \<le> off"
  shows "min (off smod mb_blockSize b + int (length p)) (mb_blockSize b) = int (boff (mb_blockSize b) off + bcount (mb_blockSize b) p off)"
    "off smod mb_blockSize b = int (boff (mb_blockSize b) off)" "boff (mb_blockSize b) off + bcount (mb_blockSize b) p off \<le> nat (mb_blockSize b)"
proof -
  obtain N where N: "mb_blockSize b = int N" "0 < N" using assms(1) by (cases "mb_blockSize b") (auto simp: block_shape_def)
  have r: "off mod mb_blockSize b = int (boff (mb_blockSize b) off)" using N by (simp add: boff_def)
  then show s: "off smod mb_blockSize b = int (boff (mb_blockSize b) off)" using assms N by (simp add: sdiv_nonneg)
  have "boff (mb_blockSize b) off < N" using boff_less [OF assms(1), of off] N by simp
  then show "min (off smod mb_blockSize b + int (length p)) (mb_blockSize b) = int (boff (mb_blockSize b) off + bcount (mb_blockSize b) p off)"
    "boff (mb_blockSize b) off + bcount (mb_blockSize b) p off \<le> nat (mb_blockSize b)"
    unfolding s bcount_def using N(1) by (auto simp: min_def)
qed

lemma covers_add:
  assumes "covers b cv" and "block_shape b" and "0 < n" and "i + n \<le> nat (mb_blockSize b)"
  obtains l where "add_new (int i, int (i + n)) (interval b) = Some l"
    "\<And>b'. interval b' = l \<Longrightarrow> highOff b' = max (highOff b) (int (i + n)) \<Longrightarrow> mb_blockSize b' = mb_blockSize b \<Longrightarrow>
      covers b' (cv \<union> {int i ..< int (i + n)})"
proof -
  obtain as where as: "rep (interval b) as" "covered (map (val (interval b)) as) = cv" using assms(1) by (auto simp: covers_def)
  have o: "ordered (map (val (interval b)) as)" using as(1) by (simp add: rep_def)
  have "int (i + n) < MaxInt" "MinInt < int i" using assms(2,4) by (auto simp: MaxInt_def MinInt_def block_shape_def)
  with add_new_rep [OF as(1), of "(int i, int (i + n))"] assms(3) obtain l as' where
    l: "add_new (int i, int (i + n)) (interval b) = Some l" "rep l as'"
    "map (val l) as' = overlay (int i, int (i + n)) (map (val (interval b)) as)" by auto
  have c: "covered (map (val l) as') = cv \<union> {int i ..< int (i + n)}"
    using overlay_covered [OF o, of "int i" "int (i + n)"] assms(3) as(2) l(3) by simp
  show thesis
  proof (rule that [OF l(1)])
    fix b' :: "'s MemBlock"
    assume b': "interval b' = l" "highOff b' = max (highOff b) (int (i + n))" "mb_blockSize b' = mb_blockSize b"
    have "cv \<union> {int i ..< int (i + n)} \<subseteq> {0 ..< highOff b'}" 
      using assms(1) by (fastforce simp: covers_def b'(2))
    moreover have "highOff b' \<le> mb_blockSize b'" using assms(1,4) by (auto simp: covers_def b')
    ultimately show "covers b' (cv \<union> {int i ..< int (i + n)})" using l(2) c by (auto simp: covers_def b')
  qed
qed

lemma content_put:
  assumes "content own m b bs" and "mb_data b = Some d" and "length p = n" and "i + n \<le> nat (mb_blockSize b)"
    and "mb_data b' = Some d" and "mb_blockSize b' = mb_blockSize b"
  shows "content own (slice_write d i p m) b' (blit i p bs)"
proof -
  have d: "arr d < length (arrays m)" "len d = nat (mb_blockSize b)" "slice_bytes m d = bs" "length bs = len d"
    using assms(1,2) by (simp_all add: content_def)
  have "take (len d) (blit i p (arrays m ! arr d)) = blit i p (take (len d) (arrays m ! arr d))"
    using assms(3,4) d by (intro nth_equalityI) (auto simp: subrange_simps slice_bytes_def)
  then show ?thesis using assms d by (simp add: content_def slice_bytes_def slice_write_nth)
qed

text \<open>A write up to the decision about flushing.\<close>

definition write_tail :: "nat \<Rightarrow> (nat \<times> gerror option, 's) bcall" where
  "write_tail n wb = (if written (snd wb) \<ge> mb_blockSize (snd wb) then
       (case Flush wb of
          None \<Rightarrow> None
        | Some (Done _, wb3) \<Rightarrow> Some (Done (n, None), wb3)
        | Some (Fail e, wb3) \<Rightarrow> Some (Done (n, Some e), wb3)
        | Some (Panic, wb3) \<Rightarrow> Some (Panic, wb3))
     else Some (Done (n, None), wb))"

text \<open>After a merge the total is the number of covered offsets.\<close>

lemma merge_total:
  assumes "rep l as" and "covered (map (val l) as) = {0 ..< z}" and "0 \<le> z"
  shows "\<exists>l'. doMerge l = Some l' \<and> Total l' = Some z"
proof -
  from doMerge_rep [OF assms(1)] obtain l' as' where l: "doMerge l = Some l'" "walk l' = Some as'"
    "map (val l') as' = join (map (val l) as)" by auto
  have o: "ordered (map (val l) as)" using assms(1) by (simp add: rep_def)
  have "int (card (covered (map (val l') as'))) = sum_list (map (\<lambda>x. snd x - fst x) (map (val l') as'))"
    unfolding l(3) by (rule ordered_card [OF join_ordered [OF o]])
  moreover have "covered (map (val l') as') = {0 ..< z}" using join_covered [OF o] assms(2) l(3) by simp
  moreover have "map (\<lambda>x. snd x - fst x) (map (val l') as') = map (\<lambda>a. Interval_Size (node l' a)) as'"
    by (simp add: val_def Interval_Size_def)
  ultimately show ?thesis using l(1,2) assms(3) by (simp add: Total_def del: map_map)
qed

text \<open>
  A sequence of writes that all succeed, and what it means for the bytes of a block of size \<open>z\<close>: each write
  puts its bytes at its place, cut off at the end of the block.
\<close>

type_synonym block_write = "nat \<times> bytes \<times> int"

fun write_seq :: "block_write list \<Rightarrow> (mem \<times> 's) \<times> 's MemBlock \<Rightarrow> ((mem \<times> 's) \<times> 's MemBlock) option" where
  "write_seq [] wb = Some wb"
| "write_seq ((ch, p, off) # ws) wb = (case WriteAt ch p off wb of
     Some (Done (n, None), wb1) \<Rightarrow> write_seq ws wb1 | _ \<Rightarrow> None)"

fun plain :: "int \<Rightarrow> block_write list \<Rightarrow> bytes \<Rightarrow> bytes" where
  "plain z [] bs = bs"
| "plain z ((ch, p, off) # ws) bs = plain z ws (blit (boff z off) (take (bcount z p off) p) bs)"

fun touched :: "int \<Rightarrow> block_write list \<Rightarrow> int set" where
  "touched z [] = {}"
| "touched z ((ch, p, off) # ws) = {int (boff z off) ..< int (boff z off + bcount z p off)} \<union> touched z ws"

fun amount :: "int \<Rightarrow> block_write list \<Rightarrow> nat" where
  "amount z [] = 0"
| "amount z ((ch, p, off) # ws) = bcount z p off + amount z ws"

fun ends :: "int \<Rightarrow> block_write list \<Rightarrow> int list" where
  "ends z [] = []"
| "ends z ((ch, p, off) # ws) = int (boff z off + bcount z p off) # ends z ws"

definition same_block :: "'s MemBlock \<Rightarrow> 's MemBlock \<Rightarrow> bool" where
  "same_block b b' \<longleftrightarrow> mb_key b' = mb_key b \<and> storage b' = storage b \<and> flushed b' = flushed b \<and> mb_err b' = mb_err b
     \<and> mb_blockSize b' = mb_blockSize b"

lemma write_seq_append: "write_seq (ws @ us) wb = Option.bind (write_seq ws wb) (write_seq us)"
  by (induction ws wb rule: write_seq.induct) (auto split: option.splits outcome.splits)

lemma touched_append: "touched z (ws @ us) = touched z ws \<union> touched z us"
  by (induction z ws rule: touched.induct) auto

lemma amount_append: "amount z (ws @ us) = amount z ws + amount z us"
  by (induction z ws rule: amount.induct) auto

lemma plain_append: "plain z (ws @ us) bs = plain z us (plain z ws bs)"
  by (induction z ws bs rule: plain.induct) auto

lemma take_subrange: "e \<le> k \<Longrightarrow> e \<le> i + n \<Longrightarrow> take n (subrange i e xs) = subrange i e (take k xs)"
  by (simp add: subrange_def drop_take min_absorb2 min_absorb1 diff_le_mono)

text \<open>Reading a block in writing gives its bytes up to the largest written offset.\<close>

lemma ReadAt_writing:
  assumes "writing own m b bs cv" and "in_block b off" and "mb_err b = None" and "0 < n"
  shows "ReadAt ch n off ((m, s), b) = Some (if int (boff (mb_blockSize b) off) < highOff b
      then Done (subrange (boff (mb_blockSize b) off) (min (nat (highOff b)) (boff (mb_blockSize b) off + n)) bs) else Fail EOF, (m, s), b)"
proof -
  define i where "i = boff (mb_blockSize b) off"
  have sh: "block_shape b" and co: "content own m b bs" and h: "0 \<le> highOff b" "highOff b \<le> mb_blockSize b"
    using assms(1) by (simp_all add: writing_def covers_def)
  have off: "0 \<le> off" "off < 2 ^ 62" "word_of_int (off sdiv mb_blockSize b) = snd (Split (mb_key b))"
    using assms(2) sh by (auto simp: in_block_def sdiv_nonneg block_shape_def)
  have st: "off smod mb_blockSize b = int i" using bcount_end(2) [OF sh off(1)] by (simp add: i_def)
  have il: "i < nat (mb_blockSize b)" using boff_less [OF sh] by (simp add: i_def)
  define q where "q = off div mb_blockSize b"
  have "off div mb_blockSize b \<le> off div 1" using off(1) sh by (intro zdiv_mono2) (simp_all add: block_shape_def)
  then have q0: "0 \<le> q" "q \<le> off" using off(1) sh by (simp_all add: q_def block_shape_def pos_imp_zdiv_nonneg_iff)
  then have q: "0 \<le> q" "q < 2 ^ 62" using off(2) by simp_all
  have "snd (Split (mb_key b)) + 1 = word_of_int (q + 1)" using assms(2) by (simp add: in_block_def q_def)
  moreover have "sint (word_of_int (q + 1) :: u64) = q + 1"
    using q by (subst sint_sbintrunc') (simp add: signed_take_bit_int_eq_self)
  ultimately have sq: "sint (snd (Split (mb_key b)) + 1) = q + 1" by (simp only:)
  have big: "mb_blockSize b \<le> (q + 1) * mb_blockSize b" using q sh by (simp add: block_shape_def)
  have en: "min (min (highOff b) (int i + int n)) ((q + 1) * mb_blockSize b) = min (highOff b) (int i + int n)"
    using big h(2) by simp
  have "ReadAt ch n off ((m, s), b) = read_data n (int i) (snd (Split (mb_key b))) ((m, s), b)"
    using off(3) assms(3) sh by (simp add: ReadAt_def Let_def st block_shape_def)
  also have "\<dots> = Some (if int i < highOff b then Done (subrange i (min (nat (highOff b)) (i + n)) bs) else Fail EOF, (m, s), b)"
  proof (cases "int i < highOff b")
    case True
    then obtain d where d: "mb_data b = Some d" using co h by (auto simp: content_def split: option.splits)
    have dl: "len d = nat (mb_blockSize b)" "bs = take (len d) (arrays m ! arr d)" "length bs = len d"
      using co d by (auto simp: content_def slice_bytes_def)
    have e: "nat (min (highOff b) (int i + int n)) = min (nat (highOff b)) (i + n)" using h by linarith
    have le: "min (nat (highOff b)) (i + n) \<le> len d" using h dl(1) by simp
    have "min (highOff b) (int i + int n) \<le> int (length (arrays m ! arr d))" using h dl by (auto simp: min_def split: if_splits)
    moreover have "take n (subrange i (min (nat (highOff b)) (i + n)) (arrays m ! arr d)) = subrange i (min (nat (highOff b)) (i + n)) bs"
      unfolding dl(2) by (rule take_subrange) (use le in simp_all)
    ultimately show ?thesis using True assms(4) dl(1) il
      by (simp add: read_data_def Let_def sq en d e) linarith
  next
    case False
    then have "min (min (highOff b) (int i + int n)) ((q + 1) * mb_blockSize b) \<le> int i" using en by simp
    with False show ?thesis by (simp add: read_data_def Let_def sq del: min.assoc)
  qed
  finally show ?thesis by (simp add: i_def)
qed

context block_storage
begin

text \<open>The buffer of a block: the one it has, or a fresh one.\<close>

lemma get_buffer:
  assumes "ok (m, s)" and "content (owned s) m b bs"
  obtains d m1 where "(case mb_data b of None \<Rightarrow> Allocate ch (nat (mb_blockSize b)) m | Some d \<Rightarrow> Some (d, m)) = Some (d, m1)"
    "ok (m1, s)" "stored (m1, s) = stored (m, s)" "content (owned s) m1 (b \<lparr> mb_data := Some d \<rparr>) bs"
proof (cases "mb_data b")
  case None
  from Allocate_spec [OF pools_kept [OF assms(1), simplified], of ch "nat (mb_blockSize b)"] obtain d m1 where
    d: "Allocate ch (nat (mb_blockSize b)) m = Some (d, m1)" "len d = nat (mb_blockSize b)"
    "slice_bytes m1 d = replicate (nat (mb_blockSize b)) 0" "arr d \<notin> pooled m1" "arr d < length (arrays m1)" by auto
  from allocate [OF assms(1) d(1)] None d assms(2) show thesis
    by (intro that [of d m1]) (auto simp: content_def)
next
  case (Some d)
  then show thesis using assms by (intro that [of d m]) (auto simp: content_def)
qed

lemma content_cap: "content own m b bs \<Longrightarrow> mb_data b = Some d \<Longrightarrow> nat (mb_blockSize b) \<le> slice_cap m d"
  by (auto simp: content_def slice_bytes_def slice_cap_def min_def split: if_splits)

lemma WriteAt_put:
  assumes "ok (m, s)" and "writing (owned s) m b bs cv" and "in_block b off" and "p \<noteq> []"
    and n: "n = bcount (mb_blockSize b) p off" and i: "i = boff (mb_blockSize b) off"
  obtains m' b' where "WriteAt ch p off ((m, s), b) = write_tail n ((m', s), b')" "ok (m', s)" "stored (m', s) = stored (m, s)"
    "writing (owned s) m' b' (blit i (take n p) bs) (cv \<union> {int i ..< int (i + n)})" "written b' = written b + int n"
    "mb_key b' = mb_key b" "storage b' = storage b" "flushed b' = flushed b" "mb_err b' = mb_err b" "mb_blockSize b' = mb_blockSize b"
    "highOff b' = max (highOff b) (int (i + n))" "add_new (int i, int (i + n)) (interval b) = Some (interval b')"
proof -
  have sh: "block_shape b" and co: "content (owned s) m b bs" and cv: "covers b cv" using assms(2) by (simp_all add: writing_def)
  have off: "0 \<le> off" "word_of_int (off sdiv mb_blockSize b) = snd (Split (mb_key b))"
    using assms(3) sh by (auto simp: in_block_def sdiv_nonneg block_shape_def)
  note e = bcount_end(1,3) [OF sh off(1), of p, folded n i] bcount_end(2) [OF sh off(1), folded i]
  have ip: "i < nat (mb_blockSize b)" using boff_less [OF sh] by (simp add: i)
  then have n0: "0 < n" "n \<le> length p" using assms(4) by (auto simp: n bcount_def i)
  from get_buffer [OF assms(1) co, of ch] obtain d m1 where
    d: "(case mb_data b of None \<Rightarrow> Allocate ch (nat (mb_blockSize b)) m | Some d \<Rightarrow> Some (d, m)) = Some (d, m1)"
    "ok (m1, s)" "stored (m1, s) = stored (m, s)" "content (owned s) m1 (b \<lparr> mb_data := Some d \<rparr>) bs" by metis
  have dd: "arr d \<notin> owned s" "arr d \<notin> pooled m1" using d(4) by (simp_all add: content_def)
  obtain l where l: "add_new (int i, int (i + n)) (interval b) = Some l"
    "\<And>b'. interval b' = l \<Longrightarrow> highOff b' = max (highOff b) (int (i + n)) \<Longrightarrow> mb_blockSize b' = mb_blockSize b \<Longrightarrow>
      covers (b' :: 's MemBlock) (cv \<union> {int i ..< int (i + n)})"
    using covers_add [OF cv sh n0(1) e(2)] by metis
  define m2 where "m2 = slice_write d i (take n p) m1"
  define b2 where "b2 = b \<lparr> mb_data := Some d, interval := l, written := written b + int n, highOff := max (highOff b) (int (i + n)) \<rparr>"
  have cap: "nat (mb_blockSize b) \<le> slice_cap m1 d" using content_cap [OF d(4)] by simp
  have put: "put_data p (int i) (int (i + n)) d ((m1, s), b \<lparr> mb_data := Some d \<rparr>) = Some (Done (), (m2, s), b2)"
    using e(2) cap l(1) by (simp add: put_data_def Let_def m2_def b2_def nat_diff_distrib)
  have bs0: "mb_blockSize b \<noteq> 0" using sh by (simp add: block_shape_def)
  have nn: "nat (int (i + n) - int i) = n" by simp
  have W: "WriteAt ch p off ((m, s), b) = write_tail n ((m2, s), b2)"
    unfolding WriteAt_def write_tail_def Let_def prod.case e(1) unfolding e(3) nn using bs0 off(2) d(1) put by simp
  from change_foreign [OF d(2) dd] have ok2: "ok (m2, s)" "stored (m2, s) = stored (m, s)" using d(3) by (simp_all add: m2_def)
  have "content (owned s) m2 b2 (blit i (take n p) bs)" unfolding m2_def
    by (rule content_put [OF d(4), where n = n]) (use n0 e(2) in \<open>simp_all add: b2_def\<close>)
  moreover have "covers b2 (cv \<union> {int i ..< int (i + n)})" by (rule l(2)) (simp_all add: b2_def)
  moreover have "block_shape b2" using sh by (simp add: b2_def block_shape_def)
  ultimately have "writing (owned s) m2 b2 (blit i (take n p) bs) (cv \<union> {int i ..< int (i + n)})" by (simp add: writing_def)
  from that [OF W ok2 this] show thesis using l(1) by (simp add: b2_def)
qed

lemma flush_full:
  assumes "ok (m, s)" and "writing (owned s) m b bs {0 ..< mb_blockSize b}" and "storage b = Some B" and "\<not> flushed b"
    and "written b > 0" and "bsize s = nat (mb_blockSize b)" and "nonzero bs"
  obtains w' l where "Flush ((m, s), b) = Some (Done (), w', flush_done (b \<lparr> interval := l \<rparr>))" "ok w'"
    "stored w' = (stored (m, s))(mb_key b \<mapsto> bs)"
proof -
  have sh: "block_shape b" and co: "content (owned s) m b bs" using assms(2) by (simp_all add: writing_def)
  obtain as where as: "rep (interval b) as" "covered (map (val (interval b)) as) = {0 ..< mb_blockSize b}"
    using assms(2) by (auto simp: writing_def covers_def)
  obtain l as' where l: "doMerge (interval b) = Some l" "Total l = Some (mb_blockSize b)"
    using merge_total [OF as] sh by (auto simp: block_shape_def)
  obtain d where d: "mb_data b = Some d" using co assms(7) by (auto simp: content_def nonzero_def split: option.splits)
  then have v: "valid m (mb_data b)" "bs = data_bytes m (mb_data b)" "length bs = bsize s"
    using co assms(6) by (auto simp: content_def valid_def data_bytes_def)
  with write_whole [OF assms(1), of "mb_data b" bs "mb_key b"] assms(7) obtain w' where
    w: "be_Write B (mb_key b) (mb_data b) (m, s) = Some (Done (), w')" "ok w'" "stored w' = (stored (m, s))(mb_key b \<mapsto> bs)" by auto
  have "Flush ((m, s), b) = Some (Done (), w', flush_done (b \<lparr> interval := l \<rparr>))"
    using assms(3-5) l w(1) by (simp add: Flush_def doFlush_def Let_def)
  from that [OF this w(2,3)] show thesis .
qed

text \<open>Any number of writes below the size of the block.\<close>

lemma write_seq_ok:
  assumes "ok (m, s)" and "writing (owned s) m b bs cv" and "\<forall>(ch, p, off) \<in> set ws. in_block b off \<and> p \<noteq> []"
    and "written b + int (amount (mb_blockSize b) ws) < mb_blockSize b"
  shows "\<exists>m' b'. write_seq ws ((m, s), b) = Some ((m', s), b') \<and> ok (m', s) \<and> stored (m', s) = stored (m, s)
    \<and> writing (owned s) m' b' (plain (mb_blockSize b) ws bs) (cv \<union> touched (mb_blockSize b) ws)
    \<and> written b' = written b + int (amount (mb_blockSize b) ws) \<and> same_block b b'
    \<and> highOff b' = fold max (ends (mb_blockSize b) ws) (highOff b)"
  using assms
proof (induction ws arbitrary: m b bs cv)
  case (Cons w ws)
  obtain ch p off where w: "w = (ch, p, off)" by (cases w)
  define z where "z = mb_blockSize b"
  have ib: "in_block b off" "p \<noteq> []" using Cons.prems(3) by (simp_all add: w)
  obtain m1 b1 where 1: "WriteAt ch p off ((m, s), b) = write_tail (bcount z p off) ((m1, s), b1)" "ok (m1, s)" "stored (m1, s) = stored (m, s)"
    "writing (owned s) m1 b1 (blit (boff z off) (take (bcount z p off) p) bs) (cv \<union> {int (boff z off) ..< int (boff z off + bcount z p off)})"
    "written b1 = written b + int (bcount z p off)" "mb_key b1 = mb_key b" "storage b1 = storage b" "flushed b1 = flushed b"
    "mb_err b1 = mb_err b" "mb_blockSize b1 = z" "highOff b1 = max (highOff b) (int (boff z off + bcount z p off))"
    using WriteAt_put [OF Cons.prems(1,2) ib refl refl, of ch] unfolding z_def by metis
  have lt: "written b1 < mb_blockSize b1" using Cons.prems(4) 1(5,10) by (simp add: w z_def)
  have ws: "\<forall>(ch, p, off) \<in> set ws. in_block b1 off \<and> p \<noteq> []" using Cons.prems(3) 1(6,10) by (auto simp: in_block_def z_def)
  have am: "written b1 + int (amount (mb_blockSize b1) ws) < mb_blockSize b1" using Cons.prems(4) 1(5,10) by (simp add: w z_def)
  have step: "write_seq (w # ws) ((m, s), b) = write_seq ws ((m1, s), b1)" using 1(1) lt by (simp add: w write_tail_def)
  show ?case using Cons.IH [OF 1(2,4) ws am] unfolding step 1(3) 1(10)
    by (auto simp: w 1 z_def [symmetric] same_block_def Un_assoc max.commute)
qed (simp add: same_block_def)

end

end
