(* ===== verification/Mem_Block_Props.thy ===== *)
theory Mem_Block_Props
  imports Mem_Block
begin

text \<open>
  The properties of memory blocks over the memory backend: what a block holds after writes, that a full
  block reaches the storage, and what happens to writes after a flush, at the end of a stored block, and when a
  block that was read is destroyed.
\<close>

section \<open>Writing and reading back\<close>

definition fits :: "u64 \<Rightarrow> u64 \<Rightarrow> int \<Rightarrow> block_write list \<Rightarrow> bool" where
  "fits ino idx z ws \<longleftrightarrow> (\<forall>(ch, p, off) \<in> set ws. p \<noteq> [] \<and> 0 \<le> off \<and> off < 2 ^ 62 \<and> word_of_int (off div z) = idx)"

lemma fits_in_block:
  "fits ino idx z ws \<Longrightarrow> mb_blockSize b = z \<Longrightarrow> mb_key b = NewBlockKey ino idx \<Longrightarrow> \<forall>(ch, p, off) \<in> set ws. in_block b off \<and> p \<noteq> []"
  by (auto simp: fits_def in_block_def Split_eq)

text \<open>
  C6. Writes into a new block, any number, order and overlap, below the size of the block in total: a read
  gives the bytes of the last write at each offset, zeros between, up to the largest written offset, and end of
  file behind it; the storage is untouched.
\<close>

theorem block_reads_writes:
  assumes "backend_ok (m, st)" and "0 < z" and "z < 2 ^ 62" and "fits ino idx z ws" and "int (amount z ws) < z"
  shows "\<exists>m' b'. write_seq ws ((m, st), NewMemBlock (Some mem_backend) (NewBlockKey ino idx) z) = Some ((m', st), b')
    \<and> blocks (m', st) = blocks (m, st)
    \<and> (\<forall>ch n off. 0 < n \<and> 0 \<le> off \<and> off < 2 ^ 62 \<and> word_of_int (off div z) = idx \<longrightarrow>
        (let i = boff z off; high = nat (fold max (ends z ws) 0)
         in ReadAt ch n off ((m', st), b') = Some (if i < high then Done (subrange i (min high (i + n)) (plain z ws (replicate (nat z) 0)))
              else Fail EOF, (m', st), b')))"
proof -
  let ?b = "NewMemBlock (Some mem_backend) (NewBlockKey ino idx) z :: MemStorageBackend MemBlock"
  have f: "mb_blockSize ?b = z" "mb_key ?b = NewBlockKey ino idx" "written ?b = 0" "mb_err ?b = None" "highOff ?b = 0"
    by (simp_all add: NewMemBlock_def)
  have w: "writing (owned_arrays st) m ?b (replicate (nat z) 0) {}" using assms(2,3) by (rule new_writing)
  have am: "written ?b + int (amount (mb_blockSize ?b) ws) < mb_blockSize ?b" using assms(5) by (simp add: f)
  from memst.write_seq_ok [OF assms(1) w fits_in_block [OF assms(4) f(1,2)] am] obtain m' b' where
    r: "write_seq ws ((m, st), ?b) = Some ((m', st), b')" "blocks (m', st) = blocks (m, st)"
    "writing (owned_arrays st) m' b' (plain z ws (replicate (nat z) 0)) (touched z ws)" "same_block ?b b'"
    "highOff b' = fold max (ends z ws) 0" by (auto simp: f)
  have s: "mb_blockSize b' = z" "mb_key b' = NewBlockKey ino idx" "mb_err b' = None" using r(4) by (simp_all add: same_block_def f)
  have "ReadAt ch n off ((m', st), b') = Some (if boff z off < nat (fold max (ends z ws) 0)
      then Done (subrange (boff z off) (min (nat (fold max (ends z ws) 0)) (boff z off + n)) (plain z ws (replicate (nat z) 0)))
      else Fail EOF, (m', st), b')"
    if o: "0 < n" "0 \<le> off" "off < 2 ^ 62" "word_of_int (off div z) = idx" for ch n off
  proof -
    have "in_block b' off" using o by (simp add: in_block_def s Split_eq)
    from ReadAt_writing [OF r(3) this s(3) o(1), of ch st] show ?thesis by (simp add: s(1) r(5) zless_nat_eq_int_zless)
  qed
  with r(1,2) show ?thesis by (auto simp: Let_def)
qed

text \<open>Witness of C6: two overlapping writes into block 1 of inode 7.\<close>

theorem block_reads_writes_witness:
  "\<exists>m' b'. write_seq [(0, [1, 2, 3], 9), (0, [4], 10)] ((init_pools, NewMemStorageBackend 8), NewMemBlock (Some mem_backend) (NewBlockKey 7 1) 8)
      = Some ((m', NewMemStorageBackend 8), b')
    \<and> ReadAt 0 8 8 ((m', NewMemStorageBackend 8), b') = Some (Done [0, 1, 4, 3], (m', NewMemStorageBackend 8), b')"
proof -
  have e: "fold max (ends 8 [(0, [1, 2, 3], 9), (0, [4], 10)]) 0 = 4" by code_simp
  have p: "subrange 0 4 (plain 8 [(0, [1, 2, 3], 9), (0, [4], 10)] (replicate 8 0)) = [0, 1, 4, 3]" by code_simp
  have f: "fits 7 1 8 [(0, [1, 2, 3], 9), (0, [4], 10)]" by (simp add: fits_def)
  have a: "int (amount 8 [(0, [1, 2, 3], 9), (0, [4], 10)]) < 8" by code_simp
  have b: "boff 8 8 = 0" by (simp add: boff_def)
  from block_reads_writes [OF new_backend_ok [OF init_pools_ok, of 8] _ _ f a] obtain m' b' where
    w: "write_seq [(0, [1, 2, 3], 9), (0, [4], 10)] ((init_pools, NewMemStorageBackend 8), NewMemBlock (Some mem_backend) (NewBlockKey 7 1) 8)
      = Some ((m', NewMemStorageBackend 8), b')"
    and r: "\<forall>ch n off. 0 < n \<and> 0 \<le> off \<and> off < 2 ^ 62 \<and> word_of_int (off div 8) = (1 :: u64) \<longrightarrow>
        (let i = boff 8 off; high = nat (fold max (ends 8 [(0, [1, 2, 3], 9), (0, [4], 10)]) 0)
         in ReadAt ch n off ((m', NewMemStorageBackend 8), b') = Some (if i < high then Done (subrange i (min high (i + n))
              (plain 8 [(0, [1, 2, 3], 9), (0, [4], 10)] (replicate (nat 8) 0))) else Fail EOF, (m', NewMemStorageBackend 8), b'))"
    by auto
  have "ReadAt 0 8 8 ((m', NewMemStorageBackend 8), b') = Some (Done [0, 1, 4, 3], (m', NewMemStorageBackend 8), b')"
    using r [rule_format, of 8 8 0] unfolding e by (simp add: p b Let_def del: plain.simps)
  with w show ?thesis by blast
qed

section \<open>A full block reaches the storage\<close>



section \<open>Writes that are lost\<close>

lemma flushed_Flush: "flushed b \<Longrightarrow> Flush (w, b) = Some (Done (), w, b)"
  by (simp add: Flush_def doFlush_def)

text \<open>
  A block is flushed at most once, whatever its storage: once it is flushed every successful write leaves
  it flushed and the storage alone, and so does every flush after it, although both report success.
\<close>

theorem flushed_only_once:
  assumes "flushed b" and "WriteAt ch p off (w, b) = Some (Done (n, e), w', b')"
  shows "flushed b' \<and> snd w' = snd w \<and> Flush (w', b') = Some (Done (), w', b') \<and> \<not> ShouldFlush b'"
proof -
  obtain m s where w: "w = (m, s)" by (cases w)
  have "flushed b' \<and> snd w' = s"
    using assms unfolding w WriteAt_def put_data_def
    by (auto simp: Let_def flushed_Flush split: if_splits option.splits prod.splits)
  then show ?thesis by (simp add: w flushed_Flush ShouldFlush_def)
qed

text \<open>Witness of C24: a second write into a block that the first one filled.\<close>

theorem flushed_only_once_witness:
  "\<exists>b' w' n e. WriteAt 0 [5] 0 ((init_pools, NewMemStorageBackend 4), (NewMemBlock (Some mem_backend) (NewBlockKey 7 0) 4) \<lparr> flushed := True \<rparr>)
      = Some (Done (n, e), w', b') \<and> Flush (w', b') = Some (Done (), w', b') \<and> blocks w' (NewBlockKey 7 0) = None"
proof -
  let ?b = "(NewMemBlock (Some mem_backend) (NewBlockKey 7 0) 4) \<lparr> flushed := True \<rparr> :: MemStorageBackend MemBlock"
  let ?w = "(init_pools, NewMemStorageBackend 4)"
  have wr: "writing (owned_arrays (NewMemStorageBackend 4)) init_pools ?b (replicate 4 0) {}"
    using new_writing [of 4 "owned_arrays (NewMemStorageBackend 4)" init_pools "Some mem_backend" "NewBlockKey 7 0"]
    by (simp add: writing_def block_shape_def content_def covers_def NewMemBlock_def)
  have ib: "in_block ?b 0" by (simp add: in_block_def NewMemBlock_def Split_eq)
  obtain m' b' where r: "WriteAt 0 [5] 0 (?w, ?b) = write_tail (bcount (mb_blockSize ?b) [5] 0) ((m', NewMemStorageBackend 4), b')" "flushed b' = flushed ?b"
    "written b' = written ?b + int (bcount (mb_blockSize ?b) [5] 0)" "mb_blockSize b' = mb_blockSize ?b"
    using memst.WriteAt_put [OF new_backend_ok [OF init_pools_ok] wr ib _ refl refl, of "[5]" 0] by (metis list.distinct(1))
  have W: "WriteAt 0 [5] 0 (?w, ?b) = Some (Done (1, None), (m', NewMemStorageBackend 4), b')"
    using r by (simp add: write_tail_def NewMemBlock_def bcount_def boff_def)
  from flushed_only_once [OF _ this] show ?thesis using W
    by (intro exI [of _ b'] exI [of _ "(m', NewMemStorageBackend 4)"] exI [of _ 1] exI [of _ None])
      (simp add: blocks_def NewMemStorageBackend_def)
qed

text \<open>A list with one interval is merged to itself.\<close>

lemma doMerge_single:
  assumes "rep l [a]"
  shows "doMerge l = Some l"
proof -
  have "3 \<le> free l" using rep_length [OF assms] by simp
  then obtain k where k: "free l = Suc (Suc (Suc k))" by (metis Suc_le_D numeral_3_eq_3 Suc_le_mono)
  have r: "Next (node l head) = Some a" "Next (node l a) = None \<or> Next (node l a) = Some tail" "a \<noteq> tail"
    "start_of (node l a) \<noteq> end_of (node l head)"
    using assms by (auto simp: rep_def ordered_def val_def)
  then show ?thesis by (auto simp: doMerge_def k)
qed

text \<open>
  A write to the last bytes of a stored block is lost: write and flush succeed and the block counts as
  flushed, but the storage holds the old block.
\<close>

theorem write_at_end_lost:
  assumes "backend_ok (m, st)" and "blocks (m, st) (NewBlockKey ino idx) = Some old" and "z = int (blockSize st)" and "z < 2 ^ 62"
    and "0 \<le> off" and "off < 2 ^ 62" and "word_of_int (off div z) = idx" and "0 < boff z off" and "z \<le> int (boff z off + length p)" and "0 < z"
  shows "\<exists>w1 b1 w2 b2. WriteAt ch p off ((m, st), NewMemBlock (Some mem_backend) (NewBlockKey ino idx) z)
      = Some (Done (nat z - boff z off, None), w1, b1)
    \<and> Flush (w1, b1) = Some (Done (), w2, b2) \<and> flushed b2 \<and> blocks w2 = blocks (m, st)"
proof -
  let ?b = "NewMemBlock (Some mem_backend) (NewBlockKey ino idx) z :: MemStorageBackend MemBlock" and ?k = "NewBlockKey ino idx"
  define i where "i = boff z off"
  have f: "mb_blockSize ?b = z" "mb_key ?b = ?k" "written ?b = 0" "storage ?b = Some mem_backend" "\<not> flushed ?b" "interval ?b = NewIntervalList"
    by (simp_all add: NewMemBlock_def)
  have wr: "writing (owned_arrays st) m ?b (replicate (nat z) 0) {}" using assms(4,10) by (intro new_writing)
  have ib: "in_block ?b off" using assms(5-7) by (simp add: in_block_def f Split_eq)
  have il: "i < nat z" using boff_less [of ?b off] assms(4,10) by (simp add: block_shape_def f i_def)
  have n: "bcount z p off = nat z - i" using assms(9) by (simp add: bcount_def i_def)
  have pn: "p \<noteq> []" using assms(9) il by (auto simp: i_def)
  obtain m1 b1 where r: "WriteAt ch p off ((m, st), ?b) = write_tail (nat z - i) ((m1, st), b1)" "backend_ok (m1, st)"
    "blocks (m1, st) = blocks (m, st)" "writing (owned_arrays st) m1 b1 (blit i (take (nat z - i) p) (replicate (nat z) 0)) ({} \<union> {int i ..< int (i + (nat z - i))})"
    "written b1 = written ?b + int (nat z - i)" "mb_key b1 = mb_key ?b" "storage b1 = storage ?b" "flushed b1 = flushed ?b"
    "mb_blockSize b1 = mb_blockSize ?b" "add_new (int i, int (i + (nat z - i))) (interval ?b) = Some (interval b1)"
    using memst.WriteAt_put [OF assms(1) wr ib pn refl refl, of ch] unfolding f(1) n i_def [symmetric] by metis
  have z: "int (i + (nat z - i)) = z" using il by simp
  have W: "WriteAt ch p off ((m, st), ?b) = Some (Done (nat z - i, None), (m1, st), b1)"
    using r(1,5,9) il assms(8,10) by (simp add: write_tail_def f i_def)
  have l: "\<exists>as. rep (interval b1) as \<and> map (val (interval b1)) as = [(int i, z)]"
    using add_new_rep [OF new_rep, of "(int i, z)"] r(10) il assms(4) z
    by (auto simp: f overlay_def MinInt_def MaxInt_def)
  then obtain a where a: "rep (interval b1) [a]" "val (interval b1) a = (int i, z)" by (auto simp: map_eq_Cons_conv)
  have dm: "doMerge (interval b1) = Some (interval b1)" using doMerge_single [OF a(1)] .
  have tot: "Total (interval b1) = Some (z - int i)"
    using walk_rep [OF a(1)] a(2) by (simp add: Total_def Interval_Size_def val_def)
  have old: "blocks (m1, st) ?k = Some old" using assms(2) r(3) by simp
  then obtain c where c: "backed st ?k = Some c" "old = arrays m1 ! c" by (auto simp: blocks_def)
  have lo: "length old = nat z" using blocks_length [OF _ old] r(2) assms(3) by (simp add: backend_ok_def)
  obtain bs where bs: "bs = data_bytes m1 (mb_data b1)" "length bs = nat z"
    using r(4,9) il by (auto simp: writing_def content_def covers_def data_bytes_def f split: option.splits)
  obtain l' dst' n' where cp: "Copy (interval b1) old bs = Some (l', Inr (dst', n'))" "length dst' = length old"
    "\<forall>j < length old. dst' ! j = (if \<exists>x \<in> set (join (map (val (interval b1)) [a])). fst x \<le> int j \<and> int j < snd x \<and> snd x < int (length bs)
       then bs ! j else old ! j)"
    using Copy_rep [OF a(1), of old bs] lo bs(2) a(2) by auto
  have "dst' = old" using cp(2,3) bs(2) a(2) assms(10) by (auto intro!: nth_equalityI)
  then have wa: "mem_WriteAt ?k (interval b1) (mb_data b1) (m1, st) = Some (Done (), l', m1, st)"
    using cp(1) c bs(1) by (simp add: mem_WriteAt_def)
  have "Flush ((m1, st), b1) = Some (Done (), (m1, st), flush_done (b1 \<lparr> interval := l' \<rparr>))"
  proof -
    have b1: "written b1 \<noteq> 0" "mb_key b1 = ?k" "storage b1 = Some mem_backend" "\<not> flushed b1" "mb_blockSize b1 = z"
      using r(5-9) il assms(10) by (simp_all add: f)
    have "be_WriteAt mem_backend = mem_WriteAt" by (simp add: mem_backend_def)
    then show ?thesis using dm tot wa b1 il assms(8) by (simp add: Flush_def doFlush_def Let_def i_def)
  qed
  with W r(3) show ?thesis by (auto simp: flush_done_def i_def)
qed

text \<open>Witness of C25: the last byte of a block of four.\<close>

theorem write_at_end_lost_witness:
  "\<exists>m st w1 b1 w2 b2. blocks (m, st) (NewBlockKey 7 0) = Some [1, 2, 3, 4]
    \<and> WriteAt 0 [9] 3 ((m, st), NewMemBlock (Some mem_backend) (NewBlockKey 7 0) 4) = Some (Done (1, None), w1, b1)
    \<and> Flush (w1, b1) = Some (Done (), w2, b2) \<and> blocks w2 (NewBlockKey 7 0) = Some [1, 2, 3, 4]"
proof -
  let ?m = "init_pools \<lparr> arrays := [[1, 2, 3, 4]] \<rparr>"
  let ?st = "\<lparr> blockSize = 4, backed = [NewBlockKey 7 0 \<mapsto> 0], ino2key = [7 \<mapsto> [NewBlockKey 7 0]] \<rparr>"
  have "pool_ok ?m" "pooled ?m = {}" using init_pools_ok by (auto simp: pool_ok_def init_pools_def pooled_def)
  then have ok: "backend_ok (?m, ?st)" by (auto simp: backend_ok_def arrays_ok_def listed_def split: if_splits)
  have b: "blocks (?m, ?st) (NewBlockKey 7 0) = Some [1, 2, 3, 4]" by (simp add: blocks_def)
  have o: "boff 4 3 = 3" by (simp add: boff_def)
  from write_at_end_lost [OF ok b, of 4 3 "[9]" 0] obtain w1 b1 w2 b2 where
    "WriteAt 0 [9] 3 ((?m, ?st), NewMemBlock (Some mem_backend) (NewBlockKey 7 0) 4) = Some (Done (1, None), w1, b1)"
    "Flush (w1, b1) = Some (Done (), w2, b2)" "blocks w2 = blocks (?m, ?st)" by (auto simp: o)
  with b show ?thesis by metis
qed

text \<open>
  A block that is filled from the memory backend shares the stored array, so destroying the block wipes the
  stored bytes, without any write.
\<close>

theorem destroy_wipes_stored:
  assumes "backend_ok (m, st)" and "blocks (m, st) key = Some old" and "0 < blockSize st"
  shows "\<exists>b1 m2 b2 c'. Cache ch ((m, st), NewMemBlock (Some mem_backend) key (int (blockSize st))) = Some (Done (), (m, st), b1)
    \<and> Destroy c ((m, st), b1) = (((m2, st), b2), c') \<and> blocks (m2, st) key = Some (replicate (blockSize st) 0)"
proof -
  obtain a where a: "backed st key = Some a" "old = arrays m ! a" using assms(2) by (auto simp: blocks_def)
  have al: "a < length (arrays m)" "length (arrays m ! a) = blockSize st"
    using arrays_okD(1,3) [of "(m, st)" key a] assms(1) a(1) by (simp_all add: backend_ok_def)
  let ?s = "\<lparr> arr = a, len = blockSize st \<rparr>"
  let ?b = "(NewMemBlock (Some mem_backend) key (int (blockSize st))) \<lparr> mb_data := Some ?s, written := 0, highOff := int (blockSize st) \<rparr>"
  have C: "Cache ch ((m, st), NewMemBlock (Some mem_backend) key (int (blockSize st))) = Some (Done (), (m, st), ?b)"
    using a(1) by (simp add: Cache_def doCache_def NewMemBlock_def mem_backend_def mem_Read_def)
  have z: "arrays (Free ?s m) ! a = replicate (blockSize st) 0"
    using al by (auto simp: Free_def Let_def zero_def slice_write_nth blit_whole split: option.splits)
  have "fst (Destroy c ((m, st), ?b)) = ((Free ?s m, st), ?b \<lparr> mb_data := None, mb_err := Some ErrBlockDestoryed, closed := True \<rparr>)"
    using al assms(3) by (simp add: Destroy_def NewMemBlock_def free_data_def slice_cap_def)
  moreover have "blocks (Free ?s m, st) key = Some (replicate (blockSize st) 0)" using a(1) z by (simp add: blocks_def)
  ultimately show ?thesis using C by (metis prod.collapse)
qed

text \<open>Witness of C32.\<close>

theorem destroy_wipes_stored_witness:
  "\<exists>m st b1 m2 b2 c'. blocks (m, st) ''7,0'' = Some [1, 2, 3, 4]
    \<and> Cache 0 ((m, st), NewMemBlock (Some mem_backend) ''7,0'' 4) = Some (Done (), (m, st), b1)
    \<and> Destroy 0 ((m, st), b1) = (((m2, st), b2), c') \<and> blocks (m2, st) ''7,0'' = Some [0, 0, 0, 0]"
proof -
  let ?m = "init_pools \<lparr> arrays := [[1, 2, 3, 4]] \<rparr>"
  let ?st = "\<lparr> blockSize = 4, backed = [''7,0'' \<mapsto> 0], ino2key = [GetIno ''7,0'' \<mapsto> [''7,0'']] \<rparr>"
  have "pool_ok ?m" "pooled ?m = {}" using init_pools_ok by (auto simp: pool_ok_def init_pools_def pooled_def)
  then have ok: "backend_ok (?m, ?st)" by (auto simp: backend_ok_def arrays_ok_def listed_def split: if_splits)
  have b: "blocks (?m, ?st) ''7,0'' = Some [1, 2, 3, 4]" by (simp add: blocks_def)
  have "replicate 4 (0 :: u8) = [0, 0, 0, 0]" by (simp add: numeral_eq_Suc)
  with destroy_wipes_stored [OF ok b, of 0 0] b show ?thesis by (simp del: fun_upd_apply) metis
qed

end
