(* ===== verification/Meta_Table.thy ===== *)
theory Meta_Table
  imports Inode_Store "HOL-Library.Multiset"
begin

text \<open>
  What the metadata services share: protobuf messages, the order in which Go ranges over a map, sorting
  (\<^verbatim>\<open>src/global/fn.go\<close>), and the records kept under one prefix of the store. Running the generic operations
  of \<^verbatim>\<open>store.go\<close> on the specification of a store is stated once for every serializer without hooks.
\<close>

section \<open>Protobuf messages\<close>

text \<open>
  \<^verbatim>\<open>proto.Marshal\<close> and the decoding part of \<^verbatim>\<open>proto.Unmarshal\<close>, of a third-party package, at one message type.
\<close>

record 'm codec =
  proto_Marshal :: "'m \<Rightarrow> error + blob"
  proto_Decode :: "blob \<Rightarrow> error + 'm"

text \<open>
  A message whose strings are valid text can be marshalled, and decoding gives it back.
\<close>

definition codec_ok :: "('m \<Rightarrow> bool) \<Rightarrow> 'm codec \<Rightarrow> bool" where
  "codec_ok valid C \<longleftrightarrow> (\<forall>x. valid x \<longrightarrow> (\<exists>b. proto_Marshal C x = Inr b \<and> proto_Decode C b = Inr x))"

definition ascii :: "string \<Rightarrow> bool" where "ascii s \<longleftrightarrow> list_all (\<lambda>c. (of_char c :: nat) < 128) s"

text \<open>
  \<^verbatim>\<open>proto.Unmarshal\<close> first calls the generated method \<^verbatim>\<open>Reset\<close> of its target, which assigns through the
  pointer. The target is None for a wrapper whose embedded message is nil.
\<close>

definition Reset :: "'m \<Rightarrow> 'm option \<Rightarrow> error + 'm" where
  "Reset zero x = (case x of None \<Rightarrow> Inl Panic | Some _ \<Rightarrow> Inr zero)"

definition Unmarshal :: "'m codec \<Rightarrow> 'm \<Rightarrow> 'm option \<Rightarrow> blob \<Rightarrow> error + 'm" where
  "Unmarshal C zero target b = (case Reset zero target of Inl e \<Rightarrow> Inl e | Inr _ \<Rightarrow> proto_Decode C b)"

lemma Unmarshal_simps [simp]:
  "Unmarshal C zero None b = Inl Panic" "Unmarshal C zero (Some x) b = proto_Decode C b"
  by (simp_all add: Unmarshal_def Reset_def)

definition enc :: "'m codec \<Rightarrow> 'm \<Rightarrow> blob" where
  "enc C x = (case proto_Marshal C x of Inr b \<Rightarrow> b | Inl _ \<Rightarrow> Bytes [])"

lemma codec_okD:
  assumes "codec_ok valid C" and "valid x"
  shows "proto_Marshal C x = Inr (enc C x)" "proto_Decode C (enc C x) = Inr x"
  using assms by (auto simp: codec_ok_def enc_def)

section \<open>Maps, errors and sorting\<close>

text \<open>\<^verbatim>\<open>maps.Values\<close>: the values of a map in some order.\<close>

type_synonym 'a order = "(string \<times> 'a) list \<Rightarrow> 'a list"

definition order_ok :: "'a order \<Rightarrow> bool" where
  "order_ok ord \<longleftrightarrow> (\<forall>xs. mset (ord xs) = mset (map snd xs))"

lemma order_okD: "order_ok ord \<Longrightarrow> set (ord xs) = snd ` set xs"
  unfolding order_ok_def by (metis set_map set_mset_mset)

text \<open>\<^verbatim>\<open>if err != nil { return nil, errors.Join(baseErr, err) }\<close>.\<close>

definition joinErr :: "('a, 's) gom \<Rightarrow> ('a, 's) gom" where
  "joinErr p = tryE p (\<lambda>r. case r of Inl e \<Rightarrow> throwE (Wrapped e) | Inr x \<Rightarrow> returnE x)"

lemma joinErr_run [run_simps]:
  "joinErr p s = (case p s of (r, t) \<Rightarrow>
     ((case r of Inl e \<Rightarrow> Inl (if e = Panic then Panic else Wrapped e) | Inr x \<Rightarrow> Inr x), t))"
  by (auto simp: joinErr_def run_simps split: prod.split sum.split)

text \<open>
  \<^verbatim>\<open>sort.Sort\<close> is not stable, so which of the sorted permutations it gives is an argument.
\<close>

type_synonym 'a sorter = "('a \<Rightarrow> 'a \<Rightarrow> bool) \<Rightarrow> 'a list \<Rightarrow> 'a list"

definition sorter_ok :: "'a sorter \<Rightarrow> bool" where
  "sorter_ok srt \<longleftrightarrow> (\<forall>lt xs. mset (srt lt xs) = mset xs \<and>
     (\<forall>f :: 'a \<Rightarrow> int. (\<forall>x \<in> set xs. \<forall>y \<in> set xs. lt x y \<longleftrightarrow> f x < f y) \<longrightarrow> sorted (map f (srt lt xs))))"

definition SortR :: "'a sorter \<Rightarrow> 'a list \<Rightarrow> ('a \<Rightarrow> 'a \<Rightarrow> int) \<Rightarrow> 'a list" where
  "SortR srt values comparator = srt (\<lambda>a b. comparator a b < 0) values"

text \<open>Insertion sort is one of the sorts meant.\<close>

fun isort_ins :: "('a \<Rightarrow> 'a \<Rightarrow> bool) \<Rightarrow> 'a \<Rightarrow> 'a list \<Rightarrow> 'a list" where
  "isort_ins lt x [] = [x]"
| "isort_ins lt x (y # ys) = (if lt y x then y # isort_ins lt x ys else x # y # ys)"

definition isort :: "'a sorter" where "isort lt xs = foldr (isort_ins lt) xs []"

lemma mset_isort_ins [simp]: "mset (isort_ins lt x ys) = add_mset x (mset ys)"
  by (induction ys) auto

lemma mset_isort: "mset (isort lt xs) = mset xs"
  by (induction xs) (auto simp: isort_def)

lemma set_isort_ins [simp]: "set (isort_ins lt x ys) = insert x (set ys)"
  by (induction ys) auto

lemma sorted_isort_ins:
  fixes f :: "'a \<Rightarrow> int"
  assumes "\<And>y. y \<in> set ys \<Longrightarrow> lt y x \<longleftrightarrow> f y < f x" and "sorted (map f ys)"
  shows "sorted (map f (isort_ins lt x ys))"
  using assms by (induction ys) fastforce+

lemma sorter_isort: "sorter_ok isort"
proof -
  have s: "set (isort lt xs) = set xs" for lt and xs :: "'a list"
    using mset_isort by (metis set_mset_mset)
  have "sorted (map f (isort lt xs))"
    if "\<forall>x \<in> set xs. \<forall>y \<in> set xs. lt x y \<longleftrightarrow> f x < f y" for lt and f :: "'a \<Rightarrow> int" and xs
    using that
  proof (induction xs)
    case (Cons x xs)
    then show ?case using sorted_isort_ins [of "isort lt xs" lt x f] s [of lt xs] by (simp add: isort_def)
  qed (simp add: isort_def)
  then show ?thesis by (simp add: sorter_ok_def mset_isort)
qed

section \<open>Records under a prefix\<close>

definition no_hooks :: "'a Serializer \<Rightarrow> bool" where
  "no_hooks z \<longleftrightarrow> BeforeSerialize z = None \<and> AfterSerialize z = None \<and> BeforeDeserialize z = None
     \<and> AfterDeserialize z = None \<and> FormatKey z \<noteq> [] \<and> FormatKey z \<noteq> FormatPrefix z \<and> FormatPrefix z \<noteq> []"

definition rows :: "string \<Rightarrow> (blob \<Rightarrow> error + 'a) \<Rightarrow> kv \<Rightarrow> error + (string \<times> 'a) list" where
  "rows pre D kv = sum_map (\<lambda>(k, b). mapR (Pair k) (D b)) (bucket_kv pre kv)"

lemma save_run:
  "no_hooks z \<Longrightarrow> Serialize z = Inr b \<Longrightarrow>
   DoSaveInKVPair spec_store c (Some z) = spec_write c (kv_ins (FormatKey z) b)"
  by (simp add: fun_eq_iff DoSaveInKVPair_def no_hooks_def run_simps checkE_def)

lemma get_run:
  "no_hooks z \<Longrightarrow> DoGetValueByKey spec_store c (Some z) =
     spec_read c (\<lambda>kv. case lookup_kv (FormatKey z) kv of Inl e \<Rightarrow> Inl e | Inr b \<Rightarrow> Deserialize z b)"
  by (auto simp: fun_eq_iff DoGetValueByKey_def no_hooks_def run_simps checkE_def spec_read_def
      split: option.splits sum.splits)

lemma rows_run:
  "no_hooks z \<Longrightarrow> DoGetValuesByPrefix spec_store c (Some z) = spec_read c (rows (FormatPrefix z) (Deserialize z))"
proof -
  have f: "(\<lambda>(key, buf). bindE (liftE (Deserialize z buf)) (\<lambda>value. returnE (key, value))) =
      (\<lambda>x. liftE ((\<lambda>(k, b). mapR (Pair k) (Deserialize z b)) x) :: (_, spec) gom)"
    by (auto simp: fun_eq_iff run_simps mapR_def split: sum.split)
  assume "no_hooks z"
  then show ?thesis
    by (auto simp: fun_eq_iff DoGetValuesByPrefix_def no_hooks_def f mapE_liftE run_simps spec_read_def
        rows_def split: option.splits)
qed

text \<open>When every value under a prefix can be decoded, listing gives exactly the decoded values.\<close>

lemma sum_map_all:
  "(\<And>x. x \<in> set xs \<Longrightarrow> f x = Inr (g x)) \<Longrightarrow> sum_map f xs = Inr (map g xs)"
  by (induction xs) auto

lemma rows_all:
  assumes "kv_ok kv" and "\<And>x b. in_bucket pre x \<Longrightarrow> map_of kv x = Some b \<Longrightarrow> \<exists>v. D b = Inr v"
  obtains r where "rows pre D kv = Inr r" and "distinct (map fst r)"
    and "\<And>k v. (k, v) \<in> set r \<longleftrightarrow> in_bucket pre k \<and> (\<exists>b. map_of kv k = Some b \<and> D b = Inr v)"
proof -
  let ?bs = "bucket_kv pre kv"
  let ?v = "\<lambda>b. case D b of Inr v \<Rightarrow> v | Inl _ \<Rightarrow> undefined"
  have d: "distinct (map fst kv)" using assms(1) by (rule kv_ok_distinct)
  have mem: "(k, b) \<in> set ?bs \<longleftrightarrow> in_bucket pre k \<and> map_of kv k = Some b" for k b
    using d by (auto simp: bucket_kv_def)
  have step: "(\<lambda>(k, b). mapR (Pair k) (D b)) x = Inr (fst x, ?v (snd x))" if x: "x \<in> set ?bs" for x
    using mem [of "fst x" "snd x"] assms(2) [of "fst x" "snd x"] x by (cases x) auto
  have "rows pre D kv = Inr (map (\<lambda>x. (fst x, ?v (snd x))) ?bs)"
    unfolding rows_def using step by (rule sum_map_all)
  moreover have "distinct (map fst (map (\<lambda>x. (fst x, ?v (snd x))) ?bs))"
    using kv_ok_distinct [OF kv_ok_filter [OF assms(1)]] by (simp add: bucket_kv_def o_def)
  moreover have "(k, v) \<in> set (map (\<lambda>x. (fst x, ?v (snd x))) ?bs) \<longleftrightarrow>
      in_bucket pre k \<and> (\<exists>b. map_of kv k = Some b \<and> D b = Inr v)" for k v
  proof -
    have "(k, v) \<in> set (map (\<lambda>x. (fst x, ?v (snd x))) ?bs) \<longleftrightarrow> (\<exists>b. (k, b) \<in> set ?bs \<and> v = ?v b)"
      by force
    also have "\<dots> \<longleftrightarrow> in_bucket pre k \<and> (\<exists>b. map_of kv k = Some b \<and> D b = Inr v)"
      using mem assms(2) [of k] by fastforce
    finally show ?thesis .
  qed
  ultimately show thesis by (rule that)
qed

lemma fold_ins_in:
  assumes "x \<in> set xs" and "\<And>y. y \<in> set xs \<Longrightarrow> key y = key x \<Longrightarrow> y = x"
  shows "map_of (fold (\<lambda>x. kv_ins (key x) (val x)) xs kv) (key x) = Some (val x)"
  using assms
proof (induction xs rule: rev_induct)
  case (snoc y ys)
  then show ?case by (cases "key y = key x") auto
qed simp

lemma fold_ins_out:
  "(\<And>y. y \<in> set xs \<Longrightarrow> key y \<noteq> k) \<Longrightarrow> map_of (fold (\<lambda>x. kv_ins (key x) (val x)) xs kv) k = map_of kv k"
  by (induction xs arbitrary: kv) auto

lemma kv_ok_ins_all: "kv_ok kv \<Longrightarrow> kv_ok (fold (\<lambda>x. kv_ins (key x) (val x)) xs kv)"
  by (induction xs arbitrary: kv) auto

text \<open>A prefix that ends with a separator.\<close>

lemma in_bucket_slash:
  assumes "p \<noteq> []" and "last p \<noteq> CHR ''/''"
  shows "in_bucket (p @ ''/'') x \<longleftrightarrow> prefix (p @ ''/'') x"
proof -
  have n: "norm_key (p @ ''/'') = p" using assms by (simp add: norm_key_def trim_slash_def)
  moreover have "p \<noteq> ''/''" using assms by auto
  moreover have "\<not> prefix (p @ ''/'') p" by (auto dest: prefix_length_le)
  ultimately show ?thesis by (auto simp: in_bucket_def bucket_prefix_def)
qed

lemma norm_key_digits: "norm_key (p @ fmt_d n) = p @ fmt_d n"
  by (auto simp: norm_key_def trim_slash_def last_fmt_d)

end
