(* ===== verification/Meta_Cluster.thy ===== *)
theory Meta_Cluster
  imports Meta_Table
begin

text \<open>
  \<^verbatim>\<open>src/pkg/meta/cluster\<close>: the storage nodes of the cluster, each with its list of peers, and the nodes by
  address. The order in which Go ranges over a map is an argument, and so are the time, the next snowflake
  number and \<^verbatim>\<open>sort.Sort\<close>. Tracing and logging are left out; \<^verbatim>\<open>errors.Join\<close> with a message is \<^const>\<open>Wrapped\<close>.
  The main results: adding a node keeps every node's list of peers complete, and the two candidates are the
  nodes with the most free space.
\<close>

section \<open>Nodes\<close>

record StorageNode =
  sn_Id :: u64
  sn_Ip :: string
  sn_Port :: u64
  sn_CreatedAt :: u64
  sn_UpdatedAt :: u64
  sn_Peers :: "u64 list"
  sn_Cap :: u64
  sn_Usage :: u64
  sn_PhysicalVolumeIds :: "u64 list"
  sn_TcpPort :: u64

definition zero_node :: StorageNode where
  "zero_node = \<lparr> sn_Id = 0, sn_Ip = [], sn_Port = 0, sn_CreatedAt = 0, sn_UpdatedAt = 0, sn_Peers = [], sn_Cap = 0,
     sn_Usage = 0, sn_PhysicalVolumeIds = [], sn_TcpPort = 0 \<rparr>"

definition StorageNode_FormatPrefix :: string where "StorageNode_FormatPrefix = ''storage_node/''"

definition StorageNode_FormatKey :: "StorageNode \<Rightarrow> string" where
  "StorageNode_FormatKey n = StorageNode_FormatPrefix @ fmt_d (unat (sn_Id n))"

definition StorageNode_Serialize :: "StorageNode codec \<Rightarrow> StorageNode \<Rightarrow> error + blob" where
  "StorageNode_Serialize C n = proto_Marshal C n"

definition StorageNode_Deserialize :: "StorageNode codec \<Rightarrow> blob \<Rightarrow> error + StorageNode" where
  "StorageNode_Deserialize C b = Unmarshal C zero_node (Some zero_node) b"

definition node_ser :: "StorageNode codec \<Rightarrow> StorageNode \<Rightarrow> StorageNode Serializer" where
  "node_ser C n = \<lparr> FormatKey = StorageNode_FormatKey n, FormatPrefix = StorageNode_FormatPrefix,
     Serialize = StorageNode_Serialize C n, Deserialize = StorageNode_Deserialize C,
     BeforeSerialize = None, AfterSerialize = None, BeforeDeserialize = None, AfterDeserialize = None \<rparr>"

definition StorageNode_Addr :: "StorageNode \<Rightarrow> string" where
  "StorageNode_Addr n = sn_Ip n @ '':'' @ fmt_d (unat (sn_Port n))"

record NodeAddr =
  na_Addr :: string
  na_Id :: u64

definition NodeAddr_FormatPrefix :: string where "NodeAddr_FormatPrefix = ''storage_node_addr/''"

definition NodeAddr_FormatKey :: "NodeAddr \<Rightarrow> string" where
  "NodeAddr_FormatKey a = NodeAddr_FormatPrefix @ na_Addr a"

definition NodeAddr_Serialize :: "NodeAddr \<Rightarrow> error + blob" where
  "NodeAddr_Serialize a = Inr (JsonDoc (JObj [(''Addr'', JStr (na_Addr a)), (''Id'', JNum (uint (na_Id a)))]))"

definition NodeAddr_member :: "string \<Rightarrow> json \<Rightarrow> NodeAddr \<Rightarrow> error + NodeAddr" where
  "NodeAddr_member k j a = (let l = map to_lower k in
     if l = ''addr'' then mapR (\<lambda>v. a \<lparr> na_Addr := v \<rparr>) (dec_str j (na_Addr a))
     else if l = ''id'' then mapR (\<lambda>v. a \<lparr> na_Id := v \<rparr>) (dec_uint j (na_Id a))
     else Inr a)"

definition NodeAddr_Deserialize :: "blob \<Rightarrow> error + NodeAddr" where
  "NodeAddr_Deserialize b = unmarshal NodeAddr_member \<lparr> na_Addr = [], na_Id = 0 \<rparr> b"

definition addr_ser :: "NodeAddr \<Rightarrow> NodeAddr Serializer" where
  "addr_ser a = \<lparr> FormatKey = NodeAddr_FormatKey a, FormatPrefix = NodeAddr_FormatPrefix,
     Serialize = NodeAddr_Serialize a, Deserialize = NodeAddr_Deserialize,
     BeforeSerialize = None, AfterSerialize = None, BeforeDeserialize = None, AfterDeserialize = None \<rparr>"

section \<open>The service\<close>

definition ListStorageNodes :: "'s Store \<Rightarrow> StorageNode codec \<Rightarrow> StorageNode order \<Rightarrow> (StorageNode list, 's) gom" where
  "ListStorageNodes S C ord = bindE (DoGetValuesByPrefix S False (Some (node_ser C zero_node))) (\<lambda>nodes. returnE (ord nodes))"

text \<open>The argument of \<^verbatim>\<open>GetStorageNode_Request\<close> is one of the two.\<close>

datatype node_arg = ById u64 | ByAddress string

definition GetStorageNode :: "'s Store \<Rightarrow> StorageNode codec \<Rightarrow> node_arg \<Rightarrow> (StorageNode, 's) gom" where
  "GetStorageNode S C req =
     bindE (case req of
         ByAddress address \<Rightarrow> if address = [] then returnE 0
           else bindE (DoGetValueByKey S False (Some (addr_ser \<lparr> na_Addr = address, na_Id = 0 \<rparr>))) (\<lambda>nodeAddr. returnE (na_Id nodeAddr))
       | ById i \<Rightarrow> returnE i) (\<lambda>i.
     DoGetValueByKey S False (Some (node_ser C (zero_node \<lparr> sn_Id := i \<rparr>))))"

record add_node_req =
  rq_Ip :: string
  rq_Port :: u64
  rq_TcpPort :: u64
  rq_Cap :: u64

definition new_node :: "u64 \<Rightarrow> u64 \<Rightarrow> u64 \<Rightarrow> StorageNode list \<Rightarrow> add_node_req \<Rightarrow> StorageNode" where
  "new_node i created updated nodes req = \<lparr> sn_Id = i, sn_Ip = rq_Ip req, sn_Port = rq_Port req, sn_CreatedAt = created,
     sn_UpdatedAt = updated, sn_Peers = (if nodes = [] then [i] else sn_Peers (nodes ! 0) @ [i]), sn_Cap = rq_Cap req,
     sn_Usage = 0, sn_PhysicalVolumeIds = [], sn_TcpPort = rq_TcpPort req \<rparr>"

definition AddStorageNode :: "'s Store \<Rightarrow> StorageNode codec \<Rightarrow> StorageNode order \<Rightarrow> u64 \<Rightarrow> u64 \<Rightarrow> u64 \<Rightarrow> add_node_req \<Rightarrow>
    (StorageNode, 's) gom" where
  "AddStorageNode S C ord i created updated req =
     bindE (joinErr (ListStorageNodes S C ord)) (\<lambda>nodes.
     let node = new_node i created updated nodes req in
     bindE (joinErr (DoInTxn S (\<lambda>c.
         bindE (DoSaveInKVPair S c (Some (node_ser C node))) (\<lambda>_.
         bindE (DoSaveInKVPair S c (Some (addr_ser \<lparr> na_Addr = StorageNode_Addr node, na_Id = sn_Id node \<rparr>))) (\<lambda>_.
         DoBatchSaveStrictly S c (map (\<lambda>n. Some (node_ser C (n \<lparr> sn_Peers := sn_Peers n @ [sn_Id node] \<rparr>))) nodes)))))) (\<lambda>_.
     returnE node))"

text \<open>
  The comparator \<^verbatim>\<open>int(n2.Cap-n2.Usage) - int(n1.Cap-n1.Usage)\<close>, in 64 bits.
\<close>

definition cmp_free :: "StorageNode \<Rightarrow> StorageNode \<Rightarrow> int" where
  "cmp_free n1 n2 = sint ((sn_Cap n2 - sn_Usage n2) - (sn_Cap n1 - sn_Usage n1))"

definition GetCandidateStorage :: "'s Store \<Rightarrow> StorageNode codec \<Rightarrow> StorageNode order \<Rightarrow> StorageNode sorter \<Rightarrow>
    (StorageNode \<times> StorageNode, 's) gom" where
  "GetCandidateStorage S C ord srt =
     bindE (ListStorageNodes S C ord) (\<lambda>nodes.
     if length nodes < 2 then throwE (ErrOther ''not enough volumes'')
     else let nodes = SortR srt nodes cmp_free in returnE (nodes ! 0, nodes ! 1))"

text \<open>The map from volumes to their usage is given as an association list; only the sum of its values is used.\<close>

definition PatchStorageNode :: "'s Store \<Rightarrow> StorageNode codec \<Rightarrow> u64 \<Rightarrow> (u64 \<times> u64) list \<Rightarrow> (StorageNode, 's) gom" where
  "PatchStorageNode S C i usage =
     bindE (DoGetValueByKey S False (Some (node_ser C (zero_node \<lparr> sn_Id := i \<rparr>)))) (\<lambda>node.
     let node' = node \<lparr> sn_Usage := sum_list (map snd usage) \<rparr> in
     bindE (DoSaveInKVPair S False (Some (node_ser C node'))) (\<lambda>_. returnE node'))"

section \<open>Running the operations\<close>

definition node_key :: "u64 \<Rightarrow> string" where "node_key i = StorageNode_FormatPrefix @ fmt_d (unat i)"

definition addr_key :: "string \<Rightarrow> string" where "addr_key a = NodeAddr_FormatPrefix @ a"

definition node_valid :: "StorageNode \<Rightarrow> bool" where "node_valid n \<longleftrightarrow> ascii (sn_Ip n)"

lemma key_simps_cluster [simp]:
  "node_key i = node_key j \<longleftrightarrow> i = j" "node_key i \<noteq> addr_key a" "addr_key a \<noteq> node_key i"
  "norm_key (node_key i) = node_key i"
  by (simp_all add: node_key_def addr_key_def StorageNode_FormatPrefix_def NodeAddr_FormatPrefix_def unat_inject
      norm_key_digits [of "''storage_node/''", simplified])

lemma in_bucket_node: "in_bucket StorageNode_FormatPrefix x \<longleftrightarrow> prefix StorageNode_FormatPrefix x"
  using in_bucket_slash [of "''storage_node''"] by (simp add: StorageNode_FormatPrefix_def)

lemma in_bucket_node_simps [simp]:
  "in_bucket StorageNode_FormatPrefix (node_key i)" "\<not> in_bucket StorageNode_FormatPrefix (addr_key a)"
  unfolding in_bucket_node
  by (simp_all add: node_key_def addr_key_def StorageNode_FormatPrefix_def NodeAddr_FormatPrefix_def)

lemma node_ser_simps [simp]:
  "no_hooks (node_ser C n)" "FormatKey (node_ser C n) = node_key (sn_Id n)"
  "FormatPrefix (node_ser C n) = StorageNode_FormatPrefix" "Serialize (node_ser C n) = proto_Marshal C n"
  "Deserialize (node_ser C n) = proto_Decode C"
  by (simp_all add: node_ser_def no_hooks_def node_key_def StorageNode_FormatKey_def StorageNode_FormatPrefix_def
      StorageNode_Serialize_def StorageNode_Deserialize_def fun_eq_iff)

definition addr_doc :: "NodeAddr \<Rightarrow> blob" where
  "addr_doc a = JsonDoc (JObj [(''Addr'', JStr (na_Addr a)), (''Id'', JNum (uint (na_Id a)))])"

lemma addr_ser_simps [simp]:
  "na_Addr a \<noteq> [] \<Longrightarrow> no_hooks (addr_ser a)" "FormatKey (addr_ser a) = addr_key (na_Addr a)"
  "Serialize (addr_ser a) = Inr (addr_doc a)" "Deserialize (addr_ser a) = NodeAddr_Deserialize"
  by (simp_all add: addr_ser_def no_hooks_def addr_key_def NodeAddr_FormatKey_def NodeAddr_FormatPrefix_def
      NodeAddr_Serialize_def addr_doc_def)

lemma NodeAddr_roundtrip [simp]: "NodeAddr_Deserialize (addr_doc a) = Inr a"
proof -
  have "map to_lower ''Addr'' = ''addr''" "map to_lower ''Id'' = ''id''" by code_simp+
  then show ?thesis
    by (cases a) (simp add: NodeAddr_Deserialize_def addr_doc_def unmarshal_def NodeAddr_member_def Let_def
        del: list.map)
qed

lemma batch_nodes:
  assumes "codec_ok node_valid C" and "\<And>n. n \<in> set ns \<Longrightarrow> node_valid (f n)"
  shows "DoBatchSaveStrictly spec_store c (map (\<lambda>n. Some (node_ser C (f n))) ns) =
     spec_write c (fold (\<lambda>n. kv_ins (node_key (sn_Id (f n))) (enc C (f n))) ns)"
proof -
  have "sum_map batch_entry (map (\<lambda>n. Some (node_ser C (f n))) ns) =
      Inr (map (\<lambda>n. \<lparr> Key = node_key (sn_Id (f n)), Val = enc C (f n) \<rparr>) ns)"
    using assms(2) by (induction ns) (auto simp: batch_entry_def codec_okD [OF assms(1)])
  then show ?thesis
    by (auto simp: fun_eq_iff DoBatchSaveStrictly_def mapE_liftE run_simps fold_map o_def)
qed

section \<open>Peers\<close>

text \<open>The numbers of the stored nodes, and the node stored under a number.\<close>

definition node_ids :: "kv \<Rightarrow> u64 set" where "node_ids kv = {i. map_of kv (node_key i) \<noteq> None}"

definition node_at :: "StorageNode codec \<Rightarrow> kv \<Rightarrow> u64 \<Rightarrow> StorageNode option" where
  "node_at C kv i = (case map_of kv (node_key i) of None \<Rightarrow> None
     | Some b \<Rightarrow> (case proto_Decode C b of Inl _ \<Rightarrow> None | Inr n \<Rightarrow> Some n))"

text \<open>
  Everything under the prefix is a node stored under its own number, whose peers are the stored nodes, each
  listed once.
\<close>

definition cluster_ok :: "StorageNode codec \<Rightarrow> kv \<Rightarrow> bool" where
  "cluster_ok C kv \<longleftrightarrow> kv_ok kv \<and>
     (\<forall>x b. in_bucket StorageNode_FormatPrefix x \<longrightarrow> map_of kv x = Some b \<longrightarrow>
       (\<exists>n. proto_Decode C b = Inr n \<and> x = node_key (sn_Id n) \<and> node_valid n
          \<and> distinct (sn_Peers n) \<and> set (sn_Peers n) = node_ids kv))"

lemma ListStorageNodes_run:
  "ListStorageNodes spec_store C ord m =
     ((case rows StorageNode_FormatPrefix (proto_Decode C) (committed m) of Inl e \<Rightarrow> Inl e | Inr r \<Rightarrow> Inr (ord r)), m)"
  by (auto simp: ListStorageNodes_def rows_run run_simps split: sum.split)

lemma list_nodes:
  assumes "cluster_ok C kv" and "order_ok ord"
  obtains r where "rows StorageNode_FormatPrefix (proto_Decode C) kv = Inr r"
    and "\<And>n. n \<in> set (ord r) \<longleftrightarrow> node_at C kv (sn_Id n) = Some n"
    and "\<And>n. n \<in> set (ord r) \<Longrightarrow> node_valid n \<and> distinct (sn_Peers n) \<and> set (sn_Peers n) = node_ids kv"
    and "sn_Id ` set (ord r) = node_ids kv" and "distinct (ord r)"
proof -
  note ok = assms(1) [unfolded cluster_ok_def]
  have ok1: "\<exists>n. proto_Decode C b = Inr n \<and> x = node_key (sn_Id n) \<and> node_valid n
          \<and> distinct (sn_Peers n) \<and> set (sn_Peers n) = node_ids kv"
    if "in_bucket StorageNode_FormatPrefix x" "map_of kv x = Some b" for x b
    using ok that by blast
  obtain r where r: "rows StorageNode_FormatPrefix (proto_Decode C) kv = Inr r"
      and d: "distinct (map fst r)" and mem_r: "\<And>k v. (k, v) \<in> set r \<longleftrightarrow> in_bucket StorageNode_FormatPrefix k \<and>
         (\<exists>b. map_of kv k = Some b \<and> proto_Decode C b = Inr v)"
  proof (rule rows_all [of kv StorageNode_FormatPrefix "proto_Decode C"])
    show "kv_ok kv" using ok by blast
    show "\<exists>v. proto_Decode C b = Inr v" if "in_bucket StorageNode_FormatPrefix x" "map_of kv x = Some b" for x b
      using ok1 [OF that] by blast
  qed blast
  have mem: "n \<in> set (ord r) \<longleftrightarrow> node_at C kv (sn_Id n) = Some n" for n
  proof -
    have "n \<in> set (ord r) \<longleftrightarrow> (\<exists>k. (k, n) \<in> set r)" by (force simp: order_okD [OF assms(2)])
    also have "\<dots> \<longleftrightarrow> (\<exists>b. map_of kv (node_key (sn_Id n)) = Some b \<and> proto_Decode C b = Inr n)"
      unfolding mem_r using ok1 by (metis in_bucket_node_simps(1) sum.inject(2))
    finally show ?thesis by (auto simp: node_at_def split: option.split sum.split)
  qed
  have good: "node_valid n \<and> distinct (sn_Peers n) \<and> set (sn_Peers n) = node_ids kv" if n: "n \<in> set (ord r)" for n
  proof -
    obtain b where b: "map_of kv (node_key (sn_Id n)) = Some b" "proto_Decode C b = Inr n"
      using n by (auto simp: mem node_at_def split: option.splits sum.splits)
    show ?thesis using ok1 [OF in_bucket_node_simps(1) b(1)] b(2) by auto
  qed
  have ids: "sn_Id ` set (ord r) = node_ids kv"
  proof (intro equalityI subsetI)
    fix i assume "i \<in> sn_Id ` set (ord r)"
    then show "i \<in> node_ids kv" by (auto simp: mem node_at_def node_ids_def split: option.splits)
  next
    fix i assume "i \<in> node_ids kv"
    then obtain b where b: "map_of kv (node_key i) = Some b" by (auto simp: node_ids_def)
    with ok1 [OF in_bucket_node_simps(1) b] obtain n where "proto_Decode C b = Inr n" "sn_Id n = i" by auto
    with b have "n \<in> set (ord r)" by (simp add: mem node_at_def)
    with \<open>sn_Id n = i\<close> show "i \<in> sn_Id ` set (ord r)" by blast
  qed
  have "fst p = node_key (sn_Id (snd p))" if p: "p \<in> set r" for p
  proof -
    obtain b where b: "in_bucket StorageNode_FormatPrefix (fst p)" "map_of kv (fst p) = Some b"
        "proto_Decode C b = Inr (snd p)"
      using p mem_r [of "fst p" "snd p"] by auto
    then show ?thesis using ok1 [OF b(1,2)] by auto
  qed
  then have "map fst r = map (\<lambda>n. node_key (sn_Id n)) (map snd r)" by simp
  then have "distinct (map snd r)" using d distinct_map by metis
  then have "distinct (ord r)" using assms(2) unfolding order_ok_def by (metis mset_eq_imp_distinct_iff)
  then show thesis using that r mem good ids by blast
qed

text \<open>The content after a node was added.\<close>

definition with_peer :: "u64 \<Rightarrow> StorageNode \<Rightarrow> StorageNode" where
  "with_peer i n = n \<lparr> sn_Peers := sn_Peers n @ [i] \<rparr>"

definition added :: "StorageNode codec \<Rightarrow> StorageNode \<Rightarrow> StorageNode list \<Rightarrow> kv \<Rightarrow> kv" where
  "added C node ns kv = fold (\<lambda>n. kv_ins (node_key (sn_Id n)) (enc C (with_peer (sn_Id node) n))) ns
     (kv_ins (addr_key (StorageNode_Addr node)) (addr_doc \<lparr> na_Addr = StorageNode_Addr node, na_Id = sn_Id node \<rparr>)
       (kv_ins (node_key (sn_Id node)) (enc C node) kv))"

lemma AddStorageNode_run:
  assumes "codec_ok node_valid C" and "rows StorageNode_FormatPrefix (proto_Decode C) (committed m) = Inr r"
    and "\<And>n. n \<in> set (ord r) \<Longrightarrow> node_valid n" and "ascii (rq_Ip req)"
  shows "AddStorageNode spec_store C ord i t1 t2 req m =
     (let node = new_node i t1 t2 (ord r) req in
      (Inr node, m \<lparr> committed := added C node (ord r) (committed m), pending := None \<rparr>))"
proof -
  let ?node = "new_node i t1 t2 (ord r) req"
  have v: "node_valid ?node" using assms(4) by (simp add: node_valid_def new_node_def)
  have a: "StorageNode_Addr n \<noteq> []" for n by (simp add: StorageNode_Addr_def)
  have vp: "node_valid (n \<lparr> sn_Peers := sn_Peers n @ [i] \<rparr>)" if "n \<in> set (ord r)" for n
    using assms(3) [OF that] by (simp add: node_valid_def)
  have i: "sn_Id ?node = i" by (simp add: new_node_def)
  note batch = batch_nodes [OF assms(1), where ns = "ord r" and f = "\<lambda>n. n \<lparr> sn_Peers := sn_Peers n @ [i] \<rparr>", OF vp]
  show ?thesis
    by (simp add: AddStorageNode_def Let_def run_simps ListStorageNodes_run assms(2) i batch a
        save_run codec_okD(1) [OF assms(1) v] added_def with_peer_def)
qed

lemma map_of_added:
  assumes "\<And>n. n \<in> set ns \<longleftrightarrow> node_at C kv (sn_Id n) = Some n"
  shows "node_at C kv j = Some n \<Longrightarrow> sn_Id n = j \<Longrightarrow>
      map_of (added C node ns kv) (node_key j) = Some (enc C (with_peer (sn_Id node) n))"
    and "node_at C kv j = None \<Longrightarrow>
      map_of (added C node ns kv) (node_key j) = (if j = sn_Id node then Some (enc C node) else map_of kv (node_key j))"
proof -
  let ?kv = "kv_ins (addr_key (StorageNode_Addr node)) (addr_doc \<lparr> na_Addr = StorageNode_Addr node, na_Id = sn_Id node \<rparr>)
       (kv_ins (node_key (sn_Id node)) (enc C node) kv)"
  { assume n: "node_at C kv j = Some n" "sn_Id n = j"
    have "n \<in> set ns" using n assms by blast
    moreover have "y = n" if y: "y \<in> set ns" "node_key (sn_Id y) = node_key (sn_Id n)" for y
    proof -
      have "sn_Id y = j" using y(2) n(2) by simp
      then show ?thesis using assms [of y] y(1) n(1) by simp
    qed
    ultimately show "map_of (added C node ns kv) (node_key j) = Some (enc C (with_peer (sn_Id node) n))"
      using fold_ins_in [of n ns "\<lambda>n. node_key (sn_Id n)" "\<lambda>n. enc C (with_peer (sn_Id node) n)" ?kv]
      unfolding added_def n(2) by blast }
  { assume "node_at C kv j = None"
    then have "node_key (sn_Id y) \<noteq> node_key j" if "y \<in> set ns" for y using that assms [of y] by auto
    then show "map_of (added C node ns kv) (node_key j) =
        (if j = sn_Id node then Some (enc C node) else map_of kv (node_key j))"
      using fold_ins_out [of ns "\<lambda>n. node_key (sn_Id n)" "node_key j" "\<lambda>n. enc C (with_peer (sn_Id node) n)" ?kv]
      unfolding added_def by simp }
qed

lemma map_of_added_other:
  assumes "\<And>j. x \<noteq> node_key j"
  shows "map_of (added C node ns kv) x = (if x = addr_key (StorageNode_Addr node)
     then Some (addr_doc \<lparr> na_Addr = StorageNode_Addr node, na_Id = sn_Id node \<rparr>) else map_of kv x)"
proof -
  have "map_of (fold (\<lambda>n. kv_ins (node_key (sn_Id n)) (f n)) ns kv') x = map_of kv' x" for f kv'
    using assms by (induction ns arbitrary: kv') auto
  then show ?thesis using assms by (simp add: added_def)
qed

lemma cluster_node:
  assumes "cluster_ok C kv" and "map_of kv (node_key j) = Some b"
  obtains n where "node_at C kv j = Some n" and "sn_Id n = j"
  using assms in_bucket_node_simps(1) [of j] unfolding cluster_ok_def node_at_def by fastforce

lemma added_ids:
  assumes "cluster_ok C kv" and "\<And>n. n \<in> set ns \<longleftrightarrow> node_at C kv (sn_Id n) = Some n"
  shows "node_ids (added C node ns kv) = insert (sn_Id node) (node_ids kv)"
proof -
  have "map_of (added C node ns kv) (node_key j) \<noteq> None \<longleftrightarrow> j = sn_Id node \<or> map_of kv (node_key j) \<noteq> None" for j
  proof (cases "map_of kv (node_key j)")
    case None
    then have "node_at C kv j = None" by (simp add: node_at_def)
    then show ?thesis using None map_of_added(2) [OF assms(2)] by simp
  next
    case (Some b)
    then obtain n where "node_at C kv j = Some n" "sn_Id n = j" by (rule cluster_node [OF assms(1)])
    then show ?thesis using Some map_of_added(1) [OF assms(2)] by simp
  qed
  then show ?thesis by (auto simp: node_ids_def)
qed

lemma added_ok:
  assumes C: "codec_ok node_valid C" and ok: "cluster_ok C kv"
    and mem: "\<And>n. n \<in> set ns \<longleftrightarrow> node_at C kv (sn_Id n) = Some n"
    and good: "\<And>n. n \<in> set ns \<Longrightarrow> node_valid n \<and> distinct (sn_Peers n) \<and> set (sn_Peers n) = node_ids kv"
    and new: "sn_Id node \<notin> node_ids kv" "node_valid node" "distinct (sn_Peers node)"
      "set (sn_Peers node) = insert (sn_Id node) (node_ids kv)"
  shows "cluster_ok C (added C node ns kv)"
  unfolding cluster_ok_def
proof (intro conjI allI impI)
  show "kv_ok (added C node ns kv)"
    using ok by (auto simp: added_def cluster_ok_def intro!: kv_ok_ins_all)
  note ids = added_ids [OF ok mem, of node]
  fix x b assume x: "in_bucket StorageNode_FormatPrefix x" and b: "map_of (added C node ns kv) x = Some b"
  show "\<exists>n. proto_Decode C b = Inr n \<and> x = node_key (sn_Id n) \<and> node_valid n
      \<and> distinct (sn_Peers n) \<and> set (sn_Peers n) = node_ids (added C node ns kv)"
  proof (cases "\<exists>j. x = node_key j")
    case True
    then obtain j where j: "x = node_key j" by blast
    show ?thesis
    proof (cases "j \<in> node_ids kv")
      case True
      then obtain b' where "map_of kv (node_key j) = Some b'" by (auto simp: node_ids_def)
      then obtain n where n: "node_at C kv j = Some n" "sn_Id n = j" by (rule cluster_node [OF ok])
      then have g: "node_valid n \<and> distinct (sn_Peers n) \<and> set (sn_Peers n) = node_ids kv" using mem good by blast
      then have v: "node_valid (with_peer (sn_Id node) n)" by (simp add: with_peer_def node_valid_def)
      have "b = enc C (with_peer (sn_Id node) n)" using b map_of_added(1) [OF mem n] by (simp add: j)
      then have "proto_Decode C b = Inr (with_peer (sn_Id node) n)" using codec_okD(2) [OF C v] by simp
      then show ?thesis using g n(2) new(1) v j by (auto simp: ids with_peer_def)
    next
      case False
      then have "node_at C kv j = None" by (simp add: node_ids_def node_at_def)
      with b False have "j = sn_Id node \<and> b = enc C node"
        using map_of_added(2) [OF mem] by (auto simp: j node_ids_def split: if_splits)
      then show ?thesis using codec_okD(2) [OF C new(2)] new j by (auto simp: ids)
    qed
  next
    case False
    then have "map_of kv x = Some b"
      using b x by (auto simp: map_of_added_other split: if_splits)
    with ok x False show ?thesis unfolding cluster_ok_def by blast
  qed
qed

lemma nth_peers:
  "ns \<noteq> [] \<Longrightarrow> sn_Peers (new_node i t1 t2 ns req) = sn_Peers (ns ! 0) @ [i]"
  "sn_Peers (new_node i t1 t2 [] req) = [i]"
  by (simp_all add: new_node_def)

lemma AddStorageNode_spec:
  assumes C: "codec_ok node_valid C" and ord: "order_ok ord" and ok: "cluster_ok C (committed m)"
    and new: "i \<notin> node_ids (committed m)" and ip: "ascii (rq_Ip req)"
  obtains node m' where "AddStorageNode spec_store C ord i t1 t2 req m = (Inr node, m')"
    and "sn_Id node = i" and "StorageNode_Addr node = rq_Ip req @ '':'' @ fmt_d (unat (rq_Port req))"
    and "cluster_ok C (committed m')" and "node_ids (committed m') = insert i (node_ids (committed m))"
    and "map_of (committed m') (node_key i) = Some (enc C node)" and "node_valid node"
    and "map_of (committed m') (addr_key (StorageNode_Addr node)) =
      Some (addr_doc \<lparr> na_Addr = StorageNode_Addr node, na_Id = i \<rparr>)"
proof -
  obtain r where r: "rows StorageNode_FormatPrefix (proto_Decode C) (committed m) = Inr r"
    and mem: "\<And>n. n \<in> set (ord r) \<longleftrightarrow> node_at C (committed m) (sn_Id n) = Some n"
    and good: "\<And>n. n \<in> set (ord r) \<Longrightarrow>
      node_valid n \<and> distinct (sn_Peers n) \<and> set (sn_Peers n) = node_ids (committed m)"
    and ids: "sn_Id ` set (ord r) = node_ids (committed m)"
    using list_nodes [OF ok ord] by metis
  define node where "node = new_node i t1 t2 (ord r) req"
  have i: "sn_Id node = i" by (simp add: node_def new_node_def)
  have v: "node_valid node" using ip by (simp add: node_def node_valid_def new_node_def)
  have p: "distinct (sn_Peers node) \<and> set (sn_Peers node) = insert i (node_ids (committed m))"
  proof (cases "ord r = []")
    case True
    then show ?thesis using ids by (simp add: node_def nth_peers)
  next
    case False
    then show ?thesis using good [of "ord r ! 0"] new by (auto simp: node_def nth_peers)
  qed
  have run: "AddStorageNode spec_store C ord i t1 t2 req m =
      (Inr node, m \<lparr> committed := added C node (ord r) (committed m), pending := None \<rparr>)"
    using AddStorageNode_run [OF C r _ ip] good by (simp add: node_def Let_def)
  have "cluster_ok C (added C node (ord r) (committed m))"
    using added_ok [OF C ok mem good] new v p i by blast
  moreover have "node_at C (committed m) i = None" using new by (simp add: node_ids_def node_at_def)
  ultimately show thesis
    using that [OF run i] v i added_ids [OF ok mem, of node] map_of_added(2) [OF mem]
      map_of_added_other [of "addr_key (StorageNode_Addr node)" C node]
    by (simp add: node_def StorageNode_Addr_def new_node_def)
qed

lemma GetStorageNode_id_run:
  "GetStorageNode spec_store C (ById i) m = ((case map_of (committed m) (node_key i) of None \<Rightarrow> Inl ErrNotFound
     | Some b \<Rightarrow> proto_Decode C b), m)"
  by (simp add: GetStorageNode_def run_simps get_run lookup_kv_def split: option.split)

lemma GetStorageNode_addr_run:
  assumes "a \<noteq> []" and "norm_key (addr_key a) = addr_key a"
    and "map_of (committed m) (addr_key a) = Some (addr_doc \<lparr> na_Addr = a, na_Id = i \<rparr>)"
  shows "GetStorageNode spec_store C (ByAddress a) m = GetStorageNode spec_store C (ById i) m"
  using assms by (simp add: GetStorageNode_def run_simps get_run lookup_kv_def)

lemma norm_addr_key: "norm_key (addr_key (StorageNode_Addr n)) = addr_key (StorageNode_Addr n)"
  using norm_key_digits [of "NodeAddr_FormatPrefix @ sn_Ip n @ '':''"] by (simp add: addr_key_def StorageNode_Addr_def)

section \<open>The same on every store\<close>

lemma plain_keys_cluster [simp]: "plain_key (node_key i)" "plain_key (addr_key a)" "plain_key (norm_key (addr_key a))"
  by (simp_all add: plain_key_def node_key_def addr_key_def StorageNode_FormatPrefix_def NodeAddr_FormatPrefix_def
      InoKey_def norm_key_def trim_slash_def)

lemma sim_joinErr [sim_intros]: "sim R p q \<Longrightarrow> sim R (joinErr p) (joinErr q)"
  unfolding joinErr_def by (intro sim_intros)

context kv_refines
begin

lemma sim_ListStorageNodes: "sim (R c) (ListStorageNodes S C ord) (ListStorageNodes spec_store C ord)" if "\<not> c"
  using that unfolding ListStorageNodes_def by (auto intro!: sim_intros sim_DoGetValuesByPrefix)

lemma sim_GetStorageNode: "sim (R False) (GetStorageNode S C req) (GetStorageNode spec_store C req)"
  unfolding GetStorageNode_def
  by (cases req) (auto intro!: sim_intros sim_DoGetValueByKey)

lemma sim_AddStorageNode:
  "sim (R False) (AddStorageNode S C ord i t1 t2 req) (AddStorageNode spec_store C ord i t1 t2 req)"
  unfolding AddStorageNode_def Let_def
  by (auto intro!: sim_intros sim_ListStorageNodes sim_DoInTxn sim_DoSaveInKVPair sim_DoBatchSaveStrictly)

lemma sim_PatchStorageNode: "sim (R False) (PatchStorageNode S C i usage) (PatchStorageNode spec_store C i usage)"
  unfolding PatchStorageNode_def Let_def
  by (auto intro!: sim_intros sim_DoGetValueByKey sim_DoSaveInKVPair)

end

section \<open>Properties\<close>

text \<open>
  C17. Adding a storage node with a new number succeeds. Every node of the cluster then has every node as a peer,
  exactly once, and the new node is found by its number and by its address.
\<close>

theorem add_storage_node:
  assumes "codec_ok node_valid C" and "order_ok ord" and "cluster_ok C (committed m)"
    and "i \<notin> node_ids (committed m)" and "ascii (rq_Ip req)"
  shows "\<exists>node m'. AddStorageNode spec_store C ord i t1 t2 req m = (Inr node, m')
    \<and> cluster_ok C (committed m') \<and> node_ids (committed m') = insert i (node_ids (committed m))
    \<and> GetStorageNode spec_store C (ById i) m' = (Inr node, m')
    \<and> GetStorageNode spec_store C (ByAddress (rq_Ip req @ '':'' @ fmt_d (unat (rq_Port req)))) m' = (Inr node, m')"
proof -
  obtain node m' where a: "AddStorageNode spec_store C ord i t1 t2 req m = (Inr node, m')"
    and n: "sn_Id node = i" "StorageNode_Addr node = rq_Ip req @ '':'' @ fmt_d (unat (rq_Port req))"
    and ok: "cluster_ok C (committed m')" "node_ids (committed m') = insert i (node_ids (committed m))"
    and k: "map_of (committed m') (node_key i) = Some (enc C node)" "node_valid node"
      "map_of (committed m') (addr_key (StorageNode_Addr node)) =
        Some (addr_doc \<lparr> na_Addr = StorageNode_Addr node, na_Id = i \<rparr>)"
    using AddStorageNode_spec [OF assms] by metis
  have i: "GetStorageNode spec_store C (ById i) m' = (Inr node, m')"
    using k codec_okD(2) [OF assms(1) k(2)] by (simp add: GetStorageNode_id_run)
  have "StorageNode_Addr node \<noteq> []" by (simp add: StorageNode_Addr_def)
  then have "GetStorageNode spec_store C (ByAddress (StorageNode_Addr node)) m' = (Inr node, m')"
    using GetStorageNode_addr_run [OF _ norm_addr_key k(3)] i by simp
  then show ?thesis using a ok i n(2) by auto
qed

text \<open>A codec for nodes, for concrete runs.\<close>

definition tree_codec :: "StorageNode codec" where
  "tree_codec = \<lparr>
     proto_Marshal = (\<lambda>n. Inr (JsonDoc (JArr [JNum (uint (sn_Id n)), JStr (sn_Ip n), JNum (uint (sn_Port n)),
       JNum (uint (sn_CreatedAt n)), JNum (uint (sn_UpdatedAt n)), JArr (map (\<lambda>w. JNum (uint w)) (sn_Peers n)),
       JNum (uint (sn_Cap n)), JNum (uint (sn_Usage n)),
       JArr (map (\<lambda>w. JNum (uint w)) (sn_PhysicalVolumeIds n)), JNum (uint (sn_TcpPort n))]))),
     proto_Decode = (\<lambda>b. case b of
       JsonDoc (JArr [JNum a, JStr ip, JNum p, JNum c, JNum u, JArr ps, JNum cap, JNum us, JArr vs, JNum tp]) \<Rightarrow>
         Inr \<lparr> sn_Id = word_of_int a, sn_Ip = ip, sn_Port = word_of_int p, sn_CreatedAt = word_of_int c,
           sn_UpdatedAt = word_of_int u, sn_Peers = map (\<lambda>j. case j of JNum x \<Rightarrow> word_of_int x | _ \<Rightarrow> 0) ps,
           sn_Cap = word_of_int cap, sn_Usage = word_of_int us,
           sn_PhysicalVolumeIds = map (\<lambda>j. case j of JNum x \<Rightarrow> word_of_int x | _ \<Rightarrow> 0) vs, sn_TcpPort = word_of_int tp \<rparr>
     | _ \<Rightarrow> Inl JsonErr) \<rparr>"

lemma tree_codec_ok: "codec_ok valid tree_codec"
  by (auto simp: codec_ok_def tree_codec_def o_def)

lemma order_snd: "order_ok (map snd)"
  by (simp add: order_ok_def)

lemma cluster_ok_empty: "cluster_ok C []"
  by (simp add: cluster_ok_def)

theorem add_storage_node_witness:
  "\<exists>node m'. AddStorageNode spec_store tree_codec (map snd) 7 1 1
      \<lparr> rq_Ip = ''10.0.0.1'', rq_Port = 80, rq_TcpPort = 81, rq_Cap = 100 \<rparr>
      \<lparr> committed = [], pending = None, seqs = \<lambda>_. 0 \<rparr> = (Inr node, m')
    \<and> cluster_ok tree_codec (committed m') \<and> node_ids (committed m') = {7}
    \<and> GetStorageNode spec_store tree_codec (ById 7) m' = (Inr node, m')"
  using add_storage_node [OF tree_codec_ok order_snd,
      of "\<lparr> committed = [], pending = None, seqs = \<lambda>_. 0 \<rparr>" 7
        "\<lparr> rq_Ip = ''10.0.0.1'', rq_Port = 80, rq_TcpPort = 81, rq_Cap = 100 \<rparr>" 1 1]
  by (fastforce simp: cluster_ok_empty node_ids_def ascii_def)

text \<open>Free space as the comparator reads it: below zero for a node that reports more than its capacity.\<close>

definition free_space :: "StorageNode \<Rightarrow> int" where "free_space n = sint (sn_Cap n - sn_Usage n)"

lemma sint_diff_small:
  fixes a b :: u64
  assumes "- (2 ^ 62) \<le> sint a" "sint a < 2 ^ 62" "- (2 ^ 62) \<le> sint b" "sint b < 2 ^ 62"
  shows "sint (a - b) = sint a - sint b"
proof -
  have "sint (a - b) = signed_take_bit 63 (sint a - sint b)"
    using sint_word_ariths(2) [of a b] by simp
  also have "\<dots> = sint a - sint b"
    by (rule signed_take_bit_int_eq_self) (use assms in auto)
  finally show ?thesis .
qed

lemma cmp_free_less:
  assumes "- (2 ^ 62) \<le> free_space a" "free_space a < 2 ^ 62" "- (2 ^ 62) \<le> free_space b" "free_space b < 2 ^ 62"
  shows "cmp_free a b < 0 \<longleftrightarrow> - free_space a < - free_space b"
  using assms sint_diff_small [of "sn_Cap b - sn_Usage b" "sn_Cap a - sn_Usage a"]
  by (simp add: cmp_free_def free_space_def)

lemma sorted_desc_two:
  assumes "sorted (map (\<lambda>n. - f n) xs)" and "distinct xs" and "2 \<le> length xs"
  shows "xs ! 0 \<noteq> xs ! 1 \<and> (f (xs ! 1) :: int) \<le> f (xs ! 0)
    \<and> (\<forall>x \<in> set xs. x \<noteq> xs ! 0 \<longrightarrow> f x \<le> f (xs ! 1))"
proof -
  obtain a b r where "xs = a # b # r" using assms(3) by (metis Suc_le_length_iff numeral_2_eq_2)
  then show ?thesis using assms by auto
qed

text \<open>The sorted listing of the nodes, from which the candidates are taken.\<close>

lemma candidate_run:
  assumes "cluster_ok C (committed m)" and "order_ok ord" and "sorter_ok srt"
    and "\<And>i n. node_at C (committed m) i = Some n \<Longrightarrow> - (2 ^ 62) \<le> free_space n \<and> free_space n < 2 ^ 62"
  obtains xs where "GetCandidateStorage spec_store C ord srt m = (if length xs < 2
      then (Inl (ErrOther ''not enough volumes''), m) else (Inr (xs ! 0, xs ! 1), m))"
    and "\<And>n. n \<in> set xs \<longleftrightarrow> node_at C (committed m) (sn_Id n) = Some n"
    and "sn_Id ` set xs = node_ids (committed m)" and "distinct xs" and "sorted (map (\<lambda>n. - free_space n) xs)"
proof -
  obtain r where r: "rows StorageNode_FormatPrefix (proto_Decode C) (committed m) = Inr r"
    and mem: "\<And>n. n \<in> set (ord r) \<longleftrightarrow> node_at C (committed m) (sn_Id n) = Some n"
    and ids: "sn_Id ` set (ord r) = node_ids (committed m)" and d: "distinct (ord r)"
    using list_nodes [OF assms(1,2)] by metis
  define xs where "xs = SortR srt (ord r) cmp_free"
  have ms: "mset xs = mset (ord r)" using assms(3) by (simp add: xs_def SortR_def sorter_ok_def)
  then have set: "set xs = set (ord r)" and len: "length xs = length (ord r)" and dx: "distinct xs"
    using d mset_eq_setD [OF ms] mset_eq_length [OF ms] mset_eq_imp_distinct_iff [OF ms] by simp_all
  have lt: "\<forall>x \<in> set (ord r). \<forall>y \<in> set (ord r). cmp_free x y < 0 \<longleftrightarrow> - free_space x < - free_space y"
  proof (intro ballI)
    fix x y assume "x \<in> set (ord r)" "y \<in> set (ord r)"
    then have "node_at C (committed m) (sn_Id x) = Some x" "node_at C (committed m) (sn_Id y) = Some y"
      by (simp_all only: mem)
    from assms(4) [OF this(1)] assms(4) [OF this(2)] show "cmp_free x y < 0 \<longleftrightarrow> - free_space x < - free_space y"
      by (intro cmp_free_less) auto
  qed
  have "sorted (map (\<lambda>n. - free_space n) xs)"
    using assms(3) [unfolded sorter_ok_def, rule_format, THEN conjunct2, rule_format,
        of "ord r" "\<lambda>a b. cmp_free a b < 0" "\<lambda>n. - free_space n"] lt
    unfolding xs_def SortR_def by blast
  moreover have "GetCandidateStorage spec_store C ord srt m = (if length xs < 2
      then (Inl (ErrOther ''not enough volumes''), m) else (Inr (xs ! 0, xs ! 1), m))"
    unfolding len by (simp add: GetCandidateStorage_def run_simps ListStorageNodes_run r Let_def xs_def)
  ultimately show thesis using that dx mem ids unfolding set [symmetric] by blast
qed

text \<open>
  C18. With at least two nodes, the candidates for a block are two different stored nodes: the primary has the most
  free space, and the secondary has the most among the others; with fewer nodes the request fails. This holds while
  the free space of every node fits 62 bits, whatever the order of ranging over the map and the sort are.
\<close>

theorem candidate_storage:
  assumes "cluster_ok C (committed m)" and "order_ok ord" and "sorter_ok srt"
    and "\<And>i n. node_at C (committed m) i = Some n \<Longrightarrow> - (2 ^ 62) \<le> free_space n \<and> free_space n < 2 ^ 62"
  shows "if card (node_ids (committed m)) < 2
    then GetCandidateStorage spec_store C ord srt m = (Inl (ErrOther ''not enough volumes''), m)
    else \<exists>p q. GetCandidateStorage spec_store C ord srt m = (Inr (p, q), m) \<and> sn_Id p \<noteq> sn_Id q
      \<and> node_at C (committed m) (sn_Id p) = Some p \<and> node_at C (committed m) (sn_Id q) = Some q
      \<and> free_space q \<le> free_space p
      \<and> (\<forall>n. node_at C (committed m) (sn_Id n) = Some n \<longrightarrow> n \<noteq> p \<longrightarrow> free_space n \<le> free_space q)"
proof -
  obtain xs where run: "GetCandidateStorage spec_store C ord srt m = (if length xs < 2
      then (Inl (ErrOther ''not enough volumes''), m) else (Inr (xs ! 0, xs ! 1), m))"
    and mem: "\<And>n. n \<in> set xs \<longleftrightarrow> node_at C (committed m) (sn_Id n) = Some n"
    and ids: "sn_Id ` set xs = node_ids (committed m)" and d: "distinct xs" and srt: "sorted (map (\<lambda>n. - free_space n) xs)"
    by (rule candidate_run [OF assms(1-3), rotated 1]) (use assms(4) in blast)+
  have inj: "inj_on sn_Id (set xs)"
  proof (rule inj_onI)
    fix x y assume "x \<in> set xs" "y \<in> set xs" "sn_Id x = sn_Id y"
    then show "x = y" using mem [of x] mem [of y] by simp
  qed
  then have card: "card (node_ids (committed m)) = length xs" using d ids by (metis card_image distinct_card)
  show ?thesis
  proof (cases "length xs < 2")
    case False
    then have l: "0 < length xs" "1 < length xs" "2 \<le> length xs" by linarith+
    note two = nth_mem [OF l(1)] nth_mem [OF l(2)]
    note top = sorted_desc_two [OF srt d l(3)]
    have "sn_Id (xs ! 0) \<noteq> sn_Id (xs ! 1)" using inj_onD [OF inj _ two] top by blast
    moreover have "free_space n \<le> free_space (xs ! 1)"
      if "node_at C (committed m) (sn_Id n) = Some n" "n \<noteq> xs ! 0" for n
      using top that unfolding mem [symmetric] by blast
    ultimately show ?thesis
      unfolding card if_not_P [OF False] run using two [unfolded mem] top
      by (intro exI [of _ "xs ! 0"] exI [of _ "xs ! 1"]) auto
  qed (simp add: card run)
qed

definition two_nodes :: spec where
  "two_nodes = \<lparr> committed = [(node_key 1, enc tree_codec (zero_node \<lparr> sn_Id := 1, sn_Cap := 10, sn_Peers := [1, 2] \<rparr>)),
     (node_key 2, enc tree_codec (zero_node \<lparr> sn_Id := 2, sn_Cap := 20, sn_Peers := [1, 2] \<rparr>))],
     pending = None, seqs = \<lambda>_. 0 \<rparr>"

lemma node_key_12: "node_key 1 = ''storage_node/1''" "node_key 2 = ''storage_node/2''"
  by code_simp+

lemma two_nodes_ids: "node_ids (committed two_nodes) = {1, 2}"
  by (auto simp: node_ids_def two_nodes_def split: if_splits)

lemma two_nodes_ok: "cluster_ok tree_codec (committed two_nodes)"
proof -
  have k: "kv_ok (committed two_nodes)"
  proof -
    have "''storage_node/1'' < ''storage_node/2''" by code_simp
    then show ?thesis by (simp add: two_nodes_def kv_ok_def node_key_12)
  qed
  have v: "node_valid (zero_node \<lparr> sn_Id := i, sn_Cap := c, sn_Peers := ps \<rparr>)" for i c ps
    by (simp add: node_valid_def zero_node_def ascii_def)
  show ?thesis unfolding cluster_ok_def two_nodes_ids using k v
    by (auto simp: two_nodes_def codec_okD(2) [OF tree_codec_ok] zero_node_def split: if_splits)
qed

theorem candidate_storage_witness:
  "\<exists>p q. GetCandidateStorage spec_store tree_codec (map snd) isort two_nodes = (Inr (p, q), two_nodes)
     \<and> sn_Id p \<noteq> sn_Id q \<and> free_space q \<le> free_space p"
proof -
  have f: "- (2 ^ 62) \<le> free_space n \<and> free_space n < 2 ^ 62"
    if "node_at tree_codec (committed two_nodes) i = Some n" for i n
  proof -
    have "n = zero_node \<lparr> sn_Id := 1, sn_Cap := 10, sn_Peers := [1, 2] \<rparr> \<or>
        n = zero_node \<lparr> sn_Id := 2, sn_Cap := 20, sn_Peers := [1, 2] \<rparr>"
      using that by (auto simp: node_at_def two_nodes_def codec_okD(2) [OF tree_codec_ok] split: if_splits)
    then show ?thesis by (auto simp: free_space_def zero_node_def)
  qed
  note c = candidate_storage [OF two_nodes_ok order_snd sorter_isort]
  have "\<exists>p q. GetCandidateStorage spec_store tree_codec (map snd) isort two_nodes = (Inr (p, q), two_nodes)
      \<and> sn_Id p \<noteq> sn_Id q \<and> node_at tree_codec (committed two_nodes) (sn_Id p) = Some p
      \<and> node_at tree_codec (committed two_nodes) (sn_Id q) = Some q \<and> free_space q \<le> free_space p
      \<and> (\<forall>n. node_at tree_codec (committed two_nodes) (sn_Id n) = Some n \<longrightarrow> n \<noteq> p \<longrightarrow> free_space n \<le> free_space q)"
    using c f by (auto simp: two_nodes_ids)
  then show ?thesis by blast
qed

end
