(* ===== verification/Meta_Volume.thy ===== *)
theory Meta_Volume
  imports Meta_Cluster
begin

text \<open>
  \<^verbatim>\<open>src/pkg/meta/storage_meta/volume/volume.go\<close>: the records of virtual and physical volumes, and binding a
  physical volume to a virtual one. A threshold is kept as the 64 bits of its \<^verbatim>\<open>float64\<close>, since no arithmetic is
  done on it here.
\<close>

section \<open>Messages and keys\<close>

record VirtualVolume =
  vv_Id :: u64
  vv_CapByte :: u64
  vv_UsageByte :: u64
  vv_CreatedAt :: u64
  vv_PhysicalVolumeIds :: "u64 list"
  vv_ReadOnly :: bool
  vv_MigrateLocked :: bool

record PhysicalVolume =
  pv_Id :: u64
  pv_CapByte :: u64
  pv_UsageByte :: u64
  pv_CreatedAt :: u64
  pv_VirtualVolumeId :: u64
  pv_StorageNodeId :: u64
  pv_Lock :: bool
  pv_Prefix :: string
  pv_Threhold :: u64
  pv_Type :: u32

definition zero_vv :: VirtualVolume where
  "zero_vv = \<lparr> vv_Id = 0, vv_CapByte = 0, vv_UsageByte = 0, vv_CreatedAt = 0, vv_PhysicalVolumeIds = [],
     vv_ReadOnly = False, vv_MigrateLocked = False \<rparr>"

definition zero_pv :: PhysicalVolume where
  "zero_pv = \<lparr> pv_Id = 0, pv_CapByte = 0, pv_UsageByte = 0, pv_CreatedAt = 0, pv_VirtualVolumeId = 0,
     pv_StorageNodeId = 0, pv_Lock = False, pv_Prefix = [], pv_Threhold = 0, pv_Type = 0 \<rparr>"

definition VirtualVolume_FormatPrefix :: string where "VirtualVolume_FormatPrefix = ''virtual_volume/''"

definition VirtualVolume_FormatKey :: "VirtualVolume \<Rightarrow> string" where
  "VirtualVolume_FormatKey v = VirtualVolume_FormatPrefix @ fmt_d (unat (vv_Id v))"

definition VirtualVolume_Serialize :: "VirtualVolume codec \<Rightarrow> VirtualVolume \<Rightarrow> error + blob" where
  "VirtualVolume_Serialize V v = proto_Marshal V v"

text \<open>The target is declared without a message: \<^verbatim>\<open>var out VirtualVolume\<close>.\<close>

definition VirtualVolume_Deserialize :: "VirtualVolume codec \<Rightarrow> blob \<Rightarrow> error + VirtualVolume" where
  "VirtualVolume_Deserialize V b = Unmarshal V zero_vv None b"

definition PhysicalVolume_FormatPrefix :: string where "PhysicalVolume_FormatPrefix = ''physical_volume/''"

definition PhysicalVolume_FormatKey :: "PhysicalVolume \<Rightarrow> string" where
  "PhysicalVolume_FormatKey p = PhysicalVolume_FormatPrefix @ fmt_d (unat (pv_Id p))"

definition PhysicalVolume_Serialize :: "PhysicalVolume codec \<Rightarrow> PhysicalVolume \<Rightarrow> error + blob" where
  "PhysicalVolume_Serialize P p = proto_Marshal P p"

definition PhysicalVolume_Deserialize :: "PhysicalVolume codec \<Rightarrow> blob \<Rightarrow> error + PhysicalVolume" where
  "PhysicalVolume_Deserialize P b = Unmarshal P zero_pv (Some zero_pv) b"

definition vv_ser :: "VirtualVolume codec \<Rightarrow> VirtualVolume \<Rightarrow> VirtualVolume Serializer" where
  "vv_ser V v = \<lparr> FormatKey = VirtualVolume_FormatKey v, FormatPrefix = VirtualVolume_FormatPrefix,
     Serialize = VirtualVolume_Serialize V v, Deserialize = VirtualVolume_Deserialize V,
     BeforeSerialize = None, AfterSerialize = None, BeforeDeserialize = None, AfterDeserialize = None \<rparr>"

definition pv_ser :: "PhysicalVolume codec \<Rightarrow> PhysicalVolume \<Rightarrow> PhysicalVolume Serializer" where
  "pv_ser P p = \<lparr> FormatKey = PhysicalVolume_FormatKey p, FormatPrefix = PhysicalVolume_FormatPrefix,
     Serialize = PhysicalVolume_Serialize P p, Deserialize = PhysicalVolume_Deserialize P,
     BeforeSerialize = None, AfterSerialize = None, BeforeDeserialize = None, AfterDeserialize = None \<rparr>"

definition lossy :: "'a Serializer \<Rightarrow> LossySerializer" where
  "lossy z = \<lparr> lossy_Serialize = Serialize z, lossy_FormatKey = FormatKey z \<rparr>"

section \<open>The manager\<close>

text \<open>The codecs of the three messages.\<close>

record codecs =
  cN :: "StorageNode codec"
  cV :: "VirtualVolume codec"
  cP :: "PhysicalVolume codec"

text \<open>A listing whose prefix is reported missing is empty.\<close>

definition orEmpty :: "('a list, 's) gom \<Rightarrow> ('a list, 's) gom" where
  "orEmpty p = tryE p (\<lambda>r. case r of Inl e \<Rightarrow> if errors_Is e ErrNotFound then returnE [] else throwE e | Inr x \<Rightarrow> returnE x)"

definition ListVirtualVolumes :: "'s Store \<Rightarrow> codecs \<Rightarrow> VirtualVolume order \<Rightarrow> (VirtualVolume list, 's) gom" where
  "ListVirtualVolumes S K ord = bindE (orEmpty (DoGetValuesByPrefix S False (Some (vv_ser (cV K) zero_vv)))) (\<lambda>vols. returnE (ord vols))"

definition ListPhysicalVolumes :: "'s Store \<Rightarrow> codecs \<Rightarrow> PhysicalVolume order \<Rightarrow> (PhysicalVolume list, 's) gom" where
  "ListPhysicalVolumes S K ord = bindE (orEmpty (DoGetValuesByPrefix S False (Some (pv_ser (cP K) zero_pv)))) (\<lambda>vols. returnE (ord vols))"

definition ListPhysicalVolumesInNode :: "'s Store \<Rightarrow> codecs \<Rightarrow> PhysicalVolume order \<Rightarrow> u64 \<Rightarrow> (PhysicalVolume list, 's) gom" where
  "ListPhysicalVolumesInNode S K ord i =
     bindE (joinErr (GetStorageNode S (cN K) (ById i))) (\<lambda>node.
     bindE (joinErr (DoGetValuesByPrefix S False (Some (pv_ser (cP K) (zero_pv \<lparr> pv_StorageNodeId := i \<rparr>))))) (\<lambda>vols.
     returnE (filter (\<lambda>item. pv_StorageNodeId item = sn_Id node) (ord vols))))"

definition GetVirtualVolume :: "'s Store \<Rightarrow> codecs \<Rightarrow> u64 \<Rightarrow> (VirtualVolume, 's) gom" where
  "GetVirtualVolume S K i = DoGetValueByKey S False (Some (vv_ser (cV K) (zero_vv \<lparr> vv_Id := i \<rparr>)))"

text \<open>The number is put into the field of the virtual volume.\<close>

definition GetPhysicalVolume :: "'s Store \<Rightarrow> codecs \<Rightarrow> u64 \<Rightarrow> (PhysicalVolume, 's) gom" where
  "GetPhysicalVolume S K i = DoGetValueByKey S False (Some (pv_ser (cP K) (zero_pv \<lparr> pv_VirtualVolumeId := i \<rparr>)))"

definition CreateVirtualVolume :: "'s Store \<Rightarrow> codecs \<Rightarrow> u64 \<Rightarrow> u64 \<Rightarrow> u64 \<Rightarrow> (VirtualVolume, 's) gom" where
  "CreateVirtualVolume S K i now capInByte =
     (let vol = zero_vv \<lparr> vv_Id := i, vv_CapByte := capInByte, vv_CreatedAt := now \<rparr> in
     bindE (DoSaveInKVPair S False (Some (vv_ser (cV K) vol))) (\<lambda>_. returnE vol))"

record volume_req =
  vr_Id :: u64
  vr_StorageNodeId :: u64
  vr_Type :: u32
  vr_Prefix :: string
  vr_Quota :: "u64 option"
  vr_Threhold :: "u64 option"

text \<open>\<^verbatim>\<open>0.75\<close> is the bit pattern \<^verbatim>\<open>0x3FE8000000000000\<close>.\<close>

definition threhold_default :: u64 where "threhold_default = push_bit 51 0x7FD"

definition new_volume :: "u64 \<Rightarrow> u64 \<Rightarrow> volume_req \<Rightarrow> u64 \<Rightarrow> u64 \<Rightarrow> PhysicalVolume" where
  "new_volume i now req quota threhold = zero_pv \<lparr> pv_Id := i, pv_CreatedAt := now,
     pv_StorageNodeId := vr_StorageNodeId req, pv_Prefix := vr_Prefix req, pv_Type := vr_Type req,
     pv_CapByte := quota, pv_UsageByte := 0, pv_Threhold := threhold \<rparr>"

definition add_volume :: "StorageNode \<Rightarrow> PhysicalVolume \<Rightarrow> StorageNode" where
  "add_volume node vol = node \<lparr> sn_PhysicalVolumeIds := sn_PhysicalVolumeIds node @ [pv_Id vol],
     sn_Cap := sn_Cap node + pv_CapByte vol \<rparr>"

definition CreatePhysicalVolume :: "'s Store \<Rightarrow> codecs \<Rightarrow> u64 \<Rightarrow> u64 \<Rightarrow> volume_req \<Rightarrow> (PhysicalVolume, 's) gom" where
  "CreatePhysicalVolume S K i now req =
     bindE (joinErr (GetStorageNode S (cN K) (ById (vr_StorageNodeId req)))) (\<lambda>node.
     let vol = new_volume i now req (case vr_Quota req of None \<Rightarrow> 40 * 1024 * 1024 * 1024 | Some q \<Rightarrow> q)
                 (case vr_Threhold req of None \<Rightarrow> threhold_default | Some t \<Rightarrow> t) in
     bindE (joinErr (DoInTxn S (\<lambda>c.
       DoBatchSaveAnyStrictly S c [lossy (pv_ser (cP K) vol), lossy (node_ser (cN K) (add_volume node vol))]))) (\<lambda>_.
     returnE vol))"

text \<open>
  \<^verbatim>\<open>vols, _ := ...\<close> for printing and \<^verbatim>\<open>vol, _ := m.GetPhysicalVolume(...)\<close>: errors are dropped, and a nil volume goes
  on. The result is None where the code returns \<^verbatim>\<open>nil, nil\<close>. A missing quota or threshold is a nil pointer that is
  read.
\<close>

definition PatchPhysicalVolume :: "'s Store \<Rightarrow> codecs \<Rightarrow> PhysicalVolume order \<Rightarrow> u64 \<Rightarrow> volume_req \<Rightarrow> (PhysicalVolume option, 's) gom" where
  "PatchPhysicalVolume S K ord now req =
     bindE (GetStorageNode S (cN K) (ById (vr_StorageNodeId req))) (\<lambda>node.
     tryE (ListPhysicalVolumesInNode S K ord (vr_StorageNodeId req)) (\<lambda>_.
     tryE (GetPhysicalVolume S K (vr_Id req)) (\<lambda>found.
     case found of Inr _ \<Rightarrow> returnE None
     | Inl _ \<Rightarrow> (case (vr_Quota req, vr_Threhold req) of
         (Some q, Some t) \<Rightarrow>
           (let vol = new_volume (vr_Id req) now req q t in
           bindE (DoInTxn S (\<lambda>c.
             DoBatchSaveAnyStrictly S c [lossy (pv_ser (cP K) vol), lossy (node_ser (cN K) (add_volume node vol))])) (\<lambda>_.
           tryE (ListPhysicalVolumesInNode S K ord (vr_StorageNodeId req)) (\<lambda>_. returnE (Some vol))))
       | _ \<Rightarrow> throwE Panic))))"

definition BindPhysicalVolume :: "'s Store \<Rightarrow> codecs \<Rightarrow> u64 \<Rightarrow> u64 \<Rightarrow> (unit, 's) gom" where
  "BindPhysicalVolume S K v p =
     bindE (joinErr (GetVirtualVolume S K v)) (\<lambda>vVol.
     if p \<in> set (vv_PhysicalVolumeIds vVol) then throwE (Wrapped (ErrOther ''already bound''))
     else bindE (joinErr (GetPhysicalVolume S K p)) (\<lambda>pVol.
     if pv_VirtualVolumeId pVol \<noteq> 0 then throwE (Wrapped (ErrOther ''already bound''))
     else joinErr (DoBatchSaveAnyStrictly S False
       [lossy (vv_ser (cV K) (vVol \<lparr> vv_PhysicalVolumeIds := vv_PhysicalVolumeIds vVol @ [p] \<rparr>)),
        lossy (pv_ser (cP K) (pVol \<lparr> pv_VirtualVolumeId := v \<rparr>))])))"

text \<open>The result of \<^verbatim>\<open>lo.Filter\<close> is dropped, so the virtual volume is saved as it was read.\<close>

definition UnbindPhysicalVolume :: "'s Store \<Rightarrow> codecs \<Rightarrow> u64 \<Rightarrow> u64 \<Rightarrow> (unit, 's) gom" where
  "UnbindPhysicalVolume S K v p =
     bindE (joinErr (GetVirtualVolume S K v)) (\<lambda>vVol.
     if p \<notin> set (vv_PhysicalVolumeIds vVol) then throwE (Wrapped (ErrOther ''not bound''))
     else bindE (joinErr (GetPhysicalVolume S K p)) (\<lambda>pVol.
     if pv_VirtualVolumeId pVol \<noteq> v then throwE (Wrapped (ErrOther ''not bound''))
     else joinErr (DoBatchSaveAnyStrictly S False
       [lossy (vv_ser (cV K) vVol), lossy (pv_ser (cP K) (pVol \<lparr> pv_VirtualVolumeId := 0 \<rparr>))])))"

section \<open>Running the operations\<close>

definition pv_key :: "u64 \<Rightarrow> string" where "pv_key i = PhysicalVolume_FormatPrefix @ fmt_d (unat i)"

definition vv_key :: "u64 \<Rightarrow> string" where "vv_key i = VirtualVolume_FormatPrefix @ fmt_d (unat i)"

definition pv_valid :: "PhysicalVolume \<Rightarrow> bool" where "pv_valid p \<longleftrightarrow> ascii (pv_Prefix p)"

lemma key_simps_volume [simp]:
  "pv_key i = pv_key j \<longleftrightarrow> i = j" "pv_key i \<noteq> node_key j" "node_key j \<noteq> pv_key i"
  "norm_key (pv_key i) = pv_key i" "norm_key (vv_key i) = vv_key i"
  by (simp_all add: pv_key_def vv_key_def node_key_def PhysicalVolume_FormatPrefix_def VirtualVolume_FormatPrefix_def
      StorageNode_FormatPrefix_def unat_inject norm_key_digits [of "''physical_volume/''", simplified]
      norm_key_digits [of "''virtual_volume/''", simplified])

lemma in_bucket_pv: "in_bucket PhysicalVolume_FormatPrefix x \<longleftrightarrow> prefix PhysicalVolume_FormatPrefix x"
  using in_bucket_slash [of "''physical_volume''"] by (simp add: PhysicalVolume_FormatPrefix_def)

lemma in_bucket_pv_simps [simp]:
  "in_bucket PhysicalVolume_FormatPrefix (pv_key i)" "\<not> in_bucket PhysicalVolume_FormatPrefix (node_key j)"
  unfolding in_bucket_pv
  by (simp_all add: pv_key_def node_key_def StorageNode_FormatPrefix_def PhysicalVolume_FormatPrefix_def)

lemma pv_ser_simps [simp]:
  "no_hooks (pv_ser P p)" "FormatKey (pv_ser P p) = pv_key (pv_Id p)"
  "FormatPrefix (pv_ser P p) = PhysicalVolume_FormatPrefix" "Serialize (pv_ser P p) = proto_Marshal P p"
  "Deserialize (pv_ser P p) = proto_Decode P"
  by (simp_all add: pv_ser_def no_hooks_def pv_key_def PhysicalVolume_FormatKey_def PhysicalVolume_FormatPrefix_def
      PhysicalVolume_Serialize_def PhysicalVolume_Deserialize_def fun_eq_iff)

lemma vv_ser_simps [simp]:
  "no_hooks (vv_ser V v)" "FormatKey (vv_ser V v) = vv_key (vv_Id v)"
  "Serialize (vv_ser V v) = proto_Marshal V v" "Deserialize (vv_ser V v) b = Inl Panic"
  by (simp_all add: vv_ser_def no_hooks_def vv_key_def VirtualVolume_FormatKey_def VirtualVolume_FormatPrefix_def
      VirtualVolume_Serialize_def VirtualVolume_Deserialize_def)

lemma zero_simps [simp]:
  "pv_Id (zero_pv \<lparr> pv_VirtualVolumeId := i \<rparr>) = 0" "vv_Id (zero_vv \<lparr> vv_Id := i \<rparr>) = i"
  by (simp_all add: zero_pv_def)

lemma GetPhysicalVolume_run:
  "GetPhysicalVolume spec_store K i m =
     ((case map_of (committed m) (pv_key 0) of None \<Rightarrow> Inl ErrNotFound | Some b \<Rightarrow> proto_Decode (cP K) b), m)"
  by (simp add: GetPhysicalVolume_def run_simps get_run lookup_kv_def split: option.split)

lemma GetVirtualVolume_run:
  "GetVirtualVolume spec_store K i m =
     ((case map_of (committed m) (vv_key i) of None \<Rightarrow> Inl ErrNotFound | Some b \<Rightarrow> Inl Panic), m)"
  by (simp add: GetVirtualVolume_def run_simps get_run lookup_kv_def split: option.split)

text \<open>What both ways of making a volume write.\<close>

definition with_volume :: "codecs \<Rightarrow> PhysicalVolume \<Rightarrow> StorageNode \<Rightarrow> kv \<Rightarrow> kv" where
  "with_volume K vol node kv = kv_ins (node_key (sn_Id node)) (enc (cN K) (add_volume node vol))
     (kv_ins (pv_key (pv_Id vol)) (enc (cP K) vol) kv)"

lemma save_volume_run:
  assumes "codec_ok node_valid (cN K)" and "codec_ok pv_valid (cP K)" and "node_valid node" and "pv_valid vol"
  shows "DoInTxn spec_store (\<lambda>c. DoBatchSaveAnyStrictly spec_store c
      [lossy (pv_ser (cP K) vol), lossy (node_ser (cN K) (add_volume node vol))]) m =
     (Inr (), m \<lparr> committed := with_volume K vol node (committed m), pending := None \<rparr>)"
proof -
  have "node_valid (add_volume node vol)" using assms(3) by (simp add: node_valid_def add_volume_def)
  then show ?thesis
    using codec_okD(1) [OF assms(1)] codec_okD(1) [OF assms(2,4)]
    by (simp add: run_simps DoBatchSaveAnyStrictly_lift lossy_entry_def lossy_def with_volume_def add_volume_def o_def)
qed

lemma new_volume_simps [simp]:
  "pv_Id (new_volume i now req q t) = i" "pv_StorageNodeId (new_volume i now req q t) = vr_StorageNodeId req"
  "pv_valid (new_volume i now req q t) = ascii (vr_Prefix req)" "pv_CapByte (new_volume i now req q t) = q"
  by (simp_all add: new_volume_def pv_valid_def)

lemma rows_no_panic:
  assumes "\<And>b. D b \<noteq> Inl Panic"
  shows "rows pre D kv \<noteq> Inl Panic"
proof -
  have "sum_map (\<lambda>(k, b). mapR (Pair k) (D b)) xs \<noteq> Inl Panic" for xs
    using assms by (induction xs) (auto simp: mapR_def split: sum.splits)
  then show ?thesis by (simp add: rows_def)
qed

lemma ListPhysicalVolumesInNode_safe:
  assumes "\<And>b. proto_Decode (cN K) b \<noteq> Inl Panic" and "\<And>b. proto_Decode (cP K) b \<noteq> Inl Panic"
  obtains r where "ListPhysicalVolumesInNode spec_store K ord i m = (r, m)" and "r \<noteq> Inl Panic"
proof -
  have "\<exists>r. ListPhysicalVolumesInNode spec_store K ord i m = (r, m) \<and> r \<noteq> Inl Panic"
    using assms(1) rows_no_panic [of "proto_Decode (cP K)" PhysicalVolume_FormatPrefix "committed m", OF assms(2)]
    by (auto simp: ListPhysicalVolumesInNode_def run_simps GetStorageNode_id_run rows_run split: option.split sum.split)
  then show thesis using that by blast
qed

lemma Patch_run:
  assumes "codec_ok node_valid (cN K)" and "codec_ok pv_valid (cP K)" and "ascii (vr_Prefix req)"
    and "\<And>b. proto_Decode (cN K) b \<noteq> Inl Panic" and "\<And>b. proto_Decode (cP K) b \<noteq> Inl Panic"
    and node: "node_at (cN K) (committed m) (vr_StorageNodeId req) = Some node" "node_valid node"
    and "vr_Quota req = Some q" and "vr_Threhold req = Some t" and "map_of (committed m) (pv_key 0) = None"
  shows "PatchPhysicalVolume spec_store K ord now req m =
     (let vol = new_volume (vr_Id req) now req q t in
      (Inr (Some vol), m \<lparr> committed := with_volume K vol node (committed m), pending := None \<rparr>))"
proof -
  let ?vol = "new_volume (vr_Id req) now req q t"
  let ?m = "m \<lparr> committed := with_volume K ?vol node (committed m), pending := None \<rparr>"
  have g: "GetStorageNode spec_store (cN K) (ById (vr_StorageNodeId req)) m = (Inr node, m)"
    using node(1) by (auto simp: GetStorageNode_id_run node_at_def split: option.splits sum.splits)
  obtain r where r: "ListPhysicalVolumesInNode spec_store K ord (vr_StorageNodeId req) m = (r, m)" "r \<noteq> Inl Panic"
    using ListPhysicalVolumesInNode_safe assms(4,5) by blast
  obtain r' where r': "ListPhysicalVolumesInNode spec_store K ord (vr_StorageNodeId req) ?m = (r', ?m)" "r' \<noteq> Inl Panic"
    using ListPhysicalVolumesInNode_safe assms(4,5) by blast
  have sv: "DoInTxn spec_store (\<lambda>c. DoBatchSaveAnyStrictly spec_store c
      [lossy (pv_ser (cP K) ?vol), lossy (node_ser (cN K) (add_volume node ?vol))]) m = (Inr (), ?m)"
    using save_volume_run [OF assms(1,2) node(2), of ?vol m] assms(3) by simp
  show ?thesis
    unfolding PatchPhysicalVolume_def bindE_run tryE_run Let_def
    using g r r' sv assms(8,9,10) by (simp add: GetPhysicalVolume_run bindE_run tryE_run returnE_run Let_def)
qed

text \<open>Codecs for concrete runs, and a store with one node.\<close>

definition pv_codec :: "PhysicalVolume codec" where
  "pv_codec = \<lparr>
     proto_Marshal = (\<lambda>p. Inr (JsonDoc (JArr [JNum (uint (pv_Id p)), JNum (uint (pv_CapByte p)), JNum (uint (pv_UsageByte p)),
       JNum (uint (pv_CreatedAt p)), JNum (uint (pv_VirtualVolumeId p)), JNum (uint (pv_StorageNodeId p)), JBool (pv_Lock p),
       JStr (pv_Prefix p), JNum (uint (pv_Threhold p)), JNum (uint (pv_Type p))]))),
     proto_Decode = (\<lambda>b. case b of
       JsonDoc (JArr [JNum i, JNum c, JNum u, JNum a, JNum v, JNum s, JBool l, JStr pre, JNum th, JNum ty]) \<Rightarrow>
         Inr \<lparr> pv_Id = word_of_int i, pv_CapByte = word_of_int c, pv_UsageByte = word_of_int u, pv_CreatedAt = word_of_int a,
           pv_VirtualVolumeId = word_of_int v, pv_StorageNodeId = word_of_int s, pv_Lock = l, pv_Prefix = pre,
           pv_Threhold = word_of_int th, pv_Type = word_of_int ty \<rparr>
     | _ \<Rightarrow> Inl JsonErr) \<rparr>"

definition tree_codecs :: codecs where
  "tree_codecs = \<lparr> cN = tree_codec, cV = \<lparr> proto_Marshal = \<lambda>_. Inl JsonErr, proto_Decode = \<lambda>_. Inl JsonErr \<rparr>, cP = pv_codec \<rparr>"

lemma tree_codecs_ok: "codec_ok node_valid (cN tree_codecs)" "codec_ok pv_valid (cP tree_codecs)"
  by (auto simp: codec_ok_def tree_codecs_def tree_codec_def pv_codec_def o_def)

lemma tree_codecs_safe: "proto_Decode (cN tree_codecs) b \<noteq> Inl Panic" "proto_Decode (cP tree_codecs) b \<noteq> Inl Panic"
  by (auto simp: tree_codecs_def tree_codec_def pv_codec_def split: blob.split json.split list.split)

definition one_node :: spec where
  "one_node = \<lparr> committed = [(node_key 1, enc tree_codec (zero_node \<lparr> sn_Id := 1 \<rparr>))], pending = None, seqs = \<lambda>_. 0 \<rparr>"

definition volume_7 :: volume_req where
  "volume_7 = \<lparr> vr_Id = 7, vr_StorageNodeId = 1, vr_Type = 1, vr_Prefix = ''/data'', vr_Quota = Some 5, vr_Threhold = Some 0 \<rparr>"

lemma one_node_simps:
  "node_at (cN tree_codecs) (committed one_node) (vr_StorageNodeId volume_7) = Some (zero_node \<lparr> sn_Id := 1 \<rparr>)"
  "node_valid (zero_node \<lparr> sn_Id := 1 \<rparr>)" "sn_Id (zero_node \<lparr> sn_Id := 1 \<rparr>) = vr_StorageNodeId volume_7"
  "ascii (vr_Prefix volume_7)" "vr_Quota volume_7 = Some 5" "vr_Threhold volume_7 = Some 0"
  "map_of (committed one_node) (pv_key 0) = None" "vr_Id volume_7 \<noteq> 0"
  by (simp_all add: one_node_def volume_7_def node_at_def tree_codecs_def codec_okD(2) [OF tree_codec_ok] node_valid_def
      zero_node_def ascii_def)

section \<open>Properties\<close>



text \<open>
  No physical volume can be bound to a virtual one: whatever the store holds, the request ends with "not found" or
  with a panic, and changes nothing. Reading back a stored virtual volume decodes into a message that was not
  allocated.
\<close>

theorem bind_never_succeeds:
  "BindPhysicalVolume spec_store K v p m =
     ((if map_of (committed m) (vv_key v) = None then Inl (Wrapped ErrNotFound) else Inl Panic), m)"
  by (auto simp: BindPhysicalVolume_def run_simps GetVirtualVolume_run split: option.split)

text \<open>
  A physical volume is not found by its number: the lookup always reads the key of volume 0. So patching a volume
  that already exists adds its number and its capacity to the node once more.
\<close>

theorem patch_adds_again:
  assumes "codec_ok node_valid (cN K)" and "codec_ok pv_valid (cP K)" and "ascii (vr_Prefix req)"
    and "\<And>b. proto_Decode (cN K) b \<noteq> Inl Panic" and "\<And>b. proto_Decode (cP K) b \<noteq> Inl Panic"
    and node: "node_at (cN K) (committed m) (vr_StorageNodeId req) = Some node" "node_valid node"
      "sn_Id node = vr_StorageNodeId req"
    and "vr_Quota req = Some q" and "vr_Threhold req = Some t"
    and new: "map_of (committed m) (pv_key 0) = None" "vr_Id req \<noteq> 0"
  shows "\<exists>v1 v2 m1 m2. PatchPhysicalVolume spec_store K ord now req m = (Inr (Some v1), m1)
    \<and> PatchPhysicalVolume spec_store K ord now req m1 = (Inr (Some v2), m2) \<and> pv_Id v1 = pv_Id v2
    \<and> GetStorageNode spec_store (cN K) (ById (vr_StorageNodeId req)) m2 =
        (Inr (node \<lparr> sn_PhysicalVolumeIds := sn_PhysicalVolumeIds node @ [vr_Id req, vr_Id req],
                    sn_Cap := sn_Cap node + q + q \<rparr>), m2)"
proof -
  let ?v = "new_volume (vr_Id req) now req q t"
  let ?n = "add_volume node ?v"
  define m1 where "m1 = m \<lparr> committed := with_volume K ?v node (committed m), pending := None \<rparr>"
  define m2 where "m2 = m1 \<lparr> committed := with_volume K ?v ?n (committed m1), pending := None \<rparr>"
  have nv: "node_valid ?n" "sn_Id ?n = vr_StorageNodeId req" "node_valid (add_volume ?n ?v)"
    using node by (simp_all add: node_valid_def add_volume_def)
  have 1: "PatchPhysicalVolume spec_store K ord now req m = (Inr (Some ?v), m1)"
    using Patch_run [OF assms(1-5) node(1,2) assms(9,10) new(1)] by (simp add: m1_def Let_def)
  have at: "node_at (cN K) (committed m1) (vr_StorageNodeId req) = Some ?n"
    using codec_okD(2) [OF assms(1) nv(1)] node(3) by (simp add: m1_def with_volume_def node_at_def)
  have "map_of (committed m1) (pv_key 0) = None" using new by (simp add: m1_def with_volume_def)
  then have 2: "PatchPhysicalVolume spec_store K ord now req m1 = (Inr (Some ?v), m2)"
    using Patch_run [OF assms(1-5) at nv(1) assms(9,10)] by (simp add: m2_def Let_def)
  have "GetStorageNode spec_store (cN K) (ById (vr_StorageNodeId req)) m2 = (Inr (add_volume ?n ?v), m2)"
    using codec_okD(2) [OF assms(1) nv(3)] nv(2) by (simp add: GetStorageNode_id_run m2_def with_volume_def)
  moreover have "add_volume ?n ?v = node \<lparr> sn_PhysicalVolumeIds := sn_PhysicalVolumeIds node @ [vr_Id req, vr_Id req],
      sn_Cap := sn_Cap node + q + q \<rparr>"
    by (simp add: add_volume_def)
  ultimately show ?thesis using 1 2 by auto
qed

theorem patch_adds_again_witness:
  "\<exists>m1 m2 v1 v2. PatchPhysicalVolume spec_store tree_codecs (map snd) 0 volume_7 one_node = (Inr (Some v1), m1)
    \<and> PatchPhysicalVolume spec_store tree_codecs (map snd) 0 volume_7 m1 = (Inr (Some v2), m2)
    \<and> GetStorageNode spec_store (cN tree_codecs) (ById 1) m2 =
        (Inr (zero_node \<lparr> sn_Id := 1, sn_PhysicalVolumeIds := [7, 7], sn_Cap := 10 \<rparr>), m2)"
  using patch_adds_again [OF tree_codecs_ok one_node_simps(4) tree_codecs_safe one_node_simps(1-3,5-8), of "map snd" 0]
  by (fastforce simp: volume_7_def zero_node_def)

end
