(* ===== verification/Meta_Blocks.thy ===== *)
theory Meta_Blocks
  imports Meta_Volume
begin

text \<open>
  \<^verbatim>\<open>src/pkg/meta/storage_meta/block_map/block_map.go\<close>, the requests on it of \<^verbatim>\<open>storage_meta/service.go\<close>, and
  \<^verbatim>\<open>storage_meta/heartbeat\<close>. The blocks of a file are records under a prefix with the number of the inode; an update
  first moves the old record to the history. The main result: an update changes the block map of the file at one
  index.
\<close>

section \<open>Records\<close>

record pb_BlockMeta =
  bm_Ino :: u64
  bm_VirtualVolumeId :: u64
  bm_BlockIndexInFile :: u64
  bm_PrimaryVolumeId :: u64
  bm_SecondaryVolumeIds :: "u64 list"
  bm_TxnId :: u64
  bm_Len :: u64
  bm_Crc32 :: u32
  bm_CreatedAt :: u64
  bm_CloudAddr :: "string option"
  bm_BlockId :: string

definition zero_bm :: pb_BlockMeta where
  "zero_bm = \<lparr> bm_Ino = 0, bm_VirtualVolumeId = 0, bm_BlockIndexInFile = 0, bm_PrimaryVolumeId = 0,
     bm_SecondaryVolumeIds = [], bm_TxnId = 0, bm_Len = 0, bm_Crc32 = 0, bm_CreatedAt = 0, bm_CloudAddr = None, bm_BlockId = [] \<rparr>"

text \<open>\<^verbatim>\<open>BlockMeta\<close> and \<^verbatim>\<open>BlockMetaHistory\<close> embed a pointer to the message.\<close>

type_synonym BlockMeta = "pb_BlockMeta option"

record BlockMetaHistory =
  hm_BlockMeta :: BlockMeta
  hm_Timestamp :: int

section \<open>JSON\<close>

definition omit_list :: "string \<Rightarrow> u64 list \<Rightarrow> (string \<times> json) list" where
  "omit_list k ws = (if ws = [] then [] else [(k, JArr (map (\<lambda>w. JNum (uint w)) ws))])"

definition omit_ptr :: "string \<Rightarrow> string option \<Rightarrow> (string \<times> json) list" where
  "omit_ptr k x = (if x = None then [] else [(k, JStr (the x))])"

definition bm_fields :: "pb_BlockMeta \<Rightarrow> (string \<times> json) list" where
  "bm_fields p =
     omit_num ''ino'' (uint (bm_Ino p)) @ omit_num ''virtual_volume_id'' (uint (bm_VirtualVolumeId p))
     @ omit_num ''block_index_in_file'' (uint (bm_BlockIndexInFile p))
     @ omit_num ''primary_volume_id'' (uint (bm_PrimaryVolumeId p))
     @ omit_list ''secondary_volume_ids'' (bm_SecondaryVolumeIds p)
     @ omit_num ''txn_id'' (uint (bm_TxnId p)) @ omit_num ''len'' (uint (bm_Len p))
     @ omit_num ''crc32'' (uint (bm_Crc32 p)) @ omit_num ''created_at'' (uint (bm_CreatedAt p))
     @ omit_ptr ''cloud_addr'' (bm_CloudAddr p)
     @ omit_str ''block_id'' (bm_BlockId p)"

definition bm_doc_fields :: "BlockMeta \<Rightarrow> (string \<times> json) list" where
  "bm_doc_fields b = (case b of None \<Rightarrow> [] | Some p \<Rightarrow> bm_fields p)"

definition BlockMeta_Serialize :: "BlockMeta \<Rightarrow> error + blob" where
  "BlockMeta_Serialize b = Inr (JsonDoc (JObj (bm_doc_fields b)))"

definition BlockMetaHistory_Serialize :: "BlockMetaHistory \<Rightarrow> error + blob" where
  "BlockMetaHistory_Serialize h =
     Inr (JsonDoc (JObj (bm_doc_fields (hm_BlockMeta h) @ [(''Timestamp'', JNum (hm_Timestamp h))])))"

text \<open>A slice is decoded element by element, a \<^verbatim>\<open>null\<close> element keeping what was there; \<^verbatim>\<open>null\<close> sets a slice or a pointer to nil.\<close>

fun dec_elems :: "json list \<Rightarrow> u64 list \<Rightarrow> error + u64 list" where
  "dec_elems [] old = Inr []"
| "dec_elems (j # js) old = (case dec_uint j (case old of [] \<Rightarrow> 0 | w # _ \<Rightarrow> w) of Inl e \<Rightarrow> Inl e
     | Inr w \<Rightarrow> mapR ((#) w) (dec_elems js (tl old)))"

definition dec_list :: "json \<Rightarrow> u64 list \<Rightarrow> error + u64 list" where
  "dec_list j old = (case j of JArr js \<Rightarrow> dec_elems js old | JNull \<Rightarrow> Inr [] | _ \<Rightarrow> Inl JsonErr)"

definition dec_str_ptr :: "json \<Rightarrow> string option \<Rightarrow> error + string option" where
  "dec_str_ptr j old = (case j of JStr s \<Rightarrow> Inr (Some s) | JNull \<Rightarrow> Inr None | _ \<Rightarrow> Inl JsonErr)"

definition in_bm :: "(pb_BlockMeta \<Rightarrow> error + pb_BlockMeta) \<Rightarrow> BlockMeta \<Rightarrow> error + BlockMeta" where
  "in_bm f b = mapR Some (f (case b of None \<Rightarrow> zero_bm | Some p \<Rightarrow> p))"

definition BlockMeta_member :: "string \<Rightarrow> json \<Rightarrow> BlockMeta \<Rightarrow> error + BlockMeta" where
  "BlockMeta_member k j b = (let l = map to_lower k in
     if l = ''ino'' then in_bm (\<lambda>p. mapR (\<lambda>v. p \<lparr> bm_Ino := v \<rparr>) (dec_uint j (bm_Ino p))) b
     else if l = ''virtual_volume_id'' then in_bm (\<lambda>p. mapR (\<lambda>v. p \<lparr> bm_VirtualVolumeId := v \<rparr>) (dec_uint j (bm_VirtualVolumeId p))) b
     else if l = ''block_index_in_file'' then in_bm (\<lambda>p. mapR (\<lambda>v. p \<lparr> bm_BlockIndexInFile := v \<rparr>) (dec_uint j (bm_BlockIndexInFile p))) b
     else if l = ''primary_volume_id'' then in_bm (\<lambda>p. mapR (\<lambda>v. p \<lparr> bm_PrimaryVolumeId := v \<rparr>) (dec_uint j (bm_PrimaryVolumeId p))) b
     else if l = ''secondary_volume_ids'' then in_bm (\<lambda>p. mapR (\<lambda>v. p \<lparr> bm_SecondaryVolumeIds := v \<rparr>) (dec_list j (bm_SecondaryVolumeIds p))) b
     else if l = ''txn_id'' then in_bm (\<lambda>p. mapR (\<lambda>v. p \<lparr> bm_TxnId := v \<rparr>) (dec_uint j (bm_TxnId p))) b
     else if l = ''len'' then in_bm (\<lambda>p. mapR (\<lambda>v. p \<lparr> bm_Len := v \<rparr>) (dec_uint j (bm_Len p))) b
     else if l = ''crc32'' then in_bm (\<lambda>p. mapR (\<lambda>v. p \<lparr> bm_Crc32 := v \<rparr>) (dec_uint j (bm_Crc32 p))) b
     else if l = ''created_at'' then in_bm (\<lambda>p. mapR (\<lambda>v. p \<lparr> bm_CreatedAt := v \<rparr>) (dec_uint j (bm_CreatedAt p))) b
     else if l = ''cloud_addr'' then in_bm (\<lambda>p. mapR (\<lambda>v. p \<lparr> bm_CloudAddr := v \<rparr>) (dec_str_ptr j (bm_CloudAddr p))) b
     else if l = ''block_id'' then in_bm (\<lambda>p. mapR (\<lambda>v. p \<lparr> bm_BlockId := v \<rparr>) (dec_str j (bm_BlockId p))) b
     else Inr b)"

definition BlockMeta_Deserialize :: "blob \<Rightarrow> error + BlockMeta" where
  "BlockMeta_Deserialize b = unmarshal BlockMeta_member None b"

definition norm_bm :: "pb_BlockMeta \<Rightarrow> BlockMeta" where
  "norm_bm p = (if p = zero_bm then None else Some p)"

lemma bm_step:
  assumes "fs = (if z then [] else [(k, j)])" and "z \<Longrightarrow> g q = q" and "\<not> z \<Longrightarrow> g q \<noteq> zero_bm"
    and "\<And>b. \<not> z \<Longrightarrow> BlockMeta_member k j b = in_bm (\<lambda>p. Inr (g p)) b"
  shows "members BlockMeta_member fs (norm_bm q) = Inr (norm_bm (g q))"
  using assms by (auto simp: in_bm_def norm_bm_def)

lemma dec_elems_uint: "dec_elems (map (\<lambda>w. JNum (uint w)) ws) old = Inr ws"
  by (induction ws arbitrary: old) auto

lemma bm_steps:
  "bm_Ino q = 0 \<Longrightarrow> members BlockMeta_member (omit_num ''ino'' (uint x)) (norm_bm q) = Inr (norm_bm (q \<lparr> bm_Ino := x \<rparr>))"
  "bm_VirtualVolumeId q = 0 \<Longrightarrow> members BlockMeta_member (omit_num ''virtual_volume_id'' (uint x)) (norm_bm q) = Inr (norm_bm (q \<lparr> bm_VirtualVolumeId := x \<rparr>))"
  "bm_BlockIndexInFile q = 0 \<Longrightarrow> members BlockMeta_member (omit_num ''block_index_in_file'' (uint x)) (norm_bm q) = Inr (norm_bm (q \<lparr> bm_BlockIndexInFile := x \<rparr>))"
  "bm_PrimaryVolumeId q = 0 \<Longrightarrow> members BlockMeta_member (omit_num ''primary_volume_id'' (uint x)) (norm_bm q) = Inr (norm_bm (q \<lparr> bm_PrimaryVolumeId := x \<rparr>))"
  "bm_TxnId q = 0 \<Longrightarrow> members BlockMeta_member (omit_num ''txn_id'' (uint x)) (norm_bm q) = Inr (norm_bm (q \<lparr> bm_TxnId := x \<rparr>))"
  "bm_Len q = 0 \<Longrightarrow> members BlockMeta_member (omit_num ''len'' (uint x)) (norm_bm q) = Inr (norm_bm (q \<lparr> bm_Len := x \<rparr>))"
  "bm_Crc32 q = 0 \<Longrightarrow> members BlockMeta_member (omit_num ''crc32'' (uint y)) (norm_bm q) = Inr (norm_bm (q \<lparr> bm_Crc32 := y \<rparr>))"
  "bm_CreatedAt q = 0 \<Longrightarrow> members BlockMeta_member (omit_num ''created_at'' (uint x)) (norm_bm q) = Inr (norm_bm (q \<lparr> bm_CreatedAt := x \<rparr>))"
  by - (rule bm_step [OF omit_num_def]; cases q; simp add: zero_bm_def BlockMeta_member_def to_lower_def)+

lemma bm_steps':
  "bm_BlockId q = [] \<Longrightarrow> members BlockMeta_member (omit_str ''block_id'' z) (norm_bm q) = Inr (norm_bm (q \<lparr> bm_BlockId := z \<rparr>))"
  "bm_SecondaryVolumeIds q = [] \<Longrightarrow> members BlockMeta_member (omit_list ''secondary_volume_ids'' ws) (norm_bm q) = Inr (norm_bm (q \<lparr> bm_SecondaryVolumeIds := ws \<rparr>))"
  "bm_CloudAddr q = None \<Longrightarrow> members BlockMeta_member (omit_ptr ''cloud_addr'' a) (norm_bm q) =
     Inr (norm_bm (q \<lparr> bm_CloudAddr := a \<rparr>))"
    apply (rule bm_step [OF omit_str_def]; cases q; simp add: zero_bm_def BlockMeta_member_def to_lower_def)
   apply (rule bm_step [OF omit_list_def]; cases q; simp add: zero_bm_def BlockMeta_member_def to_lower_def dec_list_def dec_elems_uint)
  apply (rule bm_step [OF omit_ptr_def]; cases q; auto simp: zero_bm_def BlockMeta_member_def to_lower_def dec_str_ptr_def)
  done

lemma BlockMeta_roundtrip: "BlockMeta_Serialize (Some p) = Inr b \<Longrightarrow> BlockMeta_Deserialize b = Inr (norm_bm p)"
proof -
  have "members BlockMeta_member (bm_fields p) (norm_bm zero_bm) = Inr (norm_bm p)"
    by (cases p) (simp add: bm_fields_def bm_steps bm_steps' zero_bm_def)
  then show "BlockMeta_Serialize (Some p) = Inr b \<Longrightarrow> BlockMeta_Deserialize b = Inr (norm_bm p)"
    by (auto simp: BlockMeta_Serialize_def BlockMeta_Deserialize_def bm_doc_fields_def unmarshal_def norm_bm_def)
qed

section \<open>Keys\<close>

definition BlockMeta_FormatPrefix :: "pb_BlockMeta \<Rightarrow> string" where
  "BlockMeta_FormatPrefix p = ''ino_block_map/'' @ fmt_d (unat (bm_Ino p)) @ ''/''"

definition BlockMeta_FormatKey :: "pb_BlockMeta \<Rightarrow> string" where
  "BlockMeta_FormatKey p = BlockMeta_FormatPrefix p @ fmt_d (unat (bm_BlockIndexInFile p))"

definition BlockMetaHistory_FormatPrefix :: "pb_BlockMeta \<Rightarrow> string" where
  "BlockMetaHistory_FormatPrefix p =
     ''ino_block_map_history/'' @ fmt_d (unat (bm_Ino p)) @ ''/'' @ fmt_d (unat (bm_BlockIndexInFile p))"

definition BlockMetaHistory_FormatKey :: "pb_BlockMeta \<Rightarrow> int \<Rightarrow> string" where
  "BlockMetaHistory_FormatKey p timestamp = BlockMetaHistory_FormatPrefix p @ fmt_i timestamp"

text \<open>The serializers are only used with a message in place.\<close>

definition bm_ser :: "pb_BlockMeta \<Rightarrow> BlockMeta Serializer" where
  "bm_ser p = \<lparr> FormatKey = BlockMeta_FormatKey p, FormatPrefix = BlockMeta_FormatPrefix p,
     Serialize = BlockMeta_Serialize (Some p), Deserialize = BlockMeta_Deserialize,
     BeforeSerialize = None, AfterSerialize = None, BeforeDeserialize = None, AfterDeserialize = None \<rparr>"

definition BlockMetaHistory_member :: "string \<Rightarrow> json \<Rightarrow> BlockMetaHistory \<Rightarrow> error + BlockMetaHistory" where
  "BlockMetaHistory_member k j h = (if map to_lower k = ''timestamp''
     then mapR (\<lambda>v. h \<lparr> hm_Timestamp := sint v \<rparr>) (dec_sint j (word_of_int (hm_Timestamp h) :: u64))
     else mapR (\<lambda>b. h \<lparr> hm_BlockMeta := b \<rparr>) (BlockMeta_member k j (hm_BlockMeta h)))"

definition BlockMetaHistory_Deserialize :: "blob \<Rightarrow> error + BlockMetaHistory" where
  "BlockMetaHistory_Deserialize b = unmarshal BlockMetaHistory_member \<lparr> hm_BlockMeta = None, hm_Timestamp = 0 \<rparr> b"

definition hm_ser :: "pb_BlockMeta \<Rightarrow> int \<Rightarrow> BlockMetaHistory Serializer" where
  "hm_ser p ts = \<lparr> FormatKey = BlockMetaHistory_FormatKey p ts, FormatPrefix = BlockMetaHistory_FormatPrefix p,
     Serialize = BlockMetaHistory_Serialize \<lparr> hm_BlockMeta = Some p, hm_Timestamp = ts \<rparr>,
     Deserialize = BlockMetaHistory_Deserialize,
     BeforeSerialize = None, AfterSerialize = None, BeforeDeserialize = None, AfterDeserialize = None \<rparr>"

section \<open>The block map of a file\<close>

record InoBlockMap =
  ib_Ino :: u64
  ib_VirtualVolumeID :: u64
  ib_Blocks :: "u64 \<rightharpoonup> pb_BlockMeta"

text \<open>The loop over the records; reading a field of a record without a message panics.\<close>

fun collect :: "BlockMeta list \<Rightarrow> InoBlockMap \<Rightarrow> error + InoBlockMap" where
  "collect [] out = Inr out"
| "collect (None # es) out = Inl Panic"
| "collect (Some e # es) out = collect es (out \<lparr>
     ib_Blocks := (ib_Blocks out)(bm_BlockIndexInFile e \<mapsto> e),
     ib_VirtualVolumeID := (if ib_VirtualVolumeID out = 0 then bm_VirtualVolumeId e else ib_VirtualVolumeID out) \<rparr>)"

definition GetInoBlockMap :: "'s Store \<Rightarrow> BlockMeta order \<Rightarrow> u64 \<Rightarrow> (InoBlockMap, 's) gom" where
  "GetInoBlockMap S ord ino =
     bindE (DoGetValuesByPrefix S False (Some (bm_ser (zero_bm \<lparr> bm_Ino := ino \<rparr>)))) (\<lambda>blockMetaMaps.
     liftE (collect (ord blockMetaMaps) \<lparr> ib_Ino = ino, ib_VirtualVolumeID = 0, ib_Blocks = Map.empty \<rparr>))"

text \<open>The history is read from the prefix of the current block map.\<close>

definition GetHistoryBlockMap :: "'s Store \<Rightarrow> BlockMeta order \<Rightarrow> u64 \<Rightarrow> (InoBlockMap, 's) gom" where
  "GetHistoryBlockMap S ord ino =
     bindE (DoGetValuesByPrefix S False (Some (bm_ser (zero_bm \<lparr> bm_Ino := ino \<rparr>)))) (\<lambda>blockMetaMaps.
     liftE (collect (ord blockMetaMaps) \<lparr> ib_Ino = ino, ib_VirtualVolumeID = 0, ib_Blocks = Map.empty \<rparr>))"

definition GetInoBlockMeta :: "'s Store \<Rightarrow> u64 \<Rightarrow> u64 \<Rightarrow> (BlockMeta, 's) gom" where
  "GetInoBlockMeta S ino index =
     DoGetValueByKey S False (Some (bm_ser (zero_bm \<lparr> bm_Ino := ino, bm_BlockIndexInFile := index \<rparr>)))"

definition UpdateInoBlockMap :: "'s Store \<Rightarrow> pb_BlockMeta \<Rightarrow> (unit, 's) gom" where
  "UpdateInoBlockMap S p = DoSaveInKVPair S False (Some (bm_ser p))"

text \<open>A record without a message has no key: \<^verbatim>\<open>b.Ino\<close> panics.\<close>

definition ArchiveBlockMeta :: "'s Store \<Rightarrow> int \<Rightarrow> BlockMeta \<Rightarrow> (unit, 's) gom" where
  "ArchiveBlockMeta S ts b = (case b of None \<Rightarrow> throwE Panic | Some p \<Rightarrow> DoSaveInKVPair S False (Some (hm_ser p ts)))"

text \<open>Items without a message panic when their key is formatted, before anything is saved.\<close>

definition BatchUpdateInoBlockMap :: "'s Store \<Rightarrow> BlockMeta list \<Rightarrow> (unit, 's) gom" where
  "BatchUpdateInoBlockMap S list = (if None \<in> set list then throwE Panic
     else DoBatchSaveStrictly S False (map (\<lambda>b. Some (bm_ser (the b))) list))"

definition DeleteInoBlockMap :: "'s Store \<Rightarrow> u64 \<Rightarrow> (unit, 's) gom" where
  "DeleteInoBlockMap S ino = DoDeleteByKey S False (Some (bm_ser (zero_bm \<lparr> bm_Ino := ino \<rparr>)))"

section \<open>Requests\<close>

text \<open>
  \<^verbatim>\<open>oldMeta\<close> is never nil when there is no error. Any error of reading it, not only "not found", is ignored. The
  clock is read once for the record and, as a signed number, once for the archive.
\<close>

definition UpdateBlockLocation :: "'s Store \<Rightarrow> u64 \<Rightarrow> int \<Rightarrow> BlockMeta \<Rightarrow> (unit, 's) gom" where
  "UpdateBlockLocation S now ts meta = (case meta of None \<Rightarrow> throwE Panic | Some p \<Rightarrow>
     let out = p \<lparr> bm_CreatedAt := now \<rparr> in
     tryE (GetInoBlockMeta S (bm_Ino out) (bm_BlockIndexInFile out)) (\<lambda>r.
     bindE (case r of Inl _ \<Rightarrow> returnE () | Inr oldMeta \<Rightarrow> ArchiveBlockMeta S ts oldMeta) (\<lambda>_.
     UpdateInoBlockMap S out)))"

definition BatchUpdateBlockLocation :: "'s Store \<Rightarrow> BlockMeta list \<Rightarrow> (unit, 's) gom" where
  "BatchUpdateBlockLocation S metas = BatchUpdateInoBlockMap S metas"

definition LoadConfiguration :: "'s Store \<Rightarrow> codecs \<Rightarrow> VirtualVolume order \<Rightarrow> PhysicalVolume order \<Rightarrow>
    (VirtualVolume list \<times> PhysicalVolume list, 's) gom" where
  "LoadConfiguration S K vord pord =
     bindE (ListVirtualVolumes S K vord) (\<lambda>vvols. bindE (ListPhysicalVolumes S K pord) (\<lambda>pvols. returnE (vvols, pvols)))"

text \<open>The pair of the sums, in 64 bits.\<close>

definition Statistics :: "'s Store \<Rightarrow> codecs \<Rightarrow> PhysicalVolume order \<Rightarrow> (u64 \<times> u64, 's) gom" where
  "Statistics S K ord = bindE (ListPhysicalVolumes S K ord) (\<lambda>pvols.
     returnE (fold (\<lambda>p (c, u). (c + pv_CapByte p, u + pv_UsageByte p)) pvols (0, 0)))"

text \<open>A heartbeat without a report is a nil pointer that is read.\<close>

definition ProcessBeatRequest :: "'s Store \<Rightarrow> StorageNode codec \<Rightarrow> u64 \<Rightarrow> (u64 \<times> u64) list option \<Rightarrow> (unit, 's) gom" where
  "ProcessBeatRequest S C nodeId reports = (case reports of None \<Rightarrow> throwE Panic
     | Some usage \<Rightarrow> bindE (PatchStorageNode S C nodeId usage) (\<lambda>_. returnE ()))"

section \<open>The block map as a map\<close>

definition bm_prefix :: "u64 \<Rightarrow> string" where "bm_prefix ino = ''ino_block_map/'' @ fmt_d (unat ino) @ ''/''"

definition bm_key :: "u64 \<Rightarrow> u64 \<Rightarrow> string" where "bm_key ino i = bm_prefix ino @ fmt_d (unat i)"

definition bm_doc :: "pb_BlockMeta \<Rightarrow> blob" where "bm_doc p = JsonDoc (JObj (bm_fields p))"

definition hm_doc :: "pb_BlockMeta \<Rightarrow> int \<Rightarrow> blob" where
  "hm_doc p ts = JsonDoc (JObj (bm_fields p @ [(''Timestamp'', JNum ts)]))"

lemma bm_key_simps [simp]:
  "bm_key ino i = bm_key ino' j \<longleftrightarrow> ino = ino' \<and> i = j" "norm_key (bm_key ino i) = bm_key ino i"
  "BlockMetaHistory_FormatKey p ts \<noteq> bm_key ino i" "bm_key ino i \<noteq> BlockMetaHistory_FormatKey p ts"
  using norm_key_digits [of "bm_prefix ino"]
  by (auto simp: bm_key_def bm_prefix_def BlockMetaHistory_FormatKey_def BlockMetaHistory_FormatPrefix_def
      fmt_d_sep_inject unat_inject)

lemma in_bucket_bm: "in_bucket (bm_prefix ino) x \<longleftrightarrow> prefix (bm_prefix ino) x"
  using in_bucket_slash [of "''ino_block_map/'' @ fmt_d (unat ino)"] by (simp add: bm_prefix_def last_fmt_d)

lemma in_bucket_bm_simps [simp]:
  "in_bucket (bm_prefix ino) (bm_key ino i)" "\<not> in_bucket (bm_prefix ino) (BlockMetaHistory_FormatKey p ts)"
  unfolding in_bucket_bm
  by (simp_all add: bm_key_def bm_prefix_def BlockMetaHistory_FormatKey_def BlockMetaHistory_FormatPrefix_def)

lemma bm_ser_simps [simp]:
  "no_hooks (bm_ser p)" "FormatKey (bm_ser p) = bm_key (bm_Ino p) (bm_BlockIndexInFile p)"
  "FormatPrefix (bm_ser p) = bm_prefix (bm_Ino p)" "Serialize (bm_ser p) = Inr (bm_doc p)"
  "Deserialize (bm_ser p) = BlockMeta_Deserialize"
  by (simp_all add: bm_ser_def no_hooks_def bm_key_def bm_prefix_def BlockMeta_FormatKey_def BlockMeta_FormatPrefix_def
      BlockMeta_Serialize_def bm_doc_fields_def bm_doc_def)

lemma hm_ser_simps [simp]:
  "no_hooks (hm_ser p ts)" "FormatKey (hm_ser p ts) = BlockMetaHistory_FormatKey p ts"
  "Serialize (hm_ser p ts) = Inr (hm_doc p ts)"
  by (simp_all add: hm_ser_def no_hooks_def BlockMetaHistory_FormatKey_def BlockMetaHistory_FormatPrefix_def
      BlockMetaHistory_Serialize_def bm_doc_fields_def hm_doc_def)

lemma BlockMeta_doc: "BlockMeta_Deserialize (bm_doc p) = Inr (norm_bm p)"
  by (rule BlockMeta_roundtrip) (simp add: BlockMeta_Serialize_def bm_doc_fields_def bm_doc_def)

text \<open>Everything under the prefix of the file is a record of the file, stored under its index.\<close>

definition blocks_ok :: "kv \<Rightarrow> u64 \<Rightarrow> bool" where
  "blocks_ok kv ino \<longleftrightarrow> kv_ok kv \<and> (\<forall>x b. in_bucket (bm_prefix ino) x \<longrightarrow> map_of kv x = Some b \<longrightarrow>
     (\<exists>p. BlockMeta_Deserialize b = Inr (Some p) \<and> bm_Ino p = ino \<and> x = bm_key ino (bm_BlockIndexInFile p)))"

definition file_blocks :: "kv \<Rightarrow> u64 \<Rightarrow> u64 \<rightharpoonup> pb_BlockMeta" where
  "file_blocks kv ino i = (case map_of kv (bm_key ino i) of None \<Rightarrow> None
     | Some b \<Rightarrow> (case BlockMeta_Deserialize b of Inr (Some p) \<Rightarrow> Some p | _ \<Rightarrow> None))"

lemma blocks_okD:
  assumes "blocks_ok kv ino" and "in_bucket (bm_prefix ino) x" and "map_of kv x = Some b"
  obtains p where "BlockMeta_Deserialize b = Inr (Some p)" and "bm_Ino p = ino" and "x = bm_key ino (bm_BlockIndexInFile p)"
  using assms unfolding blocks_ok_def by blast

fun upd_all :: "('a \<Rightarrow> 'k) \<Rightarrow> 'a list \<Rightarrow> ('k \<rightharpoonup> 'a) \<Rightarrow> 'k \<rightharpoonup> 'a" where
  "upd_all key [] f = f"
| "upd_all key (e # es) f = upd_all key es (f(key e \<mapsto> e))"

lemma collect_Some:
  "\<exists>out'. collect (map Some ps) out = Inr out' \<and> ib_Ino out' = ib_Ino out
     \<and> ib_Blocks out' = upd_all bm_BlockIndexInFile ps (ib_Blocks out)"
  by (induction ps arbitrary: out) fastforce+

lemma upd_all_Some:
  assumes "\<And>p q. p \<in> set ps \<Longrightarrow> q \<in> set ps \<Longrightarrow> key p = key q \<Longrightarrow> p = q"
  shows "upd_all key ps f i = Some p \<longleftrightarrow> p \<in> set ps \<and> key p = i \<or> f i = Some p \<and> (\<forall>q \<in> set ps. key q \<noteq> i)"
  using assms
proof (induction ps arbitrary: f)
  case (Cons e es)
  have "upd_all key es (f(key e \<mapsto> e)) i = Some p \<longleftrightarrow> p \<in> set es \<and> key p = i \<or>
      (f(key e \<mapsto> e)) i = Some p \<and> (\<forall>q \<in> set es. key q \<noteq> i)"
    by (rule Cons.IH) (use Cons.prems in simp)
  moreover have "q = e" if "q \<in> set es" "key q = key e" for q using Cons.prems [of q e] that by simp
  ultimately show ?case by (auto split: if_splits)
qed simp

lemma GetInoBlockMap_spec:
  assumes ok: "blocks_ok (committed m) ino" and ord: "order_ok ord"
  shows "\<exists>bm. GetInoBlockMap spec_store ord ino m = (Inr bm, m) \<and> ib_Ino bm = ino
     \<and> ib_Blocks bm = file_blocks (committed m) ino"
proof -
  let ?kv = "committed m"
  obtain r where r: "rows (bm_prefix ino) BlockMeta_Deserialize ?kv = Inr r"
    and mem: "\<And>k v. (k, v) \<in> set r \<longleftrightarrow> in_bucket (bm_prefix ino) k \<and> (\<exists>b. map_of ?kv k = Some b \<and> BlockMeta_Deserialize b = Inr v)"
  proof (rule rows_all [of ?kv "bm_prefix ino" BlockMeta_Deserialize])
    show "kv_ok ?kv" using ok by (simp add: blocks_ok_def)
    show "\<exists>v. BlockMeta_Deserialize b = Inr v" if "in_bucket (bm_prefix ino) x" "map_of ?kv x = Some b" for x b
      using blocks_okD [OF ok that] by blast
  qed blast
  have key: "\<exists>p. snd e = Some p \<and> fst e = bm_key ino (bm_BlockIndexInFile p)" if e: "e \<in> set r" for e
  proof -
    obtain b where b: "in_bucket (bm_prefix ino) (fst e)" "map_of ?kv (fst e) = Some b" "BlockMeta_Deserialize b = Inr (snd e)"
      using e mem [of "fst e" "snd e"] by auto
    then show ?thesis using blocks_okD [OF ok b(1,2)] by auto
  qed
  define ps where "ps = map the (ord r)"
  have ps: "p \<in> set ps \<longleftrightarrow> file_blocks ?kv ino (bm_BlockIndexInFile p) = Some p" for p
  proof -
    have "p \<in> set ps \<longleftrightarrow> (\<exists>e \<in> set r. snd e = Some p)"
      using key by (force simp: ps_def order_okD [OF ord] image_iff)
    also have "\<dots> \<longleftrightarrow> (bm_key ino (bm_BlockIndexInFile p), Some p) \<in> set r"
      using key by force
    finally show ?thesis by (auto simp: mem file_blocks_def split: option.splits sum.splits)
  qed
  have some: "ord r = map Some ps"
    unfolding ps_def map_map by (rule map_idI [symmetric]) (use key in \<open>force simp: order_okD [OF ord]\<close>)
  obtain bm where bm: "collect (ord r) \<lparr> ib_Ino = ino, ib_VirtualVolumeID = 0, ib_Blocks = Map.empty \<rparr> = Inr bm" "ib_Ino bm = ino"
      "ib_Blocks bm = upd_all bm_BlockIndexInFile ps Map.empty"
    using collect_Some [of ps "\<lparr> ib_Ino = ino, ib_VirtualVolumeID = 0, ib_Blocks = Map.empty \<rparr>"] unfolding some by auto
  have inj: "p = q" if "p \<in> set ps" "q \<in> set ps" "bm_BlockIndexInFile p = bm_BlockIndexInFile q" for p q
    using that ps [of p] ps [of q] by simp
  have ix: "bm_BlockIndexInFile p = i" if p: "file_blocks ?kv ino i = Some p" for p i
  proof -
    obtain b where b: "map_of ?kv (bm_key ino i) = Some b" "BlockMeta_Deserialize b = Inr (Some p)"
      using p by (auto simp: file_blocks_def split: option.splits sum.splits)
    show ?thesis by (rule blocks_okD [OF ok in_bucket_bm_simps(1) b(1)]) (use b(2) in auto)
  qed
  have "ib_Blocks bm i = Some p \<longleftrightarrow> file_blocks ?kv ino i = Some p" for i p
  proof -
    have "ib_Blocks bm i = Some p \<longleftrightarrow> p \<in> set ps \<and> bm_BlockIndexInFile p = i"
      unfolding bm(3) by (subst upd_all_Some) (use inj in auto)
    then show ?thesis using ps [of p] ix [of i p] by auto
  qed
  then have "ib_Blocks bm = file_blocks ?kv ino" by (intro ext) (metis option.exhaust)
  then show ?thesis using bm(1,2) r
    by (simp add: GetInoBlockMap_def run_simps rows_run zero_bm_def)
qed

lemma GetInoBlockMeta_run:
  "GetInoBlockMeta spec_store ino i m = ((case map_of (committed m) (bm_key ino i) of None \<Rightarrow> Inl ErrNotFound
     | Some b \<Rightarrow> BlockMeta_Deserialize b), m)"
  by (simp add: GetInoBlockMeta_def run_simps get_run lookup_kv_def zero_bm_def split: option.split)

text \<open>What an update leaves in the store.\<close>

definition moved :: "int \<Rightarrow> u64 \<Rightarrow> u64 \<Rightarrow> kv \<Rightarrow> kv" where
  "moved ts ino i kv = (case file_blocks kv ino i of None \<Rightarrow> kv
     | Some old \<Rightarrow> kv_ins (BlockMetaHistory_FormatKey old ts) (hm_doc old ts) kv)"

lemma UpdateBlockLocation_run:
  assumes "blocks_ok (committed m) (bm_Ino p)"
  shows "UpdateBlockLocation spec_store now ts (Some p) m =
     (Inr (), m \<lparr> committed := kv_ins (bm_key (bm_Ino p) (bm_BlockIndexInFile p)) (bm_doc (p \<lparr> bm_CreatedAt := now \<rparr>))
        (moved ts (bm_Ino p) (bm_BlockIndexInFile p) (committed m)) \<rparr>)"
proof (cases "map_of (committed m) (bm_key (bm_Ino p) (bm_BlockIndexInFile p))")
  case None
  then show ?thesis
    by (simp add: UpdateBlockLocation_def Let_def tryE_run bindE_run returnE_run GetInoBlockMeta_run UpdateInoBlockMap_def save_run
        spec_write_run moved_def file_blocks_def)
next
  case (Some b)
  obtain old where "BlockMeta_Deserialize b = Inr (Some old)"
    using blocks_okD [OF assms in_bucket_bm_simps(1) Some] by blast
  then show ?thesis using Some
    by (simp add: UpdateBlockLocation_def Let_def tryE_run bindE_run returnE_run GetInoBlockMeta_run UpdateInoBlockMap_def
        ArchiveBlockMeta_def save_run spec_write_run moved_def file_blocks_def)
qed

lemma moved_simps [simp]:
  "map_of (moved ts ino i kv) (bm_key ino' j) = map_of kv (bm_key ino' j)" "kv_ok kv \<Longrightarrow> kv_ok (moved ts ino i kv)"
  by (auto simp: moved_def split: option.split)

lemma map_of_moved:
  "in_bucket (bm_prefix ino') x \<Longrightarrow> map_of (moved ts ino i kv) x = map_of kv x"
  by (auto simp: moved_def split: option.split)

lemma updated_ok:
  assumes "blocks_ok kv (bm_Ino p)" and "p \<noteq> zero_bm"
  shows "blocks_ok (kv_ins (bm_key (bm_Ino p) (bm_BlockIndexInFile p)) (bm_doc p) (moved ts (bm_Ino p) i kv)) (bm_Ino p)"
  unfolding blocks_ok_def
proof (intro conjI allI impI)
  show "kv_ok (kv_ins (bm_key (bm_Ino p) (bm_BlockIndexInFile p)) (bm_doc p) (moved ts (bm_Ino p) i kv))"
    using assms(1) by (auto simp: blocks_ok_def)
  fix x b assume x: "in_bucket (bm_prefix (bm_Ino p)) x"
    "map_of (kv_ins (bm_key (bm_Ino p) (bm_BlockIndexInFile p)) (bm_doc p) (moved ts (bm_Ino p) i kv)) x = Some b"
  show "\<exists>q. BlockMeta_Deserialize b = Inr (Some q) \<and> bm_Ino q = bm_Ino p \<and> x = bm_key (bm_Ino p) (bm_BlockIndexInFile q)"
  proof (cases "x = bm_key (bm_Ino p) (bm_BlockIndexInFile p)")
    case True
    then show ?thesis using x assms(2) by (auto simp: BlockMeta_doc norm_bm_def)
  next
    case False
    then have "map_of kv x = Some b" using x by (simp add: map_of_moved)
    then show ?thesis using blocks_okD [OF assms(1) x(1)] by metis
  qed
qed

lemma file_blocks_updated:
  assumes "p \<noteq> zero_bm"
  shows "file_blocks (kv_ins (bm_key (bm_Ino p) (bm_BlockIndexInFile p)) (bm_doc p) (moved ts ino' j kv)) (bm_Ino p) =
     (file_blocks kv (bm_Ino p))(bm_BlockIndexInFile p \<mapsto> p)"
  using assms by (auto simp: file_blocks_def fun_eq_iff BlockMeta_doc norm_bm_def)

section \<open>Properties\<close>

text \<open>
  C13. Updating the location of a block succeeds. The block map of the file is then the old one with the given record,
  stamped with the time, at its index; the record that was there is kept in the history. The clock is past its origin.
\<close>

theorem update_block_location:
  assumes "blocks_ok (committed m) (bm_Ino p)" and "order_ok ord" and "now \<noteq> 0"
  shows "\<exists>m' bm bm'. UpdateBlockLocation spec_store now ts (Some p) m = (Inr (), m')
    \<and> blocks_ok (committed m') (bm_Ino p)
    \<and> GetInoBlockMap spec_store ord (bm_Ino p) m = (Inr bm, m)
    \<and> GetInoBlockMap spec_store ord (bm_Ino p) m' = (Inr bm', m')
    \<and> ib_Blocks bm' = (ib_Blocks bm)(bm_BlockIndexInFile p \<mapsto> p \<lparr> bm_CreatedAt := now \<rparr>)
    \<and> (\<forall>old. ib_Blocks bm (bm_BlockIndexInFile p) = Some old \<longrightarrow>
         map_of (committed m') (BlockMetaHistory_FormatKey old ts) = Some (hm_doc old ts))"
proof -
  let ?p = "p \<lparr> bm_CreatedAt := now \<rparr>"
  let ?kv = "kv_ins (bm_key (bm_Ino p) (bm_BlockIndexInFile p)) (bm_doc ?p)
    (moved ts (bm_Ino p) (bm_BlockIndexInFile p) (committed m))"
  let ?m = "m \<lparr> committed := ?kv \<rparr>"
  have nz: "?p \<noteq> zero_bm" using assms(3) by (cases p) (auto simp: zero_bm_def)
  have ok: "blocks_ok (committed ?m) (bm_Ino p)" using updated_ok [of "committed m" ?p] nz assms(1) by simp
  obtain bm where bm: "GetInoBlockMap spec_store ord (bm_Ino p) m = (Inr bm, m)" "ib_Blocks bm = file_blocks (committed m) (bm_Ino p)"
    using GetInoBlockMap_spec [OF assms(1,2)] by blast
  obtain bm' where bm': "GetInoBlockMap spec_store ord (bm_Ino p) ?m = (Inr bm', ?m)" "ib_Blocks bm' = file_blocks ?kv (bm_Ino p)"
    using GetInoBlockMap_spec [OF ok assms(2)] by auto
  have "file_blocks ?kv (bm_Ino p) = (file_blocks (committed m) (bm_Ino p))(bm_BlockIndexInFile p \<mapsto> ?p)"
    using file_blocks_updated [OF nz] by simp
  moreover have "map_of ?kv (BlockMetaHistory_FormatKey old ts) = Some (hm_doc old ts)"
    if "file_blocks (committed m) (bm_Ino p) (bm_BlockIndexInFile p) = Some old" for old
    using that by (simp add: moved_def)
  ultimately show ?thesis
    using UpdateBlockLocation_run [OF assms(1), of now ts] ok bm bm'
    by (intro exI [of _ ?m] exI [of _ bm] exI [of _ bm']) simp
qed

theorem update_block_location_witness:
  "\<exists>m' bm. UpdateBlockLocation spec_store 5 5 (Some (zero_bm \<lparr> bm_Ino := 3, bm_BlockIndexInFile := 2 \<rparr>))
      \<lparr> committed = [], pending = None, seqs = \<lambda>_. 0 \<rparr> = (Inr (), m')
    \<and> GetInoBlockMap spec_store (map snd) 3 m' = (Inr bm, m')
    \<and> ib_Blocks bm 2 = Some (zero_bm \<lparr> bm_Ino := 3, bm_BlockIndexInFile := 2, bm_CreatedAt := 5 \<rparr>)"
proof -
  have "blocks_ok [] 3" by (simp add: blocks_ok_def)
  then show ?thesis
    using update_block_location [of "\<lparr> committed = [], pending = None, seqs = \<lambda>_. 0 \<rparr>"
        "zero_bm \<lparr> bm_Ino := 3, bm_BlockIndexInFile := 2 \<rparr>" "map snd" 5 5] order_snd
    by (fastforce simp: zero_bm_def)
qed

text \<open>
  Deleting the block map of a file, which is said to delete all its blocks, deletes block 0 only: every other block
  is still in the map.
\<close>

theorem delete_keeps_blocks:
  assumes "order_ok ord" and "blocks_ok (committed m) ino"
  shows "\<exists>m' bm bm'. DeleteInoBlockMap spec_store ino m = (Inr (), m')
    \<and> GetInoBlockMap spec_store ord ino m = (Inr bm, m) \<and> GetInoBlockMap spec_store ord ino m' = (Inr bm', m')
    \<and> ib_Blocks bm' = (ib_Blocks bm)(0 := None)"
proof -
  let ?kv = "kv_del (bm_key ino 0) (committed m)"
  let ?m = "m \<lparr> committed := ?kv \<rparr>"
  have run: "DeleteInoBlockMap spec_store ino m = (Inr (), ?m)"
    using bm_ser_simps(1) [of "zero_bm \<lparr> bm_Ino := ino \<rparr>"]
    by (simp add: DeleteInoBlockMap_def DoDeleteByKey_def no_hooks_def run_simps zero_bm_def)
  have ok: "blocks_ok (committed ?m) ino" using assms(2) by (auto simp: blocks_ok_def split: if_splits)
  have "file_blocks ?kv ino = (file_blocks (committed m) ino)(0 := None)"
    by (auto simp: file_blocks_def fun_eq_iff)
  then show ?thesis
    using run GetInoBlockMap_spec [OF assms(2,1)] GetInoBlockMap_spec [OF ok assms(1)] by fastforce
qed

theorem delete_keeps_blocks_witness:
  "\<exists>m'. DeleteInoBlockMap spec_store 3
     \<lparr> committed = [(bm_key 3 1, bm_doc (zero_bm \<lparr> bm_Ino := 3, bm_BlockIndexInFile := 1 \<rparr>))], pending = None, seqs = \<lambda>_. 0 \<rparr>
     = (Inr (), m')"
proof -
  have "zero_bm \<lparr> bm_Ino := 3, bm_BlockIndexInFile := 1 \<rparr> \<noteq> zero_bm" by (simp add: zero_bm_def)
  then have "blocks_ok [(bm_key 3 1, bm_doc (zero_bm \<lparr> bm_Ino := 3, bm_BlockIndexInFile := 1 \<rparr>))] 3"
    by (auto simp: blocks_ok_def kv_ok_def BlockMeta_doc norm_bm_def zero_bm_def split: if_splits)
  then show ?thesis
    using delete_keeps_blocks [OF order_snd, of "\<lparr> committed = [(bm_key 3 1,
        bm_doc (zero_bm \<lparr> bm_Ino := 3, bm_BlockIndexInFile := 1 \<rparr>))], pending = None, seqs = \<lambda>_. 0 \<rparr>" 3]
    by auto
qed

end
