(* ===== verification/Meta_Service.thy ===== *)
theory Meta_Service
  imports Meta_Blocks
begin

text \<open>
  The remaining requests of \<^verbatim>\<open>src/pkg/meta/storage_meta/service.go\<close>, which pass on to the managers, and the stream of
  heartbeats. A response with several fields is a tuple; a nil response without an error is None.
\<close>

section \<open>Volumes\<close>

definition Service_GetPhysicalVolume :: "'s Store \<Rightarrow> codecs \<Rightarrow> u64 \<Rightarrow> (PhysicalVolume, 's) gom" where
  "Service_GetPhysicalVolume S K i = bindE (GetPhysicalVolume S K i) (\<lambda>physicalVolume. returnE physicalVolume)"

definition Service_GetVirtualVolume :: "'s Store \<Rightarrow> codecs \<Rightarrow> u64 \<Rightarrow> (VirtualVolume, 's) gom" where
  "Service_GetVirtualVolume S K i = bindE (GetVirtualVolume S K i) (\<lambda>virtualVolume. returnE virtualVolume)"

definition Service_ListPhysicalVolumes :: "'s Store \<Rightarrow> codecs \<Rightarrow> PhysicalVolume order \<Rightarrow> u64 \<Rightarrow> (PhysicalVolume list, 's) gom" where
  "Service_ListPhysicalVolumes S K ord nodeId = bindE (ListPhysicalVolumesInNode S K ord nodeId) (\<lambda>physicalVolumes. returnE physicalVolumes)"

definition Service_ListVirtualVolume :: "'s Store \<Rightarrow> codecs \<Rightarrow> VirtualVolume order \<Rightarrow> (VirtualVolume list, 's) gom" where
  "Service_ListVirtualVolume S K ord = bindE (ListVirtualVolumes S K ord) (\<lambda>virtualVolumes. returnE virtualVolumes)"

definition Service_CreatePhysicalVolume :: "'s Store \<Rightarrow> codecs \<Rightarrow> u64 \<Rightarrow> u64 \<Rightarrow> volume_req \<Rightarrow> (PhysicalVolume, 's) gom" where
  "Service_CreatePhysicalVolume S K i now req = bindE (CreatePhysicalVolume S K i now req) (\<lambda>physicalVolume. returnE physicalVolume)"

definition Service_CreateVirtualVolume :: "'s Store \<Rightarrow> codecs \<Rightarrow> u64 \<Rightarrow> u64 \<Rightarrow> u64 \<Rightarrow> (VirtualVolume, 's) gom" where
  "Service_CreateVirtualVolume S K i now capacity = bindE (CreateVirtualVolume S K i now capacity) (\<lambda>virtualVolume. returnE virtualVolume)"

definition CreateReadOnlyVirtualVolume :: "(VirtualVolume, 's) gom" where
  "CreateReadOnlyVirtualVolume = throwE Panic"

definition BindPhysicalVolToVirtualVol :: "'s Store \<Rightarrow> codecs \<Rightarrow> u64 \<Rightarrow> u64 \<Rightarrow> (unit, 's) gom" where
  "BindPhysicalVolToVirtualVol S K v p = bindE (BindPhysicalVolume S K v p) (\<lambda>_. returnE ())"

definition UnBindPhysicalVolToVirtualVol :: "'s Store \<Rightarrow> codecs \<Rightarrow> u64 \<Rightarrow> u64 \<Rightarrow> (unit, 's) gom" where
  "UnBindPhysicalVolToVirtualVol S K v p = bindE (UnbindPhysicalVolume S K v p) (\<lambda>_. returnE ())"

section \<open>Transactions\<close>

definition BeginTransaction :: "(unit option, 's) gom" where "BeginTransaction = returnE None"

definition CommitTransaction :: "(unit, 's) gom" where "CommitTransaction = returnE ()"

definition RollbackTransaction :: "(unit, 's) gom" where "RollbackTransaction = returnE ()"

section \<open>Block maps\<close>

definition block_map_response :: "InoBlockMap \<Rightarrow> u64 \<Rightarrow> u64 \<times> u64 \<times> (u64 \<rightharpoonup> pb_BlockMeta)" where
  "block_map_response bm ino = (ib_VirtualVolumeID bm, ino, ib_Blocks bm)"

definition Service_GetInoBlockMap :: "'s Store \<Rightarrow> BlockMeta order \<Rightarrow> u64 \<Rightarrow> (u64 \<times> u64 \<times> (u64 \<rightharpoonup> pb_BlockMeta), 's) gom" where
  "Service_GetInoBlockMap S ord ino = bindE (GetInoBlockMap S ord ino) (\<lambda>bm. returnE (block_map_response bm ino))"

definition Service_GetHistoryBlockMap :: "'s Store \<Rightarrow> BlockMeta order \<Rightarrow> u64 \<Rightarrow> (u64 \<times> u64 \<times> (u64 \<rightharpoonup> pb_BlockMeta), 's) gom" where
  "Service_GetHistoryBlockMap S ord ino = bindE (GetHistoryBlockMap S ord ino) (\<lambda>bm. returnE (block_map_response bm ino))"

definition Service_GetInoBlockMeta :: "'s Store \<Rightarrow> u64 \<Rightarrow> u64 \<Rightarrow> (BlockMeta, 's) gom" where
  "Service_GetInoBlockMeta S ino index = bindE (GetInoBlockMeta S ino index) (\<lambda>bm. returnE bm)"

section \<open>Heartbeats\<close>

text \<open>
  The messages of the stream up to the first error of \<^verbatim>\<open>Recv\<close>, which ends the loop without an error. An error of
  processing a message is only logged.
\<close>

fun HeartBeat :: "'s Store \<Rightarrow> StorageNode codec \<Rightarrow> (u64 \<times> (u64 \<times> u64) list option) list \<Rightarrow> (unit, 's) gom" where
  "HeartBeat S C [] = returnE ()"
| "HeartBeat S C ((nodeId, reports) # reqs) = tryE (ProcessBeatRequest S C nodeId reports) (\<lambda>_. HeartBeat S C reqs)"

definition Service_GetCandidateStorage :: "(StorageNode \<times> StorageNode, 's) gom" where
  "Service_GetCandidateStorage = throwE (ErrOther ''method GetCandidateStorage not implemented'')"

definition Service_PatchStorageNode :: "'s Store \<Rightarrow> StorageNode codec \<Rightarrow> u64 \<Rightarrow> (u64 \<times> u64) list \<Rightarrow> (unit option, 's) gom" where
  "Service_PatchStorageNode S C i usage = bindE (ProcessBeatRequest S C i (Some usage)) (\<lambda>_. returnE None)"

lemma PatchStorageNode_run:
  assumes "codec_ok node_valid C" and "node_at C (committed m) i = Some n" and "node_valid n"
  shows "PatchStorageNode spec_store C i usage m = (Inr (n \<lparr> sn_Usage := sum_list (map snd usage) \<rparr>),
     m \<lparr> committed := kv_ins (node_key (sn_Id n)) (enc C (n \<lparr> sn_Usage := sum_list (map snd usage) \<rparr>)) (committed m) \<rparr>)"
proof -
  have v: "node_valid (n \<lparr> sn_Usage := u \<rparr>)" for u using assms(3) by (simp add: node_valid_def)
  obtain b where "map_of (committed m) (node_key i) = Some b" "proto_Decode C b = Inr n"
    using assms(2) by (auto simp: node_at_def split: option.splits sum.splits)
  then show ?thesis using codec_okD(1) [OF assms(1) v]
    by (simp add: PatchStorageNode_def Let_def run_simps get_run lookup_kv_def save_run)
qed

lemma PatchStorageNode_missing:
  assumes "map_of (committed m) (node_key i) = None"
  shows "PatchStorageNode spec_store C i usage m = (Inl ErrNotFound, m)"
  using assms by (simp add: PatchStorageNode_def run_simps get_run lookup_kv_def)

text \<open>The usage in the last report of a node, if any.\<close>

fun last_report :: "u64 \<Rightarrow> (u64 \<times> (u64 \<times> u64) list option) list \<Rightarrow> u64 option" where
  "last_report i [] = None"
| "last_report i ((j, r) # reqs) = (case last_report i reqs of Some u \<Rightarrow> Some u
     | None \<Rightarrow> (if i = j then map_option (\<lambda>us. sum_list (map snd us)) r else None))"

definition reported :: "(u64 \<times> (u64 \<times> u64) list option) list \<Rightarrow> StorageNode \<Rightarrow> StorageNode" where
  "reported reqs n = (case last_report (sn_Id n) reqs of None \<Rightarrow> n | Some u \<Rightarrow> n \<lparr> sn_Usage := u \<rparr>)"

definition nodes_ok :: "StorageNode codec \<Rightarrow> kv \<Rightarrow> bool" where
  "nodes_ok C kv \<longleftrightarrow> (\<forall>i b. map_of kv (node_key i) = Some b \<longrightarrow>
     (\<exists>n. proto_Decode C b = Inr n \<and> sn_Id n = i \<and> node_valid n))"

lemma nodes_ok_at:
  assumes "nodes_ok C kv" and "node_at C kv i = Some n"
  shows "sn_Id n = i" and "node_valid n"
proof -
  obtain b where "map_of kv (node_key i) = Some b" "proto_Decode C b = Inr n"
    using assms(2) by (auto simp: node_at_def split: option.splits sum.splits)
  then show "sn_Id n = i" and "node_valid n" using assms(1) unfolding nodes_ok_def by force+
qed

lemma node_at_ins: "node_at C (kv_ins (node_key i) b kv) j =
    (if j = i then (case proto_Decode C b of Inl _ \<Rightarrow> None | Inr n \<Rightarrow> Some n) else node_at C kv j)"
  by (simp add: node_at_def)

lemma nodes_okD: "nodes_ok C kv \<Longrightarrow> map_of kv (node_key i) = Some b \<Longrightarrow> \<exists>n. node_at C kv i = Some n"
  by (force simp: nodes_ok_def node_at_def)

text \<open>One report.\<close>

definition report :: "u64 \<Rightarrow> (u64 \<times> u64) list \<Rightarrow> StorageNode \<Rightarrow> StorageNode" where
  "report i us n = (if sn_Id n = i then n \<lparr> sn_Usage := sum_list (map snd us) \<rparr> else n)"

lemma reported_Cons: "reported ((i, Some us) # reqs) n = reported reqs (report i us n)"
  by (auto simp: reported_def report_def split: option.split)

lemma beat_step:
  assumes "codec_ok node_valid C" and "nodes_ok C (committed m)"
  obtains r m' where "ProcessBeatRequest spec_store C i (Some us) m = (r, m')" and "r \<noteq> Inl Panic"
    and "nodes_ok C (committed m')"
    and "\<And>j. node_at C (committed m') j = map_option (report i us) (node_at C (committed m) j)"
proof (cases "map_of (committed m) (node_key i)")
  case None
  then have "node_at C (committed m) i = None" by (simp add: node_at_def)
  have "map_option (report i us) (node_at C (committed m) j) = node_at C (committed m) j" for j
  proof (cases "node_at C (committed m) j")
    case (Some q)
    with \<open>node_at C (committed m) i = None\<close> have "j \<noteq> i" by auto
    then show ?thesis unfolding Some using nodes_ok_at(1) [OF assms(2) Some] by (simp add: report_def)
  qed simp
  then show thesis using that [of "Inl ErrNotFound" m] assms(2) PatchStorageNode_missing [OF None, of C us]
    by (simp add: ProcessBeatRequest_def run_simps)
next
  case (Some b)
  then obtain n where n: "node_at C (committed m) i = Some n" using nodes_okD [OF assms(2)] by blast
  note n' = nodes_ok_at [OF assms(2) n]
  let ?n = "n \<lparr> sn_Usage := sum_list (map snd us) \<rparr>"
  let ?m = "m \<lparr> committed := kv_ins (node_key i) (enc C ?n) (committed m) \<rparr>"
  have v: "node_valid ?n" using n'(2) by (simp add: node_valid_def)
  note dec = codec_okD(2) [OF assms(1) v]
  have "nodes_ok C (committed ?m)" using assms(2) dec n' v by (auto simp: nodes_ok_def)
  moreover have "node_at C (committed ?m) j = map_option (report i us) (node_at C (committed m) j)" for j
  proof (cases "j = i")
    case True
    have "node_at C (committed ?m) i = Some ?n" using dec by (simp add: node_at_ins)
    then show ?thesis unfolding True n using n'(1) by (simp add: report_def)
  next
    case False
    have "report i us q = q" if "node_at C (committed m) j = Some q" for q
      using nodes_ok_at(1) [OF assms(2) that] False by (simp add: report_def)
    then show ?thesis using False by (cases "node_at C (committed m) j") (simp_all add: node_at_ins)
  qed
  ultimately show thesis using that [of "Inr ()" ?m] PatchStorageNode_run [OF assms(1) n n'(2), of us] n'(1)
    by (simp add: ProcessBeatRequest_def run_simps)
qed

lemma HeartBeat_run:
  assumes "codec_ok node_valid C" and "nodes_ok C (committed m)" and "list_all (\<lambda>(_, r). r \<noteq> None) reqs"
  shows "\<exists>m'. HeartBeat spec_store C reqs m = (Inr (), m')
     \<and> (\<forall>i. node_at C (committed m') i = map_option (reported reqs) (node_at C (committed m) i))"
  using assms(2,3)
proof (induction reqs arbitrary: m)
  case Nil
  then show ?case by (simp add: run_simps reported_def option.map_ident)
next
  case (Cons rq reqs)
  obtain i us where rq: "rq = (i, Some us)" using Cons.prems(2) by (cases rq) auto
  obtain r m1 where 1: "ProcessBeatRequest spec_store C i (Some us) m = (r, m1)" "r \<noteq> Inl Panic" "nodes_ok C (committed m1)"
    "\<And>j. node_at C (committed m1) j = map_option (report i us) (node_at C (committed m) j)"
    using beat_step [OF assms(1) Cons.prems(1)] by blast
  have "list_all (\<lambda>(_, r). r \<noteq> None) reqs" using Cons.prems(2) by simp
  from Cons.IH [OF 1(3) this] show ?case
    using 1(1,2) by (simp add: rq tryE_run 1(4) option.map_comp o_def reported_Cons)
qed

section \<open>Properties\<close>

text \<open>
  C20. A stream of heartbeats that carry reports leaves every stored node with the usage of its last report, summed in 64
  bits, and otherwise unchanged; reports of unknown nodes change nothing.
\<close>

theorem heartbeats_set_usage:
  assumes "codec_ok node_valid C" and "nodes_ok C (committed m)" and "list_all (\<lambda>(_, r). r \<noteq> None) reqs"
  shows "\<exists>m'. HeartBeat spec_store C reqs m = (Inr (), m')
     \<and> (\<forall>i. node_at C (committed m') i = map_option (reported reqs) (node_at C (committed m) i))"
  using HeartBeat_run [OF assms] by blast

theorem heartbeats_set_usage_witness:
  "\<exists>m'. HeartBeat spec_store tree_codec [(1, Some [(7, 3), (8, 4)]), (2, Some [(9, 1)])] one_node = (Inr (), m')
     \<and> node_at tree_codec (committed m') 1 = Some (zero_node \<lparr> sn_Id := 1, sn_Usage := 7 \<rparr>)"
proof -
  have ok: "nodes_ok tree_codec (committed one_node)"
    by (auto simp: nodes_ok_def one_node_def codec_okD(2) [OF tree_codec_ok] node_valid_def zero_node_def ascii_def split: if_splits)
  have at: "node_at tree_codec (committed one_node) 1 = Some (zero_node \<lparr> sn_Id := 1 \<rparr>)"
    by (simp add: one_node_def node_at_def codec_okD(2) [OF tree_codec_ok])
  obtain m' where m': "HeartBeat spec_store tree_codec [(1, Some [(7, 3), (8, 4)]), (2, Some [(9, 1)])] one_node = (Inr (), m')"
    "\<forall>i. node_at tree_codec (committed m') i = map_option (reported [(1, Some [(7, 3), (8, 4)]), (2, Some [(9, 1)])])
       (node_at tree_codec (committed one_node) i)"
    using heartbeats_set_usage [OF tree_codec_ok ok, of "[(1, Some [(7, 3), (8, 4)]), (2, Some [(9, 1)])]"] by auto
  then show ?thesis using at by (auto simp: reported_def)
qed

end
