(* ===== verification/File_Locks.thy ===== *)
theory File_Locks
  imports Meta_Table
begin

text \<open>
  \<^verbatim>\<open>src/pkg/meta/inode/cntl.go\<close> and the requests on file locks at the end of \<^verbatim>\<open>inode/service.go\<close>. Locks are kept
  under keys that start with \<^verbatim>\<open>lk-\<close>. The codec of the protobuf package is an argument, and so is the time.
\<close>

record FileLock =
  fl_Ino :: u64
  fl_Owner :: u64
  fl_Pid :: u32
  fl_Start :: u64
  fl_End :: u64
  fl_Kind :: u32
  fl_Flag :: u32
  fl_ExpireTime :: u64

definition zero_lock :: FileLock where
  "zero_lock = \<lparr> fl_Ino = 0, fl_Owner = 0, fl_Pid = 0, fl_Start = 0, fl_End = 0, fl_Kind = 0, fl_Flag = 0, fl_ExpireTime = 0 \<rparr>"

definition fileLockKey :: "u64 \<Rightarrow> u64 \<Rightarrow> u32 \<Rightarrow> string" where
  "fileLockKey ino owner pid = ''lk-'' @ fmt_d (unat ino) @ ''-'' @ fmt_d (unat owner) @ ''-'' @ fmt_d (unat pid)"

definition fileLockInoPrefix :: "u64 \<Rightarrow> string" where
  "fileLockInoPrefix ino = ''lk-'' @ fmt_d (unat ino) @ ''-''"

definition encodeFileLock :: "FileLock codec \<Rightarrow> FileLock \<Rightarrow> error + blob" where
  "encodeFileLock C l = proto_Marshal C l"

text \<open>\<^verbatim>\<open>var l FileLock\<close> has no message.\<close>

definition decodeFileLock :: "FileLock codec \<Rightarrow> blob \<Rightarrow> error + FileLock" where
  "decodeFileLock C data = Unmarshal C zero_lock None data"

definition saveFileLock :: "'s Store \<Rightarrow> FileLock codec \<Rightarrow> FileLock \<Rightarrow> (unit, 's) gom" where
  "saveFileLock S C l = bindE (liftE (encodeFileLock C l)) (\<lambda>data.
     Save S False (fileLockKey (fl_Ino l) (fl_Owner l) (fl_Pid l)) data)"

text \<open>The result is None where the code returns a nil lock.\<close>

definition getFileLock :: "'s Store \<Rightarrow> FileLock codec \<Rightarrow> u64 \<Rightarrow> u64 \<Rightarrow> u64 \<Rightarrow> u32 \<Rightarrow> (FileLock option, 's) gom" where
  "getFileLock S C now ino owner pid =
     bindE (Get S False (fileLockKey ino owner pid)) (\<lambda>data.
     bindE (liftE (decodeFileLock C data)) (\<lambda>fl.
     if fl_ExpireTime fl > now then bindE (Delete S False (fileLockKey ino owner pid)) (\<lambda>_. returnE None)
     else returnE (Some fl)))"

definition deleteFileLock :: "'s Store \<Rightarrow> u64 \<Rightarrow> u64 \<Rightarrow> u32 \<Rightarrow> (unit, 's) gom" where
  "deleteFileLock S ino owner pid = Delete S False (fileLockKey ino owner pid)"

text \<open>The entries come in the order in which Go ranges over the map.\<close>

definition getFileLocks :: "'s Store \<Rightarrow> FileLock codec \<Rightarrow> ((string \<times> blob) list \<Rightarrow> (string \<times> blob) list) \<Rightarrow> u64 \<Rightarrow> u64 \<Rightarrow>
    (FileLock list, 's) gom" where
  "getFileLocks S C rng now ino =
     bindE (GetByBucket S False (fileLockInoPrefix ino)) (\<lambda>entryMap.
     mapE (\<lambda>(k, val). bindE (liftE (decodeFileLock C val)) (\<lambda>fl.
       bindE (if fl_ExpireTime fl > now then Delete S False k else returnE ()) (\<lambda>_. returnE fl))) (rng entryMap))"

section \<open>Requests\<close>

text \<open>\<^verbatim>\<open>lock.FileLock\<close> of a nil lock panics.\<close>

definition GetFileLock :: "'s Store \<Rightarrow> FileLock codec \<Rightarrow> u64 \<Rightarrow> u64 \<Rightarrow> u64 \<Rightarrow> u32 \<Rightarrow> (FileLock, 's) gom" where
  "GetFileLock S C now ino owner pid = bindE (getFileLock S C now ino owner pid) (\<lambda>lock.
     case lock of None \<Rightarrow> throwE Panic | Some fl \<Rightarrow> returnE fl)"

definition DelFileLock :: "'s Store \<Rightarrow> u64 \<Rightarrow> u64 \<Rightarrow> u32 \<Rightarrow> (unit, 's) gom" where
  "DelFileLock S ino owner pid = deleteFileLock S ino owner pid"

definition GetFileLocks :: "'s Store \<Rightarrow> FileLock codec \<Rightarrow> ((string \<times> blob) list \<Rightarrow> (string \<times> blob) list) \<Rightarrow> u64 \<Rightarrow> u64 \<Rightarrow>
    (FileLock list, 's) gom" where
  "GetFileLocks S C rng now ino = getFileLocks S C rng now ino"

text \<open>A request without a lock panics when its key is built.\<close>

definition AcquireFileLock :: "'s Store \<Rightarrow> FileLock codec \<Rightarrow> FileLock option \<Rightarrow> (unit, 's) gom" where
  "AcquireFileLock S C lock = (case lock of None \<Rightarrow> throwE Panic | Some l \<Rightarrow> saveFileLock S C l)"

section \<open>Keys\<close>

lemma fileLockKey_inject [simp]:
  "fileLockKey i o1 p = fileLockKey j o2 q \<longleftrightarrow> i = j \<and> o1 = o2 \<and> p = q"
  by (simp add: fileLockKey_def fmt_d_sep_inject unat_inject)

lemma norm_fileLockKey [simp]: "norm_key (fileLockKey i own p) = fileLockKey i own p"
  using norm_key_digits [of "''lk-'' @ fmt_d (unat i) @ ''-'' @ fmt_d (unat own) @ ''-''"] by (simp add: fileLockKey_def)

text \<open>The bucket of a prefix without separator at its end is the prefix with one added.\<close>

lemma fileLockKey_not_in_bucket: "\<not> in_bucket (fileLockInoPrefix i) (fileLockKey j own p)"
proof -
  have "norm_key (fileLockInoPrefix i) = fileLockInoPrefix i"
    by (simp add: norm_key_def fileLockInoPrefix_def trim_slash_def)
  moreover have "CHR ''/'' \<notin> set (fileLockKey j own p)" by (simp add: fileLockKey_def fmt_d_no)
  ultimately show ?thesis
    by (auto simp: in_bucket_def bucket_prefix_def fileLockInoPrefix_def dest!: set_mono_prefix)
qed

definition lock_codec :: "FileLock codec" where
  "lock_codec = \<lparr>
     proto_Marshal = (\<lambda>l. Inr (JsonDoc (JArr (map JNum [uint (fl_Ino l), uint (fl_Owner l), uint (fl_Pid l), uint (fl_Start l),
       uint (fl_End l), uint (fl_Kind l), uint (fl_Flag l), uint (fl_ExpireTime l)])))),
     proto_Decode = (\<lambda>b. case b of
       JsonDoc (JArr [JNum i, JNum ow, JNum p, JNum st, JNum en, JNum k, JNum f, JNum x]) \<Rightarrow>
         Inr \<lparr> fl_Ino = word_of_int i, fl_Owner = word_of_int ow, fl_Pid = word_of_int p, fl_Start = word_of_int st,
           fl_End = word_of_int en, fl_Kind = word_of_int k, fl_Flag = word_of_int f, fl_ExpireTime = word_of_int x \<rparr>
     | _ \<Rightarrow> Inl JsonErr) \<rparr>"

lemma lock_codec_ok: "codec_ok (\<lambda>_. True) lock_codec"
  by (auto simp: codec_ok_def lock_codec_def)

section \<open>Properties\<close>

text \<open>
  C40. An acquired lock cannot be read: asking for it panics, the listing of the locks of the file is empty, and acquiring
  it for another holder over the same range succeeds as well. Deleting the lock brings back the content from before,
  for a lock that was not held.
\<close>

theorem locks_unreadable:
  assumes "codec_ok (\<lambda>_. True) C" and "kv_ok (committed m)" and "bucket_kv (fileLockInoPrefix (fl_Ino l)) (committed m) = []"
    and "map_of (committed m) (fileLockKey (fl_Ino l) (fl_Owner l) (fl_Pid l)) = None" and "\<And>xs. mset (rng xs) = mset xs"
  shows "\<exists>m'. AcquireFileLock spec_store C (Some l) m = (Inr (), m')
    \<and> GetFileLock spec_store C now (fl_Ino l) (fl_Owner l) (fl_Pid l) m' = (Inl Panic, m')
    \<and> GetFileLocks spec_store C rng now (fl_Ino l) m' = (Inr [], m')
    \<and> fst (AcquireFileLock spec_store C (Some (l \<lparr> fl_Owner := own \<rparr>)) m') = Inr ()
    \<and> DelFileLock spec_store (fl_Ino l) (fl_Owner l) (fl_Pid l) m' = (Inr (), m)"
proof -
  let ?k = "fileLockKey (fl_Ino l) (fl_Owner l) (fl_Pid l)"
  let ?kv = "kv_ins ?k (enc C l) (committed m)"
  let ?m = "m \<lparr> committed := ?kv \<rparr>"
  note enc = codec_okD(1) [OF assms(1) TrueI]
  have "bucket_kv (fileLockInoPrefix (fl_Ino l)) (kv_ins ?k v kv) = bucket_kv (fileLockInoPrefix (fl_Ino l)) kv" for v kv
    by (induction ?k v kv rule: kv_ins.induct) (auto simp: bucket_kv_def fileLockKey_not_in_bucket)
  then have b: "bucket_kv (fileLockInoPrefix (fl_Ino l)) ?kv = []" using assms(3) by simp
  have r: "rng [] = []" using assms(5) [of "[]"] by simp
  have "kv_del ?k ?kv = committed m"
    by (rule kv_ok_map_of_eq) (use assms(2,4) in auto)
  then show ?thesis using enc b r
    by (intro exI [of _ ?m]) (simp add: AcquireFileLock_def saveFileLock_def encodeFileLock_def run_simps GetFileLock_def
        getFileLock_def lookup_kv_def decodeFileLock_def GetFileLocks_def getFileLocks_def DelFileLock_def deleteFileLock_def)
qed

theorem locks_unreadable_witness:
  "\<exists>m'. AcquireFileLock spec_store lock_codec (Some (zero_lock \<lparr> fl_Ino := 4, fl_ExpireTime := 9 \<rparr>))
       \<lparr> committed = [], pending = None, seqs = \<lambda>_. 0 \<rparr> = (Inr (), m')
    \<and> GetFileLock spec_store lock_codec 7 4 0 0 m' = (Inl Panic, m')"
  using locks_unreadable [OF lock_codec_ok, of "\<lparr> committed = [], pending = None, seqs = \<lambda>_. 0 \<rparr>"
      "zero_lock \<lparr> fl_Ino := 4, fl_ExpireTime := 9 \<rparr>" id 7 0]
  by (auto simp: bucket_kv_def zero_lock_def)

end
