(* ===== verification/Block_Slot.thy ===== *)
theory Block_Slot
  imports Meta_Table
begin

text \<open>
  \<^verbatim>\<open>src/pkg/storage/volume/slot.go\<close>: which slots of a volume are occupied, and by which block. The bitmap is a
  third-party package, given by its operations and the contract \<open>slot_bits\<close>. An operation works on the state of the
  store and the \<^verbatim>\<open>Slot\<close> together, since both keep their changes when it fails; the mutex is left out, every operation
  being run on its own. The main results: the next free slot is the smallest one and is never found when all are
  occupied, slots survive a restart, and a freed slot stays known under its old hash.
\<close>

section \<open>The bitmap\<close>

record 'b bitmap =
  NewBitmap :: 'b
  CheckedAdd :: "u64 \<Rightarrow> 'b \<Rightarrow> bool \<times> 'b"
  CheckedRemove :: "u64 \<Rightarrow> 'b \<Rightarrow> bool \<times> 'b"
  Contains :: "'b \<Rightarrow> u64 \<Rightarrow> bool"
  Iterator :: "'b \<Rightarrow> u64 list"
  GetCardinality :: "'b \<Rightarrow> u64"
  MarshalBinary :: "'b \<Rightarrow> error + blob"
  UnmarshalBinary :: "blob \<Rightarrow> 'b \<Rightarrow> error option \<times> 'b"

text \<open>What the package promises: a set of numbers, iterated in order.\<close>

locale slot_bits =
  fixes B :: "'b bitmap" and elems :: "'b \<Rightarrow> u64 set"
  assumes elems_new: "elems (NewBitmap B) = {}"
    and elems_add: "elems (snd (CheckedAdd B x b)) = insert x (elems b)" "fst (CheckedAdd B x b) \<longleftrightarrow> x \<notin> elems b"
    and elems_remove: "elems (snd (CheckedRemove B x b)) = elems b - {x}" "fst (CheckedRemove B x b) \<longleftrightarrow> x \<in> elems b"
    and elems_contains: "Contains B b x \<longleftrightarrow> x \<in> elems b"
    and elems_iter: "set (Iterator B b) = elems b" "sorted_wrt (<) (Iterator B b)"
    and elems_card: "unat (GetCardinality B b) = card (elems b) mod 2 ^ 64"
    and elems_marshal: "\<exists>d. MarshalBinary B b = Inr d \<and> (\<forall>c. fst (UnmarshalBinary B d c) = None
        \<and> elems (snd (UnmarshalBinary B d c)) = elems b)"

section \<open>Stored hashes\<close>

record blockHash =
  bh_VolId :: u64
  bh_Slot :: u64
  bh_Hash :: string

definition newBlockHash :: "u64 \<Rightarrow> u64 \<Rightarrow> string \<Rightarrow> blockHash" where
  "newBlockHash volId slot hash = \<lparr> bh_VolId = volId, bh_Slot = slot, bh_Hash = hash \<rparr>"

definition newBlockHashQuery :: "u64 \<Rightarrow> u64 \<Rightarrow> blockHash" where
  "newBlockHashQuery volId slot = \<lparr> bh_VolId = volId, bh_Slot = slot, bh_Hash = [] \<rparr>"

definition blockHash_FormatPrefix :: "blockHash \<Rightarrow> string" where
  "blockHash_FormatPrefix h = ''slot_hash_'' @ fmt_d (unat (bh_VolId h)) @ ''/''"

definition blockHash_FormatKey :: "blockHash \<Rightarrow> string" where
  "blockHash_FormatKey h = blockHash_FormatPrefix h @ fmt_d (unat (bh_Slot h))"

definition blockHash_Serialize :: "blockHash \<Rightarrow> error + blob" where
  "blockHash_Serialize h = Inr (JsonDoc (JObj [(''VolId'', JNum (uint (bh_VolId h))), (''Slot'', JNum (uint (bh_Slot h))),
     (''Hash'', JStr (bh_Hash h))]))"

definition blockHash_member :: "string \<Rightarrow> json \<Rightarrow> blockHash \<Rightarrow> error + blockHash" where
  "blockHash_member k j h = (let l = map to_lower k in
     if l = ''volid'' then mapR (\<lambda>v. h \<lparr> bh_VolId := v \<rparr>) (dec_uint j (bh_VolId h))
     else if l = ''slot'' then mapR (\<lambda>v. h \<lparr> bh_Slot := v \<rparr>) (dec_uint j (bh_Slot h))
     else if l = ''hash'' then mapR (\<lambda>v. h \<lparr> bh_Hash := v \<rparr>) (dec_str j (bh_Hash h))
     else Inr h)"

definition blockHash_Deserialize :: "blob \<Rightarrow> error + blockHash" where
  "blockHash_Deserialize b = unmarshal blockHash_member \<lparr> bh_VolId = 0, bh_Slot = 0, bh_Hash = [] \<rparr> b"

definition bh_ser :: "blockHash \<Rightarrow> blockHash Serializer" where
  "bh_ser h = \<lparr> FormatKey = blockHash_FormatKey h, FormatPrefix = blockHash_FormatPrefix h,
     Serialize = blockHash_Serialize h, Deserialize = blockHash_Deserialize,
     BeforeSerialize = None, AfterSerialize = None, BeforeDeserialize = None, AfterDeserialize = None \<rparr>"

section \<open>Slots\<close>

record 'b Slot =
  sl_bits :: 'b
  sl_cap :: u64
  sl_volID :: u64
  sl_hashPairs :: "string \<rightharpoonup> u64"

text \<open>
  \<^verbatim>\<open>lo.FindKey\<close> of a map gives some key of a value, and ranging over a map has some order.
\<close>

record 'b slot_env =
  bits :: "'b bitmap"
  FindKey :: "(string \<rightharpoonup> u64) \<Rightarrow> u64 \<Rightarrow> string option"
  hash_order :: "blockHash order"

abbreviation ErrSlotOverflow :: error where "ErrSlotOverflow \<equiv> ErrOther ''slot overflow''"
abbreviation ErrSlotOccupied :: error where "ErrSlotOccupied \<equiv> ErrOther ''slot occupied''"
abbreviation ErrSlotEmpty :: error where "ErrSlotEmpty \<equiv> ErrOther ''slot empty''"

type_synonym ('a, 's, 'b) slot_op = "('a, 's \<times> 'b Slot) gom"

definition inStore :: "('a, 's) gom \<Rightarrow> ('a, 's, 'b) slot_op" where
  "inStore p w = (case p (fst w) of (r, s) \<Rightarrow> (r, s, snd w))"

definition Slot_Format :: "u64 \<Rightarrow> string" where "Slot_Format volID = ''slot_'' @ fmt_d (unat volID)"

definition persistState :: "'s Store \<Rightarrow> 'b slot_env \<Rightarrow> (unit, 's, 'b) slot_op" where
  "persistState S E w = (case MarshalBinary (bits E) (sl_bits (snd w)) of Inl e \<Rightarrow> (Inl e, w)
     | Inr data \<Rightarrow> inStore (Save S False (Slot_Format (sl_volID (snd w))) data) w)"

text \<open>The error of saving the hash is dropped.\<close>

definition persistSlot :: "'s Store \<Rightarrow> 'b slot_env \<Rightarrow> u64 \<Rightarrow> string \<Rightarrow> (unit, 's, 'b) slot_op" where
  "persistSlot S E offset hash w =
     tryE (inStore (DoSaveInKVPair S False (Some (bh_ser (newBlockHash (sl_volID (snd w)) offset hash))))) (\<lambda>_. persistState S E) w"

definition Occupy :: "'s Store \<Rightarrow> 'b slot_env \<Rightarrow> u64 \<Rightarrow> string \<Rightarrow> (unit, 's, 'b) slot_op" where
  "Occupy S E offset hash w = (case w of (s, sl) \<Rightarrow>
     if offset + 1 > sl_cap sl then (Inl ErrSlotOverflow, w)
     else (case CheckedAdd (bits E) offset (sl_bits sl) of (added, bs) \<Rightarrow>
       if \<not> added then (Inl ErrSlotOccupied, s, sl \<lparr> sl_bits := bs \<rparr>)
       else persistSlot S E offset hash (s, sl \<lparr> sl_bits := bs, sl_hashPairs := (sl_hashPairs sl)(hash \<mapsto> offset) \<rparr>)))"

definition Slot_Free :: "'s Store \<Rightarrow> 'b slot_env \<Rightarrow> u64 \<Rightarrow> (string, 's, 'b) slot_op" where
  "Slot_Free S E offset w = (case w of (s, sl) \<Rightarrow>
     if offset > sl_cap sl then (Inl ErrSlotOverflow, w)
     else (case CheckedRemove (bits E) offset (sl_bits sl) of (removed, bs) \<Rightarrow>
       let sl' = sl \<lparr> sl_bits := bs \<rparr> in
       if \<not> removed then (Inl ErrSlotEmpty, s, sl')
       else (case FindKey E (sl_hashPairs sl) offset of None \<Rightarrow> (Inl ErrSlotEmpty, s, sl')
         | Some hash \<Rightarrow> bindE (inStore (DoDeleteByKey S False (Some (bh_ser (newBlockHashQuery (sl_volID sl) offset)))))
             (\<lambda>_. returnE hash) (s, sl'))))"

definition Occupied :: "'b slot_env \<Rightarrow> u64 \<Rightarrow> 'b Slot \<Rightarrow> bool" where
  "Occupied E offset sl = Contains (bits E) (sl_bits sl) offset"

definition GetHash :: "'b slot_env \<Rightarrow> u64 \<Rightarrow> 'b Slot \<Rightarrow> error + string" where
  "GetHash E offset sl = (if \<not> Occupied E offset sl then Inl ErrSlotEmpty
     else case FindKey E (sl_hashPairs sl) offset of None \<Rightarrow> Inl ErrSlotEmpty | Some key \<Rightarrow> Inr key)"

definition GetSlot :: "string \<Rightarrow> 'b Slot \<Rightarrow> error + u64" where
  "GetSlot hash sl = (case sl_hashPairs sl hash of None \<Rightarrow> Inl ErrSlotEmpty | Some slot \<Rightarrow> Inr slot)"

text \<open>One pass over the bitmap, and the loop around it, which keeps its counter.\<close>

fun next_scan :: "u64 list \<Rightarrow> u64 \<Rightarrow> u64" where
  "next_scan [] idx = idx"
| "next_scan (b # bs) idx = (if idx \<noteq> b then idx else next_scan bs (idx + 1))"

partial_function (option) next_loop :: "u64 list \<Rightarrow> u64 \<Rightarrow> u64 \<Rightarrow> u64 option" where
  "next_loop bs capacity idx = (let idx' = next_scan bs idx in if idx' < capacity then Some idx' else next_loop bs capacity idx')"

definition Next :: "'b slot_env \<Rightarrow> 'b Slot \<Rightarrow> u64 option" where
  "Next E sl = next_loop (Iterator (bits E) (sl_bits sl)) (sl_cap sl) 0"

definition Remains :: "'b slot_env \<Rightarrow> 'b Slot \<Rightarrow> u64" where
  "Remains E sl = sl_cap sl - GetCardinality (bits E) (sl_bits sl)"

definition Slot_Size :: "'b slot_env \<Rightarrow> 'b Slot \<Rightarrow> u64" where
  "Slot_Size E sl = GetCardinality (bits E) (sl_bits sl)"

definition PersistState :: "'s Store \<Rightarrow> 'b slot_env \<Rightarrow> (unit, 's, 'b) slot_op" where
  "PersistState S E = persistState S E"

fun put_hashes :: "blockHash list \<Rightarrow> (string \<rightharpoonup> u64) \<Rightarrow> string \<rightharpoonup> u64" where
  "put_hashes [] m = m"
| "put_hashes (h # hs) m = put_hashes hs (m(bh_Hash h \<mapsto> bh_Slot h))"

definition load :: "'s Store \<Rightarrow> 'b slot_env \<Rightarrow> (unit, 's, 'b) slot_op" where
  "load S E =
     bindE (\<lambda>w. inStore (Get S False (Slot_Format (sl_volID (snd w)))) w) (\<lambda>data w.
     case UnmarshalBinary (bits E) data (sl_bits (snd w)) of
       (Some e, bs) \<Rightarrow> (Inl e, fst w, (snd w) \<lparr> sl_bits := bs \<rparr>)
     | (None, bs) \<Rightarrow>
         bindE (inStore (DoGetValuesByPrefix S False (Some (bh_ser (newBlockHashQuery (sl_volID (snd w)) 0))))) (\<lambda>blockHashMap w.
           (Inr (), fst w, (snd w) \<lparr> sl_hashPairs := put_hashes (hash_order E blockHashMap) Map.empty \<rparr>))
         (fst w, (snd w) \<lparr> sl_bits := bs, sl_hashPairs := Map.empty \<rparr>))"

text \<open>The error of loading is dropped.\<close>

definition NewSlot :: "'s Store \<Rightarrow> 'b slot_env \<Rightarrow> u64 \<Rightarrow> u64 \<Rightarrow> ('b Slot, 's) gom" where
  "NewSlot S E volID capacity s = (case load S E (s, \<lparr> sl_bits = NewBitmap (bits E), sl_cap = capacity, sl_volID = volID, sl_hashPairs = Map.empty \<rparr>)
     of (r, s', sl) \<Rightarrow> (if r = Inl Panic then Inl Panic else Inr sl, s'))"

section \<open>The next free slot\<close>

lemma inc_u64:
  assumes "b < (c :: u64)"
  shows "b < b + 1" and "b + 1 \<le> c"
proof -
  have "unat b < unat c" using assms by (simp add: word_less_nat_alt)
  moreover have "unat c < 2 ^ 64" using unsigned_less [of c] by simp
  ultimately have "unat b + 1 < 2 ^ 64" by linarith
  then have "unat (b + 1) = unat b + 1" by (simp add: unat_word_ariths)
  then show "b < b + 1" and "b + 1 \<le> c"
    using \<open>unat b < unat c\<close> by (simp_all add: word_less_nat_alt word_le_nat_alt)
qed

lemma next_scan_spec:
  assumes "sorted_wrt (<) bs" and "\<And>b. b \<in> set bs \<Longrightarrow> idx \<le> b \<and> b < capacity" and "idx \<le> capacity"
  shows "idx \<le> next_scan bs idx \<and> next_scan bs idx \<le> capacity \<and> next_scan bs idx \<notin> set bs
    \<and> (\<forall>j. idx \<le> j \<and> j < next_scan bs idx \<longrightarrow> j \<in> set bs)"
  using assms
proof (induction bs arbitrary: idx)
  case (Cons b bs)
  show ?case
  proof (cases "idx = b")
    case False
    then have "idx < b" using Cons.prems(2) [of b] by (simp add: order_less_le)
    moreover have "b < x" if "x \<in> set bs" for x using Cons.prems(1) that by simp
    ultimately show ?thesis using False Cons.prems(3) by force
  next
    case True
    have b: "b < capacity" using Cons.prems(2) by simp
    then have s: "b < b + 1" "b + 1 \<le> capacity" by (rule inc_u64)+
    have le: "b + 1 \<le> x \<and> x < capacity" if "x \<in> set bs" for x
      using Cons.prems(1,2) that by (auto intro: inc_u64(2))
    have "sorted_wrt (<) bs" using Cons.prems(1) by simp
    from Cons.IH [OF this le s(2)] have IH: "b + 1 \<le> next_scan bs (b + 1)" "next_scan bs (b + 1) \<le> capacity"
      "next_scan bs (b + 1) \<notin> set bs" "\<And>j. b + 1 \<le> j \<Longrightarrow> j < next_scan bs (b + 1) \<Longrightarrow> j \<in> set bs" by auto
    have "b < next_scan bs (b + 1)" using s(1) IH(1) by (rule less_le_trans)
    moreover have "j = b \<or> b + 1 \<le> j" if "b \<le> j" for j
      using that inc_u64(2) [of b j] by (cases "j = b") (simp_all add: order_less_le)
    ultimately show ?thesis using True IH by fastforce
  qed
qed auto

text \<open>A pass that ends where it began never ends the loop.\<close>

lemma next_loop_stuck:
  assumes "next_scan bs idx = idx" and "\<not> idx < capacity"
  shows "next_loop bs capacity idx = None"
proof (rule ccontr)
  assume "next_loop bs capacity idx \<noteq> None"
  then obtain y where "next_loop bs capacity idx = Some y" by blast
  then have "next_scan bs idx = idx \<longrightarrow> idx < capacity"
    by (induction rule: next_loop.raw_induct [rotated 1, consumes 1, case_names step])
      (auto simp: Let_def split: if_splits)
  with assms show False by blast
qed

text \<open>Every occupied slot is a slot of the volume.\<close>

definition slots_ok :: "('b \<Rightarrow> u64 set) \<Rightarrow> 'b Slot \<Rightarrow> bool" where
  "slots_ok elems sl \<longleftrightarrow> (\<forall>i \<in> elems (sl_bits sl). i < sl_cap sl)"

context slot_bits
begin

lemma Next_spec:
  assumes ok: "slots_ok elems sl" and E: "bits E = B"
  shows "if \<exists>i < sl_cap sl. i \<notin> elems (sl_bits sl)
    then \<exists>i. Next E sl = Some i \<and> i < sl_cap sl \<and> i \<notin> elems (sl_bits sl) \<and> (\<forall>j < i. j \<in> elems (sl_bits sl))
    else Next E sl = None"
proof -
  let ?bs = "Iterator B (sl_bits sl)" and ?r = "next_scan (Iterator B (sl_bits sl)) 0"
  have "0 \<le> b \<and> b < sl_cap sl" if "b \<in> set ?bs" for b using that ok by (simp add: elems_iter(1) slots_ok_def)
  then have "0 \<le> ?r \<and> ?r \<le> sl_cap sl \<and> ?r \<notin> set ?bs \<and> (\<forall>j. 0 \<le> j \<and> j < ?r \<longrightarrow> j \<in> set ?bs)"
    by (intro next_scan_spec elems_iter(2)) auto
  then have r: "?r \<le> sl_cap sl" "?r \<notin> elems (sl_bits sl)"
    "\<And>j. j < ?r \<Longrightarrow> j \<in> elems (sl_bits sl)" by (auto simp: elems_iter(1))
  show ?thesis
  proof (cases "?r < sl_cap sl")
    case True
    then have "Next E sl = Some ?r" by (simp add: Next_def E next_loop.simps)
    then show ?thesis using True r by auto
  next
    case False
    then have c: "?r = sl_cap sl" using r(1) by simp
    have "next_scan ?bs (sl_cap sl) = sl_cap sl"
    proof (cases ?bs)
      case (Cons b bs)
      then have "b < sl_cap sl" using ok elems_iter(1) [of "sl_bits sl"] by (auto simp: slots_ok_def)
      then show ?thesis using Cons by auto
    qed simp
    then have "next_loop ?bs (sl_cap sl) (sl_cap sl) = None" by (rule next_loop_stuck) simp
    then have "Next E sl = None" using c by (subst Next_def, subst next_loop.simps) (simp add: E Let_def)
    moreover have "\<not> (\<exists>i < sl_cap sl. i \<notin> elems (sl_bits sl))" using r(3) c by auto
    ultimately show ?thesis by (simp only: if_False)
  qed
qed

end

section \<open>The store\<close>

definition bh_prefix :: "u64 \<Rightarrow> string" where "bh_prefix v = ''slot_hash_'' @ fmt_d (unat v) @ ''/''"

definition bh_key :: "u64 \<Rightarrow> u64 \<Rightarrow> string" where "bh_key v i = bh_prefix v @ fmt_d (unat i)"

definition bh_doc :: "blockHash \<Rightarrow> blob" where
  "bh_doc h = JsonDoc (JObj [(''VolId'', JNum (uint (bh_VolId h))), (''Slot'', JNum (uint (bh_Slot h))), (''Hash'', JStr (bh_Hash h))])"

lemma blockHash_doc [simp]: "blockHash_Deserialize (bh_doc h) = Inr h"
proof -
  have "map to_lower ''VolId'' = ''volid''" "map to_lower ''Slot'' = ''slot''" "map to_lower ''Hash'' = ''hash''" by code_simp+
  then show ?thesis
    by (cases h) (simp add: blockHash_Deserialize_def bh_doc_def unmarshal_def blockHash_member_def Let_def del: list.map)
qed

lemma Slot_Format_neq [simp]: "Slot_Format v \<noteq> bh_key w i" "bh_key w i \<noteq> Slot_Format v"
proof -
  have "CHR ''/'' \<in> set (bh_key w i)" "CHR ''/'' \<notin> set (Slot_Format v)"
    by (simp_all add: bh_key_def bh_prefix_def Slot_Format_def fmt_d_no)
  then show "Slot_Format v \<noteq> bh_key w i" "bh_key w i \<noteq> Slot_Format v" by auto
qed

lemma bh_key_simps [simp]:
  "bh_key v i = bh_key w j \<longleftrightarrow> v = w \<and> i = j" "norm_key (bh_key v i) = bh_key v i" "norm_key (Slot_Format v) = Slot_Format v"
  using norm_key_digits [of "bh_prefix v"] norm_key_digits [of "''slot_''"]
  by (simp_all add: bh_key_def bh_prefix_def Slot_Format_def fmt_d_sep_inject unat_inject)

lemma in_bucket_bh: "in_bucket (bh_prefix v) x \<longleftrightarrow> prefix (bh_prefix v) x"
  using in_bucket_slash [of "''slot_hash_'' @ fmt_d (unat v)"] by (simp add: bh_prefix_def last_fmt_d)

lemma in_bucket_bh_simps [simp]: "in_bucket (bh_prefix v) (bh_key v i)" "\<not> in_bucket (bh_prefix v) (Slot_Format w)"
proof -
  have "CHR ''/'' \<in> set (bh_prefix v)" "CHR ''/'' \<notin> set (Slot_Format w)"
    by (simp_all add: bh_prefix_def Slot_Format_def fmt_d_no)
  then show "\<not> in_bucket (bh_prefix v) (Slot_Format w)" unfolding in_bucket_bh by (meson set_mono_prefix subsetD)
qed (simp add: in_bucket_bh bh_key_def)

lemma bh_ser_simps [simp]:
  "no_hooks (bh_ser h)" "FormatKey (bh_ser h) = bh_key (bh_VolId h) (bh_Slot h)"
  "FormatPrefix (bh_ser h) = bh_prefix (bh_VolId h)" "Serialize (bh_ser h) = Inr (bh_doc h)"
  "Deserialize (bh_ser h) = blockHash_Deserialize"
  by (simp_all add: bh_ser_def no_hooks_def bh_key_def bh_prefix_def blockHash_FormatKey_def blockHash_FormatPrefix_def
      blockHash_Serialize_def bh_doc_def)

lemma inStore_run [run_simps]: "inStore p (s, sl) = (case p s of (r, t) \<Rightarrow> (r, t, sl))"
  by (simp add: inStore_def)

lemma delete_hash_run:
  "DoDeleteByKey spec_store False (Some (bh_ser h)) m = (Inr (), m \<lparr> committed := kv_del (bh_key (bh_VolId h) (bh_Slot h)) (committed m) \<rparr>)"
  using bh_ser_simps(1) [of h] by (simp add: DoDeleteByKey_def no_hooks_def run_simps)

lemma Slot_Free_run:
  assumes "\<not> sl_cap sl < offset" and "CheckedRemove (bits E) offset (sl_bits sl) = (True, bs)" and "FindKey E (sl_hashPairs sl) offset = Some hash"
  shows "Slot_Free spec_store E offset (m, sl) = (Inr hash, m \<lparr> committed := kv_del (bh_key (sl_volID sl) offset) (committed m) \<rparr>, sl \<lparr> sl_bits := bs \<rparr>)"
  using assms by (simp add: Slot_Free_def bindE_run returnE_run inStore_run delete_hash_run newBlockHashQuery_def Let_def)

text \<open>
  The store holds the bitmap, and exactly the hashes of the table, each under its slot.
\<close>

definition saved :: "'b bitmap \<Rightarrow> ('b \<Rightarrow> u64 set) \<Rightarrow> kv \<Rightarrow> 'b Slot \<Rightarrow> bool" where
  "saved B elems kv sl \<longleftrightarrow> kv_ok kv
     \<and> (\<exists>b d. map_of kv (Slot_Format (sl_volID sl)) = Some d \<and> MarshalBinary B b = Inr d \<and> elems b = elems (sl_bits sl))
     \<and> (\<forall>x d. in_bucket (bh_prefix (sl_volID sl)) x \<longrightarrow> map_of kv x = Some d \<longrightarrow>
          (\<exists>h. blockHash_Deserialize d = Inr h \<and> x = bh_key (sl_volID sl) (bh_Slot h) \<and> sl_hashPairs sl (bh_Hash h) = Some (bh_Slot h)))
     \<and> (\<forall>hash i. sl_hashPairs sl hash = Some i \<longrightarrow> map_of kv (bh_key (sl_volID sl) i) = Some (bh_doc (newBlockHash (sl_volID sl) i hash)))"

lemma put_hashes_Some:
  assumes "\<And>p q. p \<in> set hs \<Longrightarrow> q \<in> set hs \<Longrightarrow> bh_Hash p = bh_Hash q \<Longrightarrow> p = q"
  shows "put_hashes hs m k = Some v \<longleftrightarrow> (\<exists>h \<in> set hs. bh_Hash h = k \<and> bh_Slot h = v) \<or> m k = Some v \<and> (\<forall>h \<in> set hs. bh_Hash h \<noteq> k)"
  using assms
proof (induction hs arbitrary: m)
  case (Cons h hs)
  have "put_hashes hs (m(bh_Hash h \<mapsto> bh_Slot h)) k = Some v \<longleftrightarrow> (\<exists>h \<in> set hs. bh_Hash h = k \<and> bh_Slot h = v)
      \<or> (m(bh_Hash h \<mapsto> bh_Slot h)) k = Some v \<and> (\<forall>h \<in> set hs. bh_Hash h \<noteq> k)"
    by (rule Cons.IH) (use Cons.prems in simp)
  moreover have "q = h" if "q \<in> set hs" "bh_Hash q = bh_Hash h" for q using Cons.prems [of q h] that by simp
  ultimately show ?case by (auto split: if_splits)
qed simp

lemma Occupy_run:
  assumes "offset < sl_cap sl" and "CheckedAdd (bits E) offset (sl_bits sl) = (True, bs)" and "MarshalBinary (bits E) bs = Inr d"
  shows "Occupy spec_store E offset hash (m, sl) = (Inr (),
     m \<lparr> committed := kv_ins (Slot_Format (sl_volID sl)) d (kv_ins (bh_key (sl_volID sl) offset)
       (bh_doc (newBlockHash (sl_volID sl) offset hash)) (committed m)) \<rparr>,
     sl \<lparr> sl_bits := bs, sl_hashPairs := (sl_hashPairs sl)(hash \<mapsto> offset) \<rparr>)"
proof -
  have "\<not> sl_cap sl < offset + 1" using inc_u64(2) [OF assms(1)] by simp
  then show ?thesis using assms(2,3)
    by (simp add: Occupy_def persistSlot_def persistState_def tryE_run inStore_run save_run spec_store_simps spec_write_run newBlockHash_def)
qed

context slot_bits
begin

lemma saved_occupy:
  assumes sv: "saved B elems kv sl" and d: "MarshalBinary B bs = Inr d"
    and bs: "elems bs = insert i (elems (sl_bits sl))" and i: "i \<notin> ran (sl_hashPairs sl)" and h: "sl_hashPairs sl hash = None"
  shows "saved B elems (kv_ins (Slot_Format (sl_volID sl)) d
      (kv_ins (bh_key (sl_volID sl) i) (bh_doc (newBlockHash (sl_volID sl) i hash)) kv))
    (sl \<lparr> sl_bits := bs, sl_hashPairs := (sl_hashPairs sl)(hash \<mapsto> i) \<rparr>)"
  unfolding saved_def
proof (intro conjI allI impI)
  show "kv_ok (kv_ins (Slot_Format (sl_volID sl)) d (kv_ins (bh_key (sl_volID sl) i) (bh_doc (newBlockHash (sl_volID sl) i hash)) kv))"
    using sv by (auto simp: saved_def)
  fix x c
  assume x: "in_bucket (bh_prefix (sl_volID (sl \<lparr> sl_bits := bs, sl_hashPairs := (sl_hashPairs sl)(hash \<mapsto> i) \<rparr>))) x"
    and c: "map_of (kv_ins (Slot_Format (sl_volID sl)) d
      (kv_ins (bh_key (sl_volID sl) i) (bh_doc (newBlockHash (sl_volID sl) i hash)) kv)) x = Some c"
  show "\<exists>q. blockHash_Deserialize c = Inr q
      \<and> x = bh_key (sl_volID (sl \<lparr> sl_bits := bs, sl_hashPairs := (sl_hashPairs sl)(hash \<mapsto> i) \<rparr>)) (bh_Slot q)
      \<and> sl_hashPairs (sl \<lparr> sl_bits := bs, sl_hashPairs := (sl_hashPairs sl)(hash \<mapsto> i) \<rparr>) (bh_Hash q) = Some (bh_Slot q)"
  proof (cases "x = bh_key (sl_volID sl) i")
    case True
    then show ?thesis using c by (intro exI [of _ "newBlockHash (sl_volID sl) i hash"]) (auto simp: newBlockHash_def)
  next
    case False
    moreover have "x \<noteq> Slot_Format (sl_volID sl)" using x by auto
    ultimately have "map_of kv x = Some c" using c by simp
    moreover have "in_bucket (bh_prefix (sl_volID sl)) x" using x by simp
    ultimately obtain q where "blockHash_Deserialize c = Inr q" "x = bh_key (sl_volID sl) (bh_Slot q)"
        "sl_hashPairs sl (bh_Hash q) = Some (bh_Slot q)"
      using sv unfolding saved_def by blast
    then show ?thesis using h by (intro exI [of _ q]) auto
  qed
qed (use sv d bs i h in \<open>auto simp: saved_def newBlockHash_def ran_def split: if_splits\<close>)

lemma NewSlot_saved:
  assumes sv: "saved B elems (committed m) sl" and E: "bits E = B" and ord: "order_ok (hash_order E)"
  obtains sl' where "NewSlot spec_store E (sl_volID sl) capacity m = (Inr sl', m)"
    and "elems (sl_bits sl') = elems (sl_bits sl)" and "sl_hashPairs sl' = sl_hashPairs sl"
    and "sl_cap sl' = capacity" and "sl_volID sl' = sl_volID sl"
proof -
  let ?v = "sl_volID sl" and ?kv = "committed m"
  obtain b d where d: "map_of ?kv (Slot_Format ?v) = Some d" "MarshalBinary B b = Inr d" "elems b = elems (sl_bits sl)"
    using sv by (auto simp: saved_def)
  obtain bs where bs: "UnmarshalBinary B d (NewBitmap B) = (None, bs)" "elems bs = elems (sl_bits sl)"
    using elems_marshal [of b] d by (metis prod.collapse sum.inject(2))
  have row: "\<exists>h. blockHash_Deserialize c = Inr h \<and> x = bh_key ?v (bh_Slot h) \<and> sl_hashPairs sl (bh_Hash h) = Some (bh_Slot h)"
    if "in_bucket (bh_prefix ?v) x" "map_of ?kv x = Some c" for x c using sv that by (simp add: saved_def)
  have stored: "map_of ?kv (bh_key ?v i) = Some (bh_doc (newBlockHash ?v i hash))" if "sl_hashPairs sl hash = Some i" for hash i
    using sv that by (simp add: saved_def)
  obtain r where r: "rows (bh_prefix ?v) blockHash_Deserialize ?kv = Inr r"
    and mem: "\<And>k h. (k, h) \<in> set r \<longleftrightarrow> in_bucket (bh_prefix ?v) k \<and> (\<exists>c. map_of ?kv k = Some c \<and> blockHash_Deserialize c = Inr h)"
  proof (rule rows_all [of ?kv "bh_prefix ?v" blockHash_Deserialize])
    show "kv_ok ?kv" using sv by (simp add: saved_def)
  qed (use row in blast)+
  define hs where "hs = hash_order E r"
  have hs: "h \<in> set hs \<longleftrightarrow> (\<exists>hash i. sl_hashPairs sl hash = Some i \<and> h = newBlockHash ?v i hash)" for h
  proof -
    have "h \<in> set hs \<longleftrightarrow> (\<exists>k. (k, h) \<in> set r)" unfolding hs_def order_okD [OF ord] by force
    also have "\<dots> \<longleftrightarrow> (\<exists>hash i. sl_hashPairs sl hash = Some i \<and> h = newBlockHash ?v i hash)"
    proof
      assume "\<exists>k. (k, h) \<in> set r"
      then obtain k c where c: "in_bucket (bh_prefix ?v) k" "map_of ?kv k = Some c" "blockHash_Deserialize c = Inr h"
        using mem by blast
      then have k: "k = bh_key ?v (bh_Slot h)" "sl_hashPairs sl (bh_Hash h) = Some (bh_Slot h)" using row [OF c(1,2)] by auto
      from stored [OF k(2)] c(2) k(1) have "c = bh_doc (newBlockHash ?v (bh_Slot h) (bh_Hash h))" by simp
      with c(3) have "h = newBlockHash ?v (bh_Slot h) (bh_Hash h)" by (metis blockHash_doc sum.inject(2))
      with k(2) show "\<exists>hash i. sl_hashPairs sl hash = Some i \<and> h = newBlockHash ?v i hash" by blast
    qed (use mem stored in force)
    finally show ?thesis .
  qed
  have inj: "p = q" if "p \<in> set hs" "q \<in> set hs" "bh_Hash p = bh_Hash q" for p q
    using that by (auto simp: hs newBlockHash_def)
  have "put_hashes hs Map.empty k = Some v \<longleftrightarrow> sl_hashPairs sl k = Some v" for k v
  proof -
    have "put_hashes hs Map.empty k = Some v \<longleftrightarrow> (\<exists>h \<in> set hs. bh_Hash h = k \<and> bh_Slot h = v)"
      by (subst put_hashes_Some) (use inj in auto)
    also have "\<dots> \<longleftrightarrow> sl_hashPairs sl k = Some v"
      unfolding Bex_def hs by (force simp: newBlockHash_def)
    finally show ?thesis .
  qed
  then have tab: "put_hashes hs Map.empty = sl_hashPairs sl" by (intro ext) (metis option.exhaust)
  show thesis
    by (rule that [of "\<lparr> sl_bits = bs, sl_cap = capacity, sl_volID = ?v, sl_hashPairs = put_hashes hs Map.empty \<rparr>"])
      (use d(1) bs r tab in \<open>simp_all add: NewSlot_def load_def bindE_run inStore_run spec_store_simps spec_read_run lookup_kv_def E
        rows_run newBlockHashQuery_def hs_def\<close>)
qed

end

lemma persistSlot_slot: "snd (snd (persistSlot S E offset hash w)) = snd w"
  by (auto simp: persistSlot_def persistState_def inStore_def tryE_def split: prod.splits sum.splits)

lemma Occupy_in_range: "\<not> capacity < offset + 1 \<Longrightarrow> offset \<noteq> - 1 \<Longrightarrow> offset < (capacity :: u64)"
proof -
  assume "\<not> capacity < offset + 1" and "offset \<noteq> - 1"
  moreover from this(2) have "offset < - 1" using max_word_max [of offset] by (simp add: order_less_le)
  then have "offset < offset + 1" by (rule inc_u64(1))
  ultimately show ?thesis by (simp add: not_less order_less_le_trans)
qed

context slot_bits
begin

lemma size_in_range:
  assumes ok: "slots_ok elems sl" and E: "bits E = B"
  shows "unat (Remains E sl) + unat (Slot_Size E sl) = unat (sl_cap sl) \<and> unat (Slot_Size E sl) = card (elems (sl_bits sl))"
proof -
  have sub: "unat ` elems (sl_bits sl) \<subseteq> {..< unat (sl_cap sl)}"
    using ok by (auto simp: slots_ok_def word_less_nat_alt)
  have "card (elems (sl_bits sl)) = card (unat ` elems (sl_bits sl))"
    by (rule card_image [symmetric]) (simp add: inj_on_def unat_inject)
  also have "\<dots> \<le> unat (sl_cap sl)" using card_mono [OF _ sub] by simp
  finally have le: "card (elems (sl_bits sl)) \<le> unat (sl_cap sl)" .
  moreover have "unat (sl_cap sl) < 2 ^ 64" using unsigned_less [of "sl_cap sl"] by simp
  ultimately have "card (elems (sl_bits sl)) < 2 ^ 64" by linarith
  then have size: "unat (GetCardinality B (sl_bits sl)) = card (elems (sl_bits sl))" by (simp add: elems_card)
  then have "GetCardinality B (sl_bits sl) \<le> sl_cap sl" using le by (simp add: word_le_nat_alt)
  then show ?thesis using size le by (simp add: Remains_def Slot_Size_def E unat_sub)
qed

end

section \<open>A bitmap\<close>

text \<open>Lists of numbers, as a bitmap to run examples on.\<close>

definition list_bitmap :: "u64 list bitmap" where
  "list_bitmap = \<lparr> NewBitmap = [], CheckedAdd = \<lambda>x b. (x \<notin> set b, x # b), CheckedRemove = \<lambda>x b. (x \<in> set b, filter (\<lambda>y. y \<noteq> x) b),
     Contains = \<lambda>b x. x \<in> set b, Iterator = \<lambda>b. sorted_list_of_set (set b), GetCardinality = \<lambda>b. of_nat (card (set b)),
     MarshalBinary = \<lambda>b. Inr (JsonDoc (JArr (map (\<lambda>w. JNum (uint w)) b))),
     UnmarshalBinary = \<lambda>d c. (case d of JsonDoc (JArr js) \<Rightarrow> (None, map (\<lambda>j. case j of JNum n \<Rightarrow> word_of_int n | _ \<Rightarrow> 0) js)
       | _ \<Rightarrow> (Some JsonErr, c)) \<rparr>"

interpretation lbits: slot_bits list_bitmap set
proof
  show "sorted_wrt (<) (Iterator list_bitmap b)" for b
    using strict_sorted_list_of_set [of "set b"] by (simp add: list_bitmap_def)
  show "unat (GetCardinality list_bitmap b) = card (set b) mod 2 ^ 64" for b
    by (simp add: list_bitmap_def unat_of_nat)
qed (auto simp: list_bitmap_def o_def)

definition list_env :: "u64 list slot_env" where
  "list_env = \<lparr> bits = list_bitmap, FindKey = \<lambda>m v. if m ''ab'' = Some v then Some ''ab'' else None, hash_order = map snd \<rparr>"

lemma list_env_bits [simp]: "bits list_env = list_bitmap" "hash_order list_env = map snd"
  by (simp_all add: list_env_def)

lemma u64_less_2: "(i :: u64) < 2 \<Longrightarrow> i = 0 \<or> i = 1"
proof -
  assume "i < 2"
  then have "unat i < 2" by (simp add: word_less_nat_alt)
  then have "unat i = unat (0 :: u64) \<or> unat i = unat (1 :: u64)" by (simp add: numeral_2_eq_2 less_Suc_eq)
  then show ?thesis by (simp only: unat_inject)
qed

section \<open>Properties\<close>

text \<open>
  C22. \<^verbatim>\<open>Next\<close> returns the smallest slot that is not occupied, when there is one. When all slots are occupied it never
  returns.
\<close>

theorem next_smallest_free:
  assumes "slot_bits (bits E) elems" and "slots_ok elems sl"
  shows "if \<exists>i < sl_cap sl. \<not> Occupied E i sl
    then \<exists>i. Next E sl = Some i \<and> i < sl_cap sl \<and> \<not> Occupied E i sl \<and> (\<forall>j < i. Occupied E j sl)
    else Next E sl = None"
  using slot_bits.Next_spec [OF assms refl] slot_bits.elems_contains [OF assms(1)] by (simp add: Occupied_def)

theorem next_smallest_free_witness:
  "Next list_env \<lparr> sl_bits = [1, 0], sl_cap = 2, sl_volID = 5, sl_hashPairs = Map.empty \<rparr> = None"
proof -
  have "\<not> (\<exists>i < 2. \<not> Occupied list_env i \<lparr> sl_bits = [1, 0], sl_cap = 2, sl_volID = 5, sl_hashPairs = Map.empty \<rparr>)"
    by (auto simp: Occupied_def list_bitmap_def dest: u64_less_2)
  then show ?thesis
    using next_smallest_free [of list_env set "\<lparr> sl_bits = [1, 0], sl_cap = 2, sl_volID = 5, sl_hashPairs = Map.empty \<rparr>"]
      lbits.slot_bits_axioms by (simp add: slots_ok_def)
qed



text \<open>
  C0. Freeing a slot leaves its hash in the table: the hash of the freed block still finds the slot, and when the slot is
  occupied by another block both hashes find it.
\<close>

theorem freed_hash_stays:
  assumes B: "slot_bits (bits E) elems" and i: "i < sl_cap sl" "Occupied E i sl"
    and h: "GetSlot hash sl = Inr i" "FindKey E (sl_hashPairs sl) i = Some found"
  shows "\<exists>m1 sl1 m2 sl2. Slot_Free spec_store E i (m, sl) = (Inr found, m1, sl1) \<and> \<not> Occupied E i sl1
    \<and> GetSlot hash sl1 = Inr i \<and> Occupy spec_store E i other (m1, sl1) = (Inr (), m2, sl2)
    \<and> GetSlot hash sl2 = Inr i \<and> GetSlot other sl2 = Inr i"
proof -
  note con = slot_bits.elems_contains [OF B]
  obtain bs where bs: "CheckedRemove (bits E) i (sl_bits sl) = (True, bs)" "elems bs = elems (sl_bits sl) - {i}"
    using slot_bits.elems_remove [OF B, of i "sl_bits sl"] i(2) con by (auto simp: Occupied_def prod_eq_iff)
  let ?sl = "sl \<lparr> sl_bits := bs \<rparr>"
  let ?m = "m \<lparr> committed := kv_del (bh_key (sl_volID sl) i) (committed m) \<rparr>"
  have free: "Slot_Free spec_store E i (m, sl) = (Inr found, ?m, ?sl)"
    using Slot_Free_run [OF _ bs(1) h(2)] i(1) by simp
  obtain bs' where bs': "CheckedAdd (bits E) i bs = (True, bs')"
    using slot_bits.elems_add(2) [OF B, of i bs] bs(2) by (cases "CheckedAdd (bits E) i bs") simp
  obtain d where "MarshalBinary (bits E) bs' = Inr d" using slot_bits.elems_marshal [OF B, of bs'] by blast
  then have "\<exists>m2. Occupy spec_store E i other (?m, ?sl) = (Inr (), m2, ?sl \<lparr> sl_bits := bs', sl_hashPairs := (sl_hashPairs sl)(other \<mapsto> i) \<rparr>)"
    using Occupy_run [of i ?sl E bs' d other ?m] i(1) bs' by simp
  then show ?thesis using free h(1) bs(2) con by (fastforce simp: Occupied_def GetSlot_def split: option.splits)
qed

theorem freed_hash_stays_witness:
  "\<exists>m1 sl1. Slot_Free spec_store list_env 0 (\<lparr> committed = [], pending = None, seqs = \<lambda>_. 0 \<rparr>,
      \<lparr> sl_bits = [0], sl_cap = 2, sl_volID = 5, sl_hashPairs = [''ab'' \<mapsto> 0] \<rparr>) = (Inr ''ab'', m1, sl1)
    \<and> GetSlot ''ab'' sl1 = Inr 0"
  using freed_hash_stays [of list_env set 0 "\<lparr> sl_bits = [0], sl_cap = 2, sl_volID = 5, sl_hashPairs = [''ab'' \<mapsto> 0] \<rparr>" "''ab''" "''ab''"
      "\<lparr> committed = [], pending = None, seqs = \<lambda>_. 0 \<rparr>" "''cd''"] lbits.slot_bits_axioms
  by (fastforce simp: Occupied_def GetSlot_def lbits.elems_contains list_env_def)

text \<open>
  C21. Every occupied slot of a volume stays below its capacity, whatever the store answers: occupying and freeing keep
  this, and \<^verbatim>\<open>Remains\<close> and \<^verbatim>\<open>Size\<close> then add up to the capacity without wrapping. The one exception is the last number of
  64 bits, for which the check of \<^verbatim>\<open>Occupy\<close> wraps and lets a slot beyond the capacity in.
\<close>

theorem slots_in_range:
  assumes B: "slot_bits (bits E) elems" and ok: "slots_ok elems sl"
  shows "(if offset = - 1 then \<not> slots_ok elems (snd (snd (Occupy S E offset hash (s, sl))))
      else slots_ok elems (snd (snd (Occupy S E offset hash (s, sl)))))
    \<and> slots_ok elems (snd (snd (Slot_Free S E offset (s, sl))))
    \<and> unat (Remains E sl) + unat (Slot_Size E sl) = unat (sl_cap sl)
    \<and> unat (Slot_Size E sl) = card {i. Occupied E i sl}"
proof -
  note laws = slot_bits.elems_add [OF B, of offset "sl_bits sl"] slot_bits.elems_remove [OF B, of offset "sl_bits sl"]
  have "slots_ok elems (snd (snd (Occupy S E offset hash (s, sl))))" if "offset \<noteq> - 1"
    using ok laws that Occupy_in_range [of "sl_cap sl" offset]
    by (auto simp: Occupy_def persistSlot_slot slots_ok_def not_less split: prod.splits)
  moreover have "\<not> slots_ok elems (snd (snd (Occupy S E (- 1) hash (s, sl))))"
    using slot_bits.elems_add(1) [OF B, of "- 1" "sl_bits sl"] by (auto simp: Occupy_def persistSlot_slot slots_ok_def split: prod.splits)
  moreover have "slots_ok elems (snd (snd (Slot_Free S E offset (s, sl))))"
    using ok laws by (auto simp: Slot_Free_def slots_ok_def bindE_run returnE_run inStore_run Let_def
        split: prod.splits option.splits sum.splits)
  ultimately show ?thesis using slot_bits.size_in_range [OF B ok refl] by (auto simp: slot_bits.elems_contains [OF B] Occupied_def)
qed

theorem slots_in_range_witness:
  "\<not> slots_ok set (snd (snd (Occupy spec_store list_env (- 1) ''ab'' (\<lparr> committed = [], pending = None, seqs = \<lambda>_. 0 \<rparr>,
      \<lparr> sl_bits = [0], sl_cap = 2, sl_volID = 5, sl_hashPairs = [''ab'' \<mapsto> 0] \<rparr>))))"
  using slots_in_range [of list_env set "\<lparr> sl_bits = [0], sl_cap = 2, sl_volID = 5, sl_hashPairs = [''ab'' \<mapsto> 0] \<rparr>" "- 1" spec_store
      "''ab''" "\<lparr> committed = [], pending = None, seqs = \<lambda>_. 0 \<rparr>"] lbits.slot_bits_axioms
  by (simp add: slots_ok_def)

end
