(* ===== verification/Block_Engine.thy ===== *)
theory Block_Engine
  imports Block_Format KV_Store
begin

text \<open>
  \<^verbatim>\<open>src/pkg/storage/engine\<close>: \<^verbatim>\<open>engine.go\<close> and the file-system engine of \<^verbatim>\<open>base.go\<close>, which keeps every block in a file named after
  its slot. The file system is the third-party package \<^verbatim>\<open>afero\<close>, given by the calls the engine makes and the contract
  \<open>afero_fs\<close>. An operation works on the file system and on a second state, the one its callback changes. The main results:
  the engine is a map from slots to blocks that never overwrites, and cancelling a block never succeeds.
\<close>

section \<open>The file system\<close>

text \<open>
  Files are read whole or written right after they are opened, so a handle is its name, and there is one write for a handle
  of \<^verbatim>\<open>Create\<close> and one for a handle of \<^verbatim>\<open>Open\<close>. \<^verbatim>\<open>ReadAt\<close> returns the bytes it read.
\<close>

record 'f Fs =
  Fs_Stat :: "string \<Rightarrow> 'f \<Rightarrow> bool"
  Fs_Open :: "string \<Rightarrow> 'f \<Rightarrow> error option"
  Fs_ReadAt :: "string \<Rightarrow> nat \<Rightarrow> nat \<Rightarrow> 'f \<Rightarrow> bytes \<times> error option"
  Fs_Create :: "string \<Rightarrow> 'f \<Rightarrow> error option \<times> 'f"
  Fs_Write :: "string \<Rightarrow> bytes \<Rightarrow> 'f \<Rightarrow> error option \<times> 'f"
  Fs_WriteOpened :: "string \<Rightarrow> bytes \<Rightarrow> 'f \<Rightarrow> error option \<times> 'f"
  Fs_Remove :: "string \<Rightarrow> 'f \<Rightarrow> error option \<times> 'f"

text \<open>
  What a file system promises: \<^verbatim>\<open>Create\<close> makes an empty file; a write to it stores the data, or a part of it when it fails; a
  file that is opened with \<^verbatim>\<open>Open\<close> can only be read; other calls that fail change nothing.
\<close>

locale afero_fs =
  fixes F :: "'f Fs" and files :: "'f \<Rightarrow> string \<rightharpoonup> bytes"
  assumes stat: "Fs_Stat F n f \<longleftrightarrow> files f n \<noteq> None"
    and opened: "Fs_Open F n f = None \<longleftrightarrow> files f n \<noteq> None"
    and read_at: "files f n = Some d \<Longrightarrow> fst (Fs_ReadAt F n len off f) = take len (drop off d)
      \<and> (snd (Fs_ReadAt F n len off f) = None \<longleftrightarrow> off + len \<le> length d)"
    and create: "fst (Fs_Create F n f) = None \<Longrightarrow> files (snd (Fs_Create F n f)) = (files f)(n \<mapsto> [])"
    and create_fails: "fst (Fs_Create F n f) \<noteq> None \<Longrightarrow> files (snd (Fs_Create F n f)) = files f"
    and writes: "files f n = Some [] \<Longrightarrow> fst (Fs_Write F n d f) = None \<Longrightarrow> files (snd (Fs_Write F n d f)) = (files f)(n \<mapsto> d)"
    and write_fails: "files f n = Some [] \<Longrightarrow> fst (Fs_Write F n d f) \<noteq> None \<Longrightarrow>
      \<exists>k. files (snd (Fs_Write F n d f)) = (files f)(n \<mapsto> take k d)"
    and write_opened: "fst (Fs_WriteOpened F n d f) \<noteq> None" "files (snd (Fs_WriteOpened F n d f)) = files f"
    and remove: "fst (Fs_Remove F n f) = None \<Longrightarrow> files (snd (Fs_Remove F n f)) = (files f)(n := None)"
    and remove_fails: "fst (Fs_Remove F n f) \<noteq> None \<Longrightarrow> files (snd (Fs_Remove F n f)) = files f"

section \<open>Operations\<close>

record DataContainer =
  dc_Index :: u64
  dc_Data :: bytes
  dc_Hash :: bytes
  dc_Crc :: u32

record Location =
  loc_VolID :: u64
  loc_Slot :: u64

definition NewLocation :: "u64 \<Rightarrow> u64 \<Rightarrow> Location" where
  "NewLocation volID slot = \<lparr> loc_VolID = volID, loc_Slot = slot \<rparr>"

abbreviation EngErrNotFound :: error where "EngErrNotFound \<equiv> ErrOther ''not found''"
abbreviation ErrBlockCorrupted :: error where "ErrBlockCorrupted \<equiv> ErrOther ''block is corrupted''"
abbreviation ErrBlockExisted :: error where "ErrBlockExisted \<equiv> ErrOther ''block already exists''"
abbreviation ErrBlockNotExisted :: error where "ErrBlockNotExisted \<equiv> ErrOther ''block not exists''"
abbreviation InvalidBlock :: error where "InvalidBlock \<equiv> ErrOther ''invalid block''"

text \<open>\<^verbatim>\<open>int\<close> of a 64-bit number keeps its bits.\<close>

definition ToAbs :: "Location \<Rightarrow> string" where
  "ToAbs location = fmt_i (sint (loc_Slot location))"

text \<open>\<^verbatim>\<open>make([]byte, n)\<close> panics beyond the greatest allocation, which on 64-bit systems is \<open>2 ^ 48\<close> bytes.\<close>

definition maxAlloc :: nat where "maxAlloc = 2 ^ 48"

type_synonym ('a, 'f, 'w) engine_op = "('a, 'f \<times> 'w) gom"

definition GetBlockHeader :: "'f Fs \<Rightarrow> Location \<Rightarrow> (Header, 'f, 'w) engine_op" where
  "GetBlockHeader F location w = (case Fs_Open F (ToAbs location) (fst w) of Some _ \<Rightarrow> (Inl EngErrNotFound, w) | None \<Rightarrow>
     (case Fs_ReadAt F (ToAbs location) HeaderSize 0 (fst w) of (buf, err) \<Rightarrow>
       if err \<noteq> None \<or> length buf < HeaderSize then (Inl ErrBlockCorrupted, w)
       else (case DecodeBlockHeader buf of Inl _ \<Rightarrow> (Inl InvalidBlock, w) | Inr header \<Rightarrow> (Inr header, w))))"

definition GetBlockDataCb :: "'f Fs \<Rightarrow> Location \<Rightarrow> (Header \<Rightarrow> (unit, 'f, 'w) engine_op) option \<Rightarrow> (bytes, 'f, 'w) engine_op" where
  "GetBlockDataCb F location cb w = (case Fs_Open F (ToAbs location) (fst w) of Some _ \<Rightarrow> (Inl EngErrNotFound, w) | None \<Rightarrow>
     (case Fs_ReadAt F (ToAbs location) HeaderSize 0 (fst w) of (buf, err) \<Rightarrow>
       if err \<noteq> None \<or> length buf < HeaderSize then (Inl ErrBlockCorrupted, w)
       else (case DecodeBlockHeader buf of Inl _ \<Rightarrow> (Inl InvalidBlock, w) | Inr header \<Rightarrow>
         if unat (DataLen header) > maxAlloc then (Inl Panic, w)
         else (case Fs_ReadAt F (ToAbs location) (unat (DataLen header)) HeaderSize (fst w) of (buf, err) \<Rightarrow>
           if err \<noteq> None \<or> length buf < unat (DataLen header) then (Inl ErrBlockCorrupted, w)
           else (case cb of None \<Rightarrow> (Inr buf, w) | Some cb \<Rightarrow> bindE (cb header) (\<lambda>_. returnE buf) w)))))"

definition GetBlockData :: "'f Fs \<Rightarrow> Location \<Rightarrow> (bytes, 'f, 'w) engine_op" where
  "GetBlockData F location = GetBlockDataCb F location None"

text \<open>\<^verbatim>\<open>NewBlock\<close> and \<^verbatim>\<open>NewBlockWithHash\<close> return no error.\<close>

definition container_block :: "DataContainer \<Rightarrow> Block" where
  "container_block d = (if length (dc_Hash d) > 0 then NewBlockWithHash (dc_Index d) (dc_Data d) (dc_Hash d)
     else NewBlock (dc_Index d) (dc_Data d))"

definition WriteBlockCb :: "'f Fs \<Rightarrow> Location \<Rightarrow> DataContainer \<Rightarrow> (Header \<Rightarrow> (unit, 'f, 'w) engine_op) option \<Rightarrow> (unit, 'f, 'w) engine_op" where
  "WriteBlockCb F location d cb w = (if Fs_Stat F (ToAbs location) (fst w) then (Inl ErrBlockExisted, w)
     else (case Fs_Create F (ToAbs location) (fst w) of (Some e, f) \<Rightarrow> (Inl e, f, snd w)
     | (None, f) \<Rightarrow>
       let blk = container_block d in
       (case Block_Header blk of Inl _ \<Rightarrow> (Inl InvalidBlock, f, snd w) | Inr header \<Rightarrow>
         (case Fs_Write F (ToAbs location) (Raw blk) f of (Some e, f) \<Rightarrow> (Inl e, f, snd w)
         | (None, f) \<Rightarrow> (case cb of None \<Rightarrow> (Inr (), f, snd w) | Some cb \<Rightarrow> cb header (f, snd w))))))"

definition WriteBlock :: "'f Fs \<Rightarrow> Location \<Rightarrow> DataContainer \<Rightarrow> (unit, 'f, 'w) engine_op" where
  "WriteBlock F location d = WriteBlockCb F location d None"

definition CancelBlock :: "'f Fs \<Rightarrow> Location \<Rightarrow> (unit, 'f, 'w) engine_op" where
  "CancelBlock F location w = (case Fs_Open F (ToAbs location) (fst w) of Some _ \<Rightarrow> (Inl EngErrNotFound, w) | None \<Rightarrow>
     (case Fs_ReadAt F (ToAbs location) HeaderSize 0 (fst w) of (buf, err) \<Rightarrow>
       if err \<noteq> None \<or> length buf < HeaderSize then (Inl ErrBlockCorrupted, w)
       else (case DecodeBlockHeader buf of Inl _ \<Rightarrow> (Inl ErrBlockCorrupted, w) | Inr header \<Rightarrow>
         (case Fs_WriteOpened F (ToAbs location) (EncodeBlockHeader (header \<lparr> Canceled := 1 \<rparr>)) (fst w) of
           (Some e, f) \<Rightarrow> (Inl e, f, snd w) | (None, f) \<Rightarrow> (Inr (), f, snd w)))))"

definition DeleteBlock :: "'f Fs \<Rightarrow> Location \<Rightarrow> (unit, 'f, 'w) engine_op" where
  "DeleteBlock F location w = (if \<not> Fs_Stat F (ToAbs location) (fst w) then (Inl ErrBlockNotExisted, w)
     else (case Fs_Remove F (ToAbs location) (fst w) of (Some e, f) \<Rightarrow> (Inl e, f, snd w) | (None, f) \<Rightarrow> (Inr (), f, snd w)))"

section \<open>What the files hold\<close>

lemma ToAbs_inject [simp]: "ToAbs a = ToAbs b \<longleftrightarrow> loc_Slot a = loc_Slot b"
  by (auto simp: ToAbs_def dest: arg_cong [where f = "word_of_int :: int \<Rightarrow> u64"])

text \<open>What reading a file returns.\<close>

definition file_header :: "bytes option \<Rightarrow> error + Header" where
  "file_header d = (case d of None \<Rightarrow> Inl EngErrNotFound | Some raw \<Rightarrow>
     if length raw < HeaderSize then Inl ErrBlockCorrupted
     else (case DecodeBlockHeader raw of Inl _ \<Rightarrow> Inl InvalidBlock | Inr h \<Rightarrow> Inr h))"

definition file_block :: "bytes option \<Rightarrow> error + bytes" where
  "file_block d = (case file_header d of Inl e \<Rightarrow> Inl e | Inr h \<Rightarrow>
     if unat (DataLen h) > maxAlloc then Inl Panic
     else if length (the d) < HeaderSize + unat (DataLen h) then Inl ErrBlockCorrupted
     else Inr (take (unat (DataLen h)) (drop HeaderSize (the d))))"

text \<open>A hash of a container is that of SHA-256, or missing.\<close>

definition container_ok :: "DataContainer \<Rightarrow> bool" where
  "container_ok d \<longleftrightarrow> (dc_Hash d = [] \<or> length (dc_Hash d) = 32) \<and> length (dc_Data d) \<le> maxAlloc"

definition container_header :: "DataContainer \<Rightarrow> Header" where
  "container_header d = \<lparr> Kind = 1, DataLen = of_nat (length (dc_Data d)), Index = dc_Index d, Crc32 = crc32 (dc_Data d),
     Checksum = (if dc_Hash d = [] then sha256 (dc_Data d) else dc_Hash d), Canceled = 0 \<rparr>"

lemma container_file:
  assumes "container_ok d"
  shows "file_header (Some (Raw (container_block d))) = Inr (container_header d)"
    and "file_block (Some (Raw (container_block d))) = Inr (dc_Data d)"
    and "Block_Header (container_block d) = Inr (container_header d)"
proof -
  have n: "unat (of_nat (length (dc_Data d)) :: u64) = length (dc_Data d)"
    using assms by (simp add: container_ok_def maxAlloc_def unat_of_nat)
  have blk: "container_block d = NewBlockWithHash (dc_Index d) (dc_Data d) (Checksum (container_header d))"
    and len: "length (Checksum (container_header d)) = 32"
    using assms by (auto simp: container_block_def container_header_def container_ok_def NewBlock_def)
  show "Block_Header (container_block d) = Inr (container_header d)"
    unfolding blk Block_Header_def using NewBlockWithHash_data [OF len]
    by (simp add: DecodeBlockHeader_def header_layout) (simp add: container_header_def)
  then have h: "DecodeBlockHeader (Raw (container_block d)) = Inr (container_header d)" by (simp add: Block_Header_def Raw_def)
  have l: "length (Raw (container_block d)) = 54 + length (dc_Data d)" "drop 54 (Raw (container_block d)) = dc_Data d"
    unfolding blk Raw_def using NewBlockWithHash_data [OF len] by simp_all
  show "file_header (Some (Raw (container_block d))) = Inr (container_header d)" by (simp add: file_header_def h l HeaderSize_val)
  then show "file_block (Some (Raw (container_block d))) = Inr (dc_Data d)"
    using assms n l by (simp add: file_block_def HeaderSize_val container_ok_def) (simp add: container_header_def n)
qed


lemma Decode_take: "\<not> length raw < HeaderSize \<Longrightarrow> DecodeBlockHeader (take HeaderSize raw) = DecodeBlockHeader raw"
  by (simp add: DecodeBlockHeader_def header_layout subrange_def take_drop)

context afero_fs
begin

lemma header_run: "GetBlockHeader F loc (f, w) = (file_header (files f (ToAbs loc)), f, w)"
proof (cases "files f (ToAbs loc)")
  case None
  then show ?thesis using opened [of "ToAbs loc" f] by (auto simp: GetBlockHeader_def file_header_def split: option.splits)
next
  case (Some raw)
  then show ?thesis using opened [of "ToAbs loc" f] read_at [OF Some, of HeaderSize 0] Decode_take [of raw]
    by (cases "Fs_ReadAt F (ToAbs loc) HeaderSize 0 f") (auto simp: GetBlockHeader_def file_header_def split: sum.splits)
qed

lemma data_run:
  "GetBlockDataCb F loc cb (f, w) = (case file_block (files f (ToAbs loc)) of Inl e \<Rightarrow> (Inl e, f, w)
     | Inr d \<Rightarrow> (case cb of None \<Rightarrow> (Inr d, f, w)
       | Some cb \<Rightarrow> bindE (cb (projr (file_header (files f (ToAbs loc))))) (\<lambda>_. returnE d) (f, w)))"
proof (cases "files f (ToAbs loc)")
  case None
  then show ?thesis using opened [of "ToAbs loc" f]
    by (auto simp: GetBlockDataCb_def file_block_def file_header_def split: option.splits)
next
  case (Some raw)
  have o: "Fs_Open F (ToAbs loc) f = None" using opened [of "ToAbs loc" f] Some by simp
  obtain b e where r: "Fs_ReadAt F (ToAbs loc) HeaderSize 0 f = (b, e)" "b = take HeaderSize raw" "e = None \<longleftrightarrow> \<not> length raw < HeaderSize"
    using read_at [OF Some, of HeaderSize 0] by (cases "Fs_ReadAt F (ToAbs loc) HeaderSize 0 f") auto
  show ?thesis
  proof (cases "length raw < HeaderSize")
    case True
    then show ?thesis using o r Some by (simp add: GetBlockDataCb_def file_block_def file_header_def)
  next
    case False
    note short = False
    show ?thesis
    proof (cases "DecodeBlockHeader raw")
      case (Inl e)
      then show ?thesis using o r Some short Decode_take [of raw] by (simp add: GetBlockDataCb_def file_block_def file_header_def)
    next
      case (Inr h)
      have "fst (Fs_ReadAt F (ToAbs loc) (unat (DataLen h)) HeaderSize f) = take (unat (DataLen h)) (drop HeaderSize raw)"
        "snd (Fs_ReadAt F (ToAbs loc) (unat (DataLen h)) HeaderSize f) = None \<longleftrightarrow> HeaderSize + unat (DataLen h) \<le> length raw"
        using read_at [OF Some, of "unat (DataLen h)" HeaderSize] by blast+
      then show ?thesis using o r Some short Inr Decode_take [of raw]
        by (cases "HeaderSize + unat (DataLen h) \<le> length raw")
          (auto simp: GetBlockDataCb_def file_block_def file_header_def split_beta split: option.splits)
    qed
  qed
qed

lemma read_run: "GetBlockData F loc (f, w) = (file_block (files f (ToAbs loc)), f, w)"
  by (simp add: GetBlockData_def data_run split: sum.splits)

lemma write_run:
  assumes "files f (ToAbs loc) = None" and "fst (Fs_Create F (ToAbs loc) f) = None"
    and "fst (Fs_Write F (ToAbs loc) (Raw (container_block d)) (snd (Fs_Create F (ToAbs loc) f))) = None" and "container_ok d"
  obtains f' where "WriteBlock F loc d (f, w) = (Inr (), f', w)" and "files f' = (files f)(ToAbs loc \<mapsto> Raw (container_block d))"
proof -
  obtain g where g: "Fs_Create F (ToAbs loc) f = (None, g)" "files g = (files f)(ToAbs loc \<mapsto> [])"
    using create assms(2) by (metis prod.collapse)
  obtain h where h: "Fs_Write F (ToAbs loc) (Raw (container_block d)) g = (None, h)"
      "files h = (files g)(ToAbs loc \<mapsto> Raw (container_block d))"
    using writes [of g "ToAbs loc" "Raw (container_block d)"] assms(3) g by (metis fun_upd_same prod.collapse snd_conv)
  show thesis
    by (rule that [of h]) (use assms g h container_file(3) [of d] stat [of "ToAbs loc" f] in \<open>simp_all add: WriteBlock_def WriteBlockCb_def Let_def\<close>)
qed

lemma write_existing: "files f (ToAbs loc) \<noteq> None \<Longrightarrow> WriteBlockCb F loc d cb (f, w) = (Inl ErrBlockExisted, f, w)"
  using stat [of "ToAbs loc" f] by (simp add: WriteBlockCb_def)

lemma file_delete_run:
  assumes "fst (Fs_Remove F (ToAbs loc) f) = None" and "files f (ToAbs loc) \<noteq> None"
  obtains f' where "DeleteBlock F loc (f, w) = (Inr (), f', w)" and "files f' = (files f)(ToAbs loc := None)"
  using assms stat [of "ToAbs loc" f] remove [of "ToAbs loc" f]
  by (cases "Fs_Remove F (ToAbs loc) f") (simp add: DeleteBlock_def)

lemma delete_missing: "files f (ToAbs loc) = None \<Longrightarrow> DeleteBlock F loc (f, w) = (Inl ErrBlockNotExisted, f, w)"
  using stat [of "ToAbs loc" f] by (simp add: DeleteBlock_def)

end

section \<open>A file system\<close>

text \<open>Files in memory, after \<^verbatim>\<open>afero.MemMapFs\<close>, on which every call succeeds that can.\<close>

definition mem_fs :: "(string \<rightharpoonup> bytes) Fs" where
  "mem_fs = \<lparr> Fs_Stat = \<lambda>n f. f n \<noteq> None, Fs_Open = \<lambda>n f. if f n = None then Some (ErrOther ''file does not exist'') else None,
     Fs_ReadAt = \<lambda>n len off f. case f n of None \<Rightarrow> ([], Some (ErrOther ''file is closed''))
       | Some d \<Rightarrow> (take len (drop off d), if off + len \<le> length d then None else Some (ErrOther ''EOF'')),
     Fs_Create = \<lambda>n f. (None, f(n \<mapsto> [])), Fs_Write = \<lambda>n d f. (None, f(n \<mapsto> d)),
     Fs_WriteOpened = \<lambda>n d f. (Some (ErrOther ''file handle is read only''), f),
     Fs_Remove = \<lambda>n f. if f n = None then (Some (ErrOther ''file does not exist''), f) else (None, f(n := None)) \<rparr>"

interpretation memfs: afero_fs mem_fs "\<lambda>f. f"
  by unfold_locales (auto simp: mem_fs_def split: if_splits)

section \<open>Properties\<close>

text \<open>
  C24. The engine is a map from slots to blocks. Writing a block to a slot without one succeeds when the file system does, the
  data and the header then read back, with the checksum computed when none was given, other slots read as before, and a
  second write to the slot is refused and changes nothing.
\<close>

theorem engine_write_read:
  assumes A: "afero_fs F files" and free: "files f (ToAbs loc) = None" and d: "container_ok d"
    and "fst (Fs_Create F (ToAbs loc) f) = None"
    and "fst (Fs_Write F (ToAbs loc) (Raw (container_block d)) (snd (Fs_Create F (ToAbs loc) f))) = None"
  shows "\<exists>f'. WriteBlock F loc d (f, w) = (Inr (), f', w)
    \<and> GetBlockData F loc (f', w) = (Inr (dc_Data d), f', w) \<and> GetBlockHeader F loc (f', w) = (Inr (container_header d), f', w)
    \<and> (\<forall>other. loc_Slot other \<noteq> loc_Slot loc \<longrightarrow> fst (GetBlockData F other (f', w)) = fst (GetBlockData F other (f, w)))
    \<and> (\<forall>d2. WriteBlock F loc d2 (f', w) = (Inl ErrBlockExisted, f', w))"
proof -
  note run = afero_fs.read_run [OF A] afero_fs.header_run [OF A]
  obtain f' where f': "WriteBlock F loc d (f, w) = (Inr (), f', w)" "files f' = (files f)(ToAbs loc \<mapsto> Raw (container_block d))"
    by (rule afero_fs.write_run [OF A free assms(4,5) d])
  show ?thesis
    by (rule exI [of _ f']) (use f' container_file(1,2) [OF d] afero_fs.write_existing [OF A, of f' loc _ None w] in \<open>simp add: run WriteBlock_def\<close>)
qed

theorem engine_write_read_witness:
  "\<exists>f'. WriteBlock mem_fs (NewLocation 5 3) \<lparr> dc_Index = 7, dc_Data = [1, 2], dc_Hash = [], dc_Crc = 0 \<rparr> (Map.empty, ()) = (Inr (), f', ())
    \<and> GetBlockData mem_fs (NewLocation 5 3) (f', ()) = (Inr [1, 2], f', ())"
proof -
  have "fst (Fs_Create mem_fs n f) = None" "fst (Fs_Write mem_fs n d f) = None" for n d f by (simp_all add: mem_fs_def)
  moreover have "container_ok \<lparr> dc_Index = 7, dc_Data = [1, 2], dc_Hash = [], dc_Crc = 0 \<rparr>" by (simp add: container_ok_def maxAlloc_def)
  ultimately show ?thesis
    using engine_write_read [OF memfs.afero_fs_axioms, of Map.empty "NewLocation 5 3" "\<lparr> dc_Index = 7, dc_Data = [1, 2], dc_Hash = [], dc_Crc = 0 \<rparr>" "()"]
    by auto
qed

text \<open>
  C0. A block that is deleted is gone: it reads as not found, deleting it again is refused, and other slots
  read as before.
\<close>

theorem engine_delete:
  assumes A: "afero_fs F files" and here: "files f (ToAbs loc) \<noteq> None" and "fst (Fs_Remove F (ToAbs loc) f) = None"
  shows "\<exists>f'. DeleteBlock F loc (f, w) = (Inr (), f', w)
    \<and> GetBlockData F loc (f', w) = (Inl EngErrNotFound, f', w) \<and> DeleteBlock F loc (f', w) = (Inl ErrBlockNotExisted, f', w)
    \<and> (\<forall>other. loc_Slot other \<noteq> loc_Slot loc \<longrightarrow> fst (GetBlockData F other (f', w)) = fst (GetBlockData F other (f, w)))"
proof -
  note run = afero_fs.read_run [OF A]
  obtain f' where f': "DeleteBlock F loc (f, w) = (Inr (), f', w)" "files f' = (files f)(ToAbs loc := None)"
    by (rule afero_fs.file_delete_run [OF A assms(3) here])
  show ?thesis
    by (rule exI [of _ f']) (use f' afero_fs.delete_missing [OF A, of f' loc w] in \<open>simp add: run file_block_def file_header_def\<close>)
qed

theorem engine_delete_witness:
  "\<exists>f'. DeleteBlock mem_fs (NewLocation 5 3) ([''3'' \<mapsto> []], ()) = (Inr (), f', ())
    \<and> GetBlockData mem_fs (NewLocation 5 3) (f', ()) = (Inl EngErrNotFound, f', ())"
proof -
  have "ToAbs (NewLocation 5 3) = ''3''" by code_simp
  moreover have "fst (Fs_Remove mem_fs ''3'' [''3'' \<mapsto> []]) = None" by (simp add: mem_fs_def)
  ultimately show ?thesis using engine_delete [OF memfs.afero_fs_axioms, of "[''3'' \<mapsto> []]" "NewLocation 5 3" "()"] by auto
qed

text \<open>
  C0. Cancelling a block never succeeds, since it writes through a handle that is open for reading: it fails on every file
  system, and no block changes.
\<close>

theorem cancel_fails:
  assumes A: "afero_fs F files"
  shows "\<exists>e f'. CancelBlock F loc (f, w) = (Inl e, f', w) \<and> files f' = files f"
proof -
  have "\<exists>e f'. Fs_WriteOpened F n d f = (Some e, f') \<and> files f' = files f" for n d
    using afero_fs.write_opened [OF A, of n d f] by (cases "Fs_WriteOpened F n d f") auto
  then obtain e f' where "Fs_WriteOpened F n d f = (Some (e n d), f' n d)" "files (f' n d) = files f" for n d by metis
  then show ?thesis by (auto simp: CancelBlock_def split: option.split prod.split sum.split)
qed

theorem cancel_fails_witness: "fst (CancelBlock mem_fs (NewLocation 5 3) (Map.empty, ())) \<noteq> Inr ()"
  using cancel_fails [OF memfs.afero_fs_axioms, of "NewLocation 5 3" Map.empty "()"] by auto

end
