(* ===== verification/Local_Volume.thy ===== *)
theory Local_Volume
  imports Block_Slot Block_Engine
begin

text \<open>
  \<^verbatim>\<open>src/pkg/storage/volume\<close>: a volume on the local disk (\<^verbatim>\<open>physical_local.go\<close>) over its slots and its engine, with the cache of
  recently used blocks (\<^verbatim>\<open>lru.go\<close>), the blocks waiting to be evicted (\<^verbatim>\<open>evit_block.go\<close>) and the usage of the volume
  (\<^verbatim>\<open>physical_volume.go\<close>). The cache is the third-party package \<^verbatim>\<open>golang-lru\<close>, given by its operations and the contract
  \<open>lru_contract\<close>. Operations run one after the other; one that never returns has the value \<^const>\<open>None\<close>. The mutex of the
  eviction manager is part of the state, since one path leaves it locked. What is sent on the channels of the messenger is
  kept as a list, the receivers being ready. The main results: a block that is written reads back; a write to a full volume
  never returns; a block that was removed cannot be written again; and removing an unknown block deletes the block of slot 0.
\<close>

section \<open>Functions that may not return\<close>

type_synonym ('a, 'v) vop = "'v \<Rightarrow> ((error + 'a) \<times> 'v) option"

definition returnV :: "'a \<Rightarrow> ('a, 'v) vop" where "returnV x v = Some (Inr x, v)"

definition throwV :: "error \<Rightarrow> ('a, 'v) vop" where "throwV e v = Some (Inl e, v)"

definition bindV :: "('a, 'v) vop \<Rightarrow> ('a \<Rightarrow> ('b, 'v) vop) \<Rightarrow> ('b, 'v) vop" where
  "bindV m f v = (case m v of None \<Rightarrow> None | Some (Inl e, v') \<Rightarrow> Some (Inl e, v') | Some (Inr x, v') \<Rightarrow> f x v')"

text \<open>The result and error pair of \<open>m\<close> is passed on, unless it is a panic.\<close>

definition tryV :: "('a, 'v) vop \<Rightarrow> (error + 'a \<Rightarrow> ('b, 'v) vop) \<Rightarrow> ('b, 'v) vop" where
  "tryV m f v = (case m v of None \<Rightarrow> None | Some (r, v') \<Rightarrow> if r = Inl Panic then Some (Inl Panic, v') else f r v')"

section \<open>The parts of a volume\<close>

text \<open>The operations of the cache also return the entries its eviction callback is called with.\<close>

record 'l lru_cache =
  lru_Get :: "int \<Rightarrow> 'l \<Rightarrow> string option \<times> 'l"
  lru_Add :: "int \<Rightarrow> string \<Rightarrow> 'l \<Rightarrow> (int \<times> string) list \<times> 'l"
  lru_RemoveOldest :: "'l \<Rightarrow> (int \<times> string) option \<times> (int \<times> string) list \<times> 'l"
  lru_Remove :: "int \<Rightarrow> 'l \<Rightarrow> bool \<times> (int \<times> string) list \<times> 'l"
  lru_Purge :: "'l \<Rightarrow> (int \<times> string) list \<times> 'l"

record EvitManager =
  em_volID :: u64
  em_pendingBlocks :: "(int \<times> string) list"
  em_locked :: bool

text \<open>The threshold is a floating-point number that is only printed here; it is kept as it prints.\<close>

record VolumeStatistics =
  vs_VolID :: u64
  vs_Quota :: "64 word"
  vs_Threhold :: json
  vs_InuseBytes :: u64

definition BlockMetaEvent_Add :: "64 word" where "BlockMetaEvent_Add = 0"
definition BlockMetaEvent_Delete :: "64 word" where "BlockMetaEvent_Delete = 1"

definition BlockState_LOCAL :: "32 word" where "BlockState_LOCAL = 0"
definition BlockState_LOCAL_S3 :: "32 word" where "BlockState_LOCAL_S3 = 1"
definition BlockState_S3_ONLY :: "32 word" where "BlockState_S3_ONLY = 2"

text \<open>A time is the number of nanoseconds since 1970; the zero time of Go is the start of the year 1.\<close>

definition zero_time :: int where "zero_time = - 62135596800000000000"

record BlockMetaEvent =
  ev_VolID :: u64
  ev_BlockID :: string
  ev_Size :: u64
  ev_LogicIndex :: u64
  ev_Crc32 :: u32
  ev_EventType :: "64 word"
  ev_State :: "32 word"
  ev_CreatedAt :: int

definition OnS3Only :: "BlockMetaEvent \<Rightarrow> bool" where "OnS3Only e \<longleftrightarrow> ev_State e = BlockState_S3_ONLY"
definition OnLocal :: "BlockMetaEvent \<Rightarrow> bool" where "OnLocal e \<longleftrightarrow> ev_State e = BlockState_LOCAL"
definition OnBoth :: "BlockMetaEvent \<Rightarrow> bool" where "OnBoth e \<longleftrightarrow> ev_State e = BlockState_LOCAL_S3"

datatype message = StatMsg VolumeStatistics | BlockMetaMsg BlockMetaEvent

record ('s, 'b, 'f, 'l) LocalPhysicalVolume =
  vol_id :: u64
  vol_stat :: VolumeStatistics
  vol_slot :: "'b Slot"
  vol_engine :: 'f
  vol_store :: 's
  vol_blockLru :: 'l
  vol_evitManager :: EvitManager
  vol_messages :: "message list"

type_synonym ('a, 's, 'b, 'f, 'l) volume_op = "('a, ('s, 'b, 'f, 'l) LocalPhysicalVolume) vop"

record ('s, 'b, 'f, 'l) vol_env =
  ve_store :: "'s Store"
  ve_slots :: "'b slot_env"
  ve_fs :: "'f Fs"
  ve_lru :: "'l lru_cache"

definition onSlot :: "('a, 's, 'b) slot_op \<Rightarrow> ('a, 's, 'b, 'f, 'l) volume_op" where
  "onSlot p v = (case p (vol_store v, vol_slot v) of (r, s, sl) \<Rightarrow> Some (r, v \<lparr> vol_store := s, vol_slot := sl \<rparr>))"

definition onEngine :: "('a, 'f, unit) engine_op \<Rightarrow> ('a, 's, 'b, 'f, 'l) volume_op" where
  "onEngine p v = (case p (vol_engine v, ()) of (r, f, _) \<Rightarrow> Some (r, v \<lparr> vol_engine := f \<rparr>))"

section \<open>Usage\<close>

definition Stat_Format :: "VolumeStatistics \<Rightarrow> string" where "Stat_Format vs = ''vol_stat/'' @ fmt_d (unat (vs_VolID vs))"

definition stat_persist :: "'s Store \<Rightarrow> VolumeStatistics \<Rightarrow> (unit, 's) gom" where
  "stat_persist S vs = Save S False (Stat_Format vs) (JsonDoc (JObj [(''Quota'', JNum (sint (vs_Quota vs))),
     (''Threhold'', vs_Threhold vs), (''InuseBytes'', JNum (uint (vs_InuseBytes vs)))]))"

definition Stat_Persist :: "('s, 'b, 'f, 'l) vol_env \<Rightarrow> (unit, 's, 'b, 'f, 'l) volume_op" where
  "Stat_Persist E v = (case stat_persist (ve_store E) (vol_stat v) (vol_store v) of (r, s) \<Rightarrow> Some (r, v \<lparr> vol_store := s \<rparr>))"

text \<open>A failure to save the usage is only logged.\<close>

definition AddInUseBytes :: "('s, 'b, 'f, 'l) vol_env \<Rightarrow> int \<Rightarrow> (unit, 's, 'b, 'f, 'l) volume_op" where
  "AddInUseBytes E delta v = (
     let vs = vol_stat v;
         vs = vs \<lparr> vs_InuseBytes := (if delta < 0 then vs_InuseBytes vs - word_of_int delta else vs_InuseBytes vs + word_of_int delta) \<rparr>
     in tryV (Stat_Persist E) (\<lambda>_ v. returnV () (v \<lparr> vol_messages := vol_messages v @ [StatMsg (vol_stat v)] \<rparr>)) (v \<lparr> vol_stat := vs \<rparr>))"

definition RemainCap :: "VolumeStatistics \<Rightarrow> u64" where "RemainCap vs = vs_Quota vs - vs_InuseBytes vs"

section \<open>Blocks waiting to be evicted\<close>

fun index_where :: "('a \<Rightarrow> bool) \<Rightarrow> 'a list \<Rightarrow> nat option" where
  "index_where P [] = None"
| "index_where P (x # xs) = (if P x then Some 0 else map_option Suc (index_where P xs))"

definition AddEvitBlock :: "int \<times> string \<Rightarrow> (unit, 's, 'b, 'f, 'l) volume_op" where
  "AddEvitBlock block v = (let em = vol_evitManager v in if em_locked em then None
     else returnV () (v \<lparr> vol_evitManager := em \<lparr> em_pendingBlocks := em_pendingBlocks em @ [block] \<rparr> \<rparr>))"

text \<open>What the timer of \<^verbatim>\<open>Loop\<close> does when it fires.\<close>

definition Loop_tick :: "('s, 'b, 'f, 'l) vol_env \<Rightarrow> (unit, 's, 'b, 'f, 'l) volume_op" where
  "Loop_tick E v = (let em = vol_evitManager v in if em_locked em then None
     else (case em_pendingBlocks em of [] \<Rightarrow> returnV () v | block # rest \<Rightarrow>
       tryV (onSlot (Slot_Free (ve_store E) (ve_slots E) (word_of_int (fst block)))) (\<lambda>_. returnV ())
         (v \<lparr> vol_evitManager := em \<lparr> em_pendingBlocks := rest \<rparr> \<rparr>)))"

definition Evit_Format :: "EvitManager \<Rightarrow> string" where "Evit_Format em = ''evit_block/'' @ fmt_d (unat (em_volID em))"

definition GetPendingBlocks :: "((int \<times> string) list, 's, 'b, 'f, 'l) volume_op" where
  "GetPendingBlocks v = (let em = vol_evitManager v in if em_locked em then None else returnV (em_pendingBlocks em) v)"

definition Evit_Shutdown :: "('s, 'b, 'f, 'l) vol_env \<Rightarrow> (unit, 's, 'b, 'f, 'l) volume_op" where
  "Evit_Shutdown E = bindV GetPendingBlocks (\<lambda>blocks v.
     case Save (ve_store E) False (Evit_Format (vol_evitManager v))
       (JsonDoc (JArr (map (\<lambda>(a, b). JObj [(''A'', JNum a), (''B'', JStr b)]) blocks))) (vol_store v) of
     (r, s) \<Rightarrow> Some (r, v \<lparr> vol_store := s \<rparr>))"

definition Expire2Local :: "u64 \<Rightarrow> (unit, 's, 'b, 'f, 'l) volume_op" where
  "Expire2Local blockID v = (let em = vol_evitManager v in if em_locked em then None
     else (case index_where (\<lambda>t. word_of_int (fst t) = blockID) (em_pendingBlocks em) of None \<Rightarrow> returnV () v
     | Some idx \<Rightarrow> returnV () (v \<lparr> vol_evitManager :=
         em \<lparr> em_pendingBlocks := take idx (em_pendingBlocks em) @ drop (idx + 1) (em_pendingBlocks em) \<rparr> \<rparr>)))"

text \<open>The entry is searched with the number of the volume, and the mutex stays locked when there is none.\<close>

definition Expire2Remote :: "('s, 'b, 'f, 'l) vol_env \<Rightarrow> u64 \<Rightarrow> (bool, 's, 'b, 'f, 'l) volume_op" where
  "Expire2Remote E blockID v = (let em = vol_evitManager v in if em_locked em then None
     else (case index_where (\<lambda>t. word_of_int (fst t) = em_volID em) (em_pendingBlocks em) of
       None \<Rightarrow> returnV False (v \<lparr> vol_evitManager := em \<lparr> em_locked := True \<rparr> \<rparr>)
     | Some idx \<Rightarrow> tryV (onEngine (DeleteBlock (ve_fs E) (NewLocation (em_volID em) blockID)))
         (\<lambda>r. if isl r then returnV False
           else tryV (onSlot (Slot_Free (ve_store E) (ve_slots E) blockID)) (\<lambda>_. returnV True))
         (v \<lparr> vol_evitManager := em \<lparr> em_pendingBlocks := take idx (em_pendingBlocks em) @ drop (idx + 1) (em_pendingBlocks em) \<rparr> \<rparr>)))"

definition BlockExpired :: "u64 \<Rightarrow> (bool, 's, 'b, 'f, 'l) volume_op" where
  "BlockExpired blockID v = (let em = vol_evitManager v in if em_locked em then None
     else returnV (index_where (\<lambda>t. word_of_int (fst t) = blockID) (em_pendingBlocks em) = None) v)"

section \<open>Recently used blocks\<close>

text \<open>Evicted entries go to the eviction manager, through the callback the volume gives to the cache.\<close>

fun onEvit :: "(int \<times> string) list \<Rightarrow> (unit, 's, 'b, 'f, 'l) volume_op" where
  "onEvit [] v = returnV () v"
| "onEvit (b # bs) v = bindV (AddEvitBlock b) (\<lambda>_. onEvit bs) v"

definition Lru_Get :: "('s, 'b, 'f, 'l) vol_env \<Rightarrow> int \<Rightarrow> (string option, 's, 'b, 'f, 'l) volume_op" where
  "Lru_Get E key v = (case lru_Get (ve_lru E) key (vol_blockLru v) of (r, l) \<Rightarrow> returnV r (v \<lparr> vol_blockLru := l \<rparr>))"

definition Lru_Put :: "('s, 'b, 'f, 'l) vol_env \<Rightarrow> int \<Rightarrow> string \<Rightarrow> (unit, 's, 'b, 'f, 'l) volume_op" where
  "Lru_Put E key val v = (case lru_Add (ve_lru E) key val (vol_blockLru v) of (evicted, l) \<Rightarrow> onEvit evicted (v \<lparr> vol_blockLru := l \<rparr>))"

definition RemoveOldest :: "('s, 'b, 'f, 'l) vol_env \<Rightarrow> ((int \<times> string) option, 's, 'b, 'f, 'l) volume_op" where
  "RemoveOldest E v = (case lru_RemoveOldest (ve_lru E) (vol_blockLru v) of (r, evicted, l) \<Rightarrow>
     bindV (onEvit evicted) (\<lambda>_. returnV r) (v \<lparr> vol_blockLru := l \<rparr>))"

definition Lru_Delete :: "('s, 'b, 'f, 'l) vol_env \<Rightarrow> int \<Rightarrow> (bool, 's, 'b, 'f, 'l) volume_op" where
  "Lru_Delete E key v = (case lru_Remove (ve_lru E) key (vol_blockLru v) of (r, evicted, l) \<Rightarrow>
     bindV (onEvit evicted) (\<lambda>_. returnV r) (v \<lparr> vol_blockLru := l \<rparr>))"

definition Lru_Clear :: "('s, 'b, 'f, 'l) vol_env \<Rightarrow> (unit, 's, 'b, 'f, 'l) volume_op" where
  "Lru_Clear E v = (case lru_Purge (ve_lru E) (vol_blockLru v) of (evicted, l) \<Rightarrow> onEvit evicted (v \<lparr> vol_blockLru := l \<rparr>))"

section \<open>Volumes\<close>

text \<open>\<^verbatim>\<open>fmt.Sprintf("%x", b)\<close>.\<close>

definition hex_digit :: "nat \<Rightarrow> char" where "hex_digit n = (if n < 10 then digit n else char_of (87 + n))"

definition hex :: "bytes \<Rightarrow> string" where
  "hex bs = concat (map (\<lambda>b. [hex_digit (unat b div 16), hex_digit (unat b mod 16)]) bs)"

definition HashReadable :: "Header \<Rightarrow> string" where "HashReadable h = hex (Checksum h)"

definition SendBlockMeta :: "BlockMetaEvent \<Rightarrow> (unit, 's, 'b, 'f, 'l) volume_op" where
  "SendBlockMeta ev v = returnV () (v \<lparr> vol_messages := vol_messages v @ [BlockMetaMsg ev] \<rparr>)"

definition GetFreeBlockCnt :: "('s, 'b, 'f, 'l) vol_env \<Rightarrow> (u64, 's, 'b, 'f, 'l) volume_op" where
  "GetFreeBlockCnt E v = returnV (Remains (ve_slots E) (vol_slot v)) v"

definition GetTotalBlockCnt :: "('s, 'b, 'f, 'l) vol_env \<Rightarrow> (u64, 's, 'b, 'f, 'l) volume_op" where
  "GetTotalBlockCnt E v = returnV (Slot_Size (ve_slots E) (vol_slot v)) v"

definition CalculateUsage :: "(u64, 's, 'b, 'f, 'l) volume_op" where
  "CalculateUsage v = returnV (vs_InuseBytes (vol_stat v)) v"

definition getLocation :: "u64 \<Rightarrow> ('s, 'b, 'f, 'l) LocalPhysicalVolume \<Rightarrow> Location" where
  "getLocation index v = NewLocation (vol_id v) index"

text \<open>
  The callback of the read stores the header and updates the cache. It is the last thing the read does, so the cache is
  updated after it.
\<close>

definition keep_header :: "Header \<Rightarrow> (unit, 'f, Header option) engine_op" where
  "keep_header h w = (Inr (), fst w, Some h)"

definition Vol_ReadBlock :: "('s, 'b, 'f, 'l) vol_env \<Rightarrow> string \<Rightarrow> (bytes \<times> Header option, 's, 'b, 'f, 'l) volume_op" where
  "Vol_ReadBlock E hash v = (case GetSlot hash (vol_slot v) of Inl err \<Rightarrow> throwV (Wrapped err) v | Inr index \<Rightarrow>
     if \<not> Occupied (ve_slots E) index (vol_slot v) then throwV (ErrOther (''block '' @ fmt_d (unat index) @ '' is not occupied'')) v
     else (case GetBlockDataCb (ve_fs E) (getLocation index v) (Some keep_header) (vol_engine v, None) of
       (Inl err, f, _) \<Rightarrow> throwV err (v \<lparr> vol_engine := f \<rparr>)
     | (Inr d, f, None) \<Rightarrow> returnV (d, None) (v \<lparr> vol_engine := f \<rparr>)
     | (Inr d, f, Some h) \<Rightarrow> bindV (Expire2Local (Index h)) (\<lambda>_. bindV (Lru_Put E (sint (Index h)) (HashReadable h)) (\<lambda>_. returnV (d, Some h)))
         (v \<lparr> vol_engine := f \<rparr>)))"

text \<open>The loop waits until a slot is free or a block can be taken from the cache.\<close>

partial_function (option) makeRoom :: "('s, 'b, 'f, 'l) vol_env \<Rightarrow> ('s, 'b, 'f, 'l) LocalPhysicalVolume \<Rightarrow>
    ((error + unit) \<times> ('s, 'b, 'f, 'l) LocalPhysicalVolume) option" where
  "makeRoom E v = (if Remains (ve_slots E) (vol_slot v) \<noteq> 0 then Some (Inr (), v)
     else (case RemoveOldest E v of None \<Rightarrow> None
       | Some (r, v') \<Rightarrow> (case r of Inl e \<Rightarrow> Some (Inl e, v')
         | Inr oldest \<Rightarrow> (case oldest of Some b \<Rightarrow> bindV (Expire2Remote E (word_of_int (fst b))) (\<lambda>_. returnV ()) v'
           | None \<Rightarrow> makeRoom E v'))))"

definition nextFreeSlot :: "('s, 'b, 'f, 'l) vol_env \<Rightarrow> (u64, 's, 'b, 'f, 'l) volume_op" where
  "nextFreeSlot E = bindV (makeRoom E) (\<lambda>_ v. case Next (ve_slots E) (vol_slot v) of None \<Rightarrow> None | Some slot \<Rightarrow> returnV slot v)"

definition occupyNextFreeSlot :: "('s, 'b, 'f, 'l) vol_env \<Rightarrow> string \<Rightarrow> (u64, 's, 'b, 'f, 'l) volume_op" where
  "occupyNextFreeSlot E hash = bindV (nextFreeSlot E) (\<lambda>slot.
     bindV (onSlot (Occupy (ve_store E) (ve_slots E) slot hash)) (\<lambda>_. returnV slot))"

definition added_event :: "int \<Rightarrow> DataContainer \<Rightarrow> u64 \<Rightarrow> BlockMetaEvent" where
  "added_event now container volID = \<lparr> ev_VolID = volID, ev_BlockID = hex (dc_Hash container), ev_Size = of_nat (length (dc_Data container)),
     ev_LogicIndex = dc_Index container, ev_Crc32 = dc_Crc container, ev_EventType = BlockMetaEvent_Add, ev_State = BlockState_LOCAL,
     ev_CreatedAt = now \<rparr>"

definition write_slot :: "('s, 'b, 'f, 'l) vol_env \<Rightarrow> DataContainer \<Rightarrow> u64 \<Rightarrow> (string, 's, 'b, 'f, 'l) volume_op" where
  "write_slot E container slot v =
     bindV (onEngine (WriteBlock (ve_fs E) (NewLocation (vol_id v) slot) container)) (\<lambda>_.
     bindV (Expire2Local slot) (\<lambda>_. bindV (Lru_Put E (sint slot) (hex (dc_Hash container))) (\<lambda>_.
     bindV (AddInUseBytes E (int (length (dc_Data container)))) (\<lambda>_. returnV (hex (dc_Hash container)))))) v"

text \<open>The deferred function frees the slot after an error; after a panic it finds no error and sends the event.\<close>

definition Vol_WriteBlock :: "('s, 'b, 'f, 'l) vol_env \<Rightarrow> int \<Rightarrow> DataContainer \<Rightarrow> (string, 's, 'b, 'f, 'l) volume_op" where
  "Vol_WriteBlock E now container v = (
     let send = SendBlockMeta (added_event now container (vol_id v)) in
     case GetSlot (hex (dc_Hash container)) (vol_slot v) of
       Inr _ \<Rightarrow> bindV send (\<lambda>_. throwV ErrBlockExisted) v
     | Inl _ \<Rightarrow> bindV (occupyNextFreeSlot E (hex (dc_Hash container))) (\<lambda>slot v.
         case write_slot E container slot v of None \<Rightarrow> None
         | Some (Inr blockID, v) \<Rightarrow> bindV send (\<lambda>_. returnV blockID) v
         | Some (Inl err, v) \<Rightarrow> if err = Panic then bindV send (\<lambda>_. throwV Panic) v
             else tryV (onSlot (Slot_Free (ve_store E) (ve_slots E) slot))
               (\<lambda>r. throwV (case r of Inl err2 \<Rightarrow> if err2 \<noteq> ErrSlotEmpty then err2 else err | Inr _ \<Rightarrow> err)) v) v)"

text \<open>The slot stays 0 when the hash is not known.\<close>

definition RemoveLocal :: "('s, 'b, 'f, 'l) vol_env \<Rightarrow> string \<Rightarrow> (unit, 's, 'b, 'f, 'l) volume_op" where
  "RemoveLocal E hash v = (case GetSlot hash (vol_slot v) of
     Inr slot \<Rightarrow> tryV (onSlot (Slot_Free (ve_store E) (ve_slots E) slot))
       (\<lambda>_. onEngine (DeleteBlock (ve_fs E) \<lparr> loc_VolID = vol_id v, loc_Slot = slot \<rparr>)) v
   | Inl _ \<Rightarrow> onEngine (DeleteBlock (ve_fs E) \<lparr> loc_VolID = vol_id v, loc_Slot = 0 \<rparr>) v)"

definition Vol_CancelBlock :: "('s, 'b, 'f, 'l) vol_env \<Rightarrow> u64 \<Rightarrow> (u64, 's, 'b, 'f, 'l) volume_op" where
  "Vol_CancelBlock E index v = bindV (onEngine (CancelBlock (ve_fs E) (getLocation index v))) (\<lambda>_. throwV Panic) v"

fun CleanInvalidBlock :: "('s, 'b, 'f, 'l) vol_env \<Rightarrow> string list \<Rightarrow> (bool, 's, 'b, 'f, 'l) volume_op" where
  "CleanInvalidBlock E [] v = returnV True v"
| "CleanInvalidBlock E (hash # hashes) v = (
     let slot = (case GetSlot hash (vol_slot v) of Inl _ \<Rightarrow> 0 | Inr slot \<Rightarrow> slot) in
     tryV (onEngine (DeleteBlock (ve_fs E) (getLocation slot v))) (\<lambda>_.
     bindV (SendBlockMeta \<lparr> ev_VolID = vol_id v, ev_BlockID = hash, ev_Size = 0, ev_LogicIndex = 0, ev_Crc32 = 0,
       ev_EventType = BlockMetaEvent_Delete, ev_State = BlockState_LOCAL, ev_CreatedAt = zero_time \<rparr>) (\<lambda>_.
     tryV (onSlot (Slot_Free (ve_store E) (ve_slots E) slot)) (\<lambda>_. CleanInvalidBlock E hashes))) v)"

definition syncState :: "('s, 'b, 'f, 'l) vol_env \<Rightarrow> (unit, 's, 'b, 'f, 'l) volume_op" where
  "syncState E = bindV (onSlot (PersistState (ve_store E) (ve_slots E))) (\<lambda>_. Stat_Persist E)"

definition GetExpiredBlocks :: "((int \<times> string) list, 's, 'b, 'f, 'l) volume_op" where
  "GetExpiredBlocks = GetPendingBlocks"

definition ExpireBlock :: "u64 \<Rightarrow> (unit, 's, 'b, 'f, 'l) volume_op" where
  "ExpireBlock index = Expire2Local index"

section \<open>Running a volume\<close>

named_theorems vol_simps \<open>symbolic execution of volume operations\<close>

lemmas [vol_simps] = returnV_def throwV_def bindV_def tryV_def onSlot_def onEngine_def SendBlockMeta_def Let_def

text \<open>Unless the mutex of the eviction manager is locked, its operations return and change nothing else.\<close>

lemma onEvit_run:
  "\<not> em_locked (vol_evitManager v) \<Longrightarrow> onEvit bs v = Some (Inr (), v \<lparr> vol_evitManager :=
     vol_evitManager v \<lparr> em_pendingBlocks := em_pendingBlocks (vol_evitManager v) @ bs \<rparr> \<rparr>)"
  by (induction bs arbitrary: v) (simp_all add: vol_simps AddEvitBlock_def)

lemma Expire2Local_run:
  assumes "\<not> em_locked (vol_evitManager v)"
  obtains em where "Expire2Local i v = Some (Inr (), v \<lparr> vol_evitManager := em \<rparr>)" and "\<not> em_locked em"
  using assms that [of "vol_evitManager v"]
  by (cases "index_where (\<lambda>t. word_of_int (fst t) = i) (em_pendingBlocks (vol_evitManager v))")
    (auto simp: Expire2Local_def vol_simps)

lemma Lru_Put_run:
  assumes "\<not> em_locked (vol_evitManager v)"
  obtains em l where "Lru_Put E k val v = Some (Inr (), v \<lparr> vol_blockLru := l, vol_evitManager := em \<rparr>)" and "\<not> em_locked em"
proof -
  obtain bs l where "lru_Add (ve_lru E) k val (vol_blockLru v) = (bs, l)" by fastforce
  then show thesis using assms
    by (intro that [of "vol_evitManager v \<lparr> em_pendingBlocks := em_pendingBlocks (vol_evitManager v) @ bs \<rparr>" l])
      (simp_all add: Lru_Put_def onEvit_run)
qed

lemma index_where_None: "(\<And>x. x \<in> set xs \<Longrightarrow> \<not> P x) \<Longrightarrow> index_where P xs = None"
  by (induction xs) auto

context slot_bits
begin

lemma Remains_free:
  assumes ok: "slots_ok elems sl" and E: "bits E = B" and i: "i < sl_cap sl" "i \<notin> elems (sl_bits sl)"
  shows "Remains E sl \<noteq> 0"
proof
  assume "Remains E sl = 0"
  then have card: "card (elems (sl_bits sl)) = unat (sl_cap sl)" using size_in_range [OF ok E] by simp
  have "unat ` elems (sl_bits sl) \<subseteq> {..< unat (sl_cap sl)} - {unat i}"
    using ok i(2) by (auto simp: slots_ok_def word_less_nat_alt unat_inject)
  then have "card (unat ` elems (sl_bits sl)) \<le> card ({..< unat (sl_cap sl)} - {unat i})" by (rule card_mono [rotated]) simp
  also have "\<dots> < unat (sl_cap sl)" using i(1) by (simp add: word_less_nat_alt)
  also have "card (unat ` elems (sl_bits sl)) = card (elems (sl_bits sl))" by (rule card_image) (simp add: inj_on_def unat_inject)
  finally show False using card by simp
qed

lemma Remains_full:
  assumes ok: "slots_ok elems sl" and E: "bits E = B" and full: "\<And>i. i < sl_cap sl \<Longrightarrow> i \<in> elems (sl_bits sl)"
  shows "Remains E sl = 0"
proof -
  have "n \<in> unat ` elems (sl_bits sl)" if n: "n < unat (sl_cap sl)" for n
  proof -
    have "n < 18446744073709551616" using n u64_bound [of "sl_cap sl"] by linarith
    then have "unat (of_nat n :: u64) = n" by (simp add: unat_of_nat)
    then show ?thesis using full [of "of_nat n"] n by (metis image_eqI word_less_nat_alt)
  qed
  then have sub: "{..< unat (sl_cap sl)} \<subseteq> unat ` elems (sl_bits sl)" by auto
  have card: "card (unat ` elems (sl_bits sl)) = card (elems (sl_bits sl))" by (rule card_image) (simp add: inj_on_def unat_inject)
  have "unat (sl_cap sl) \<le> card (elems (sl_bits sl))"
    using card_mono [OF _ sub] card elems_iter(1) [of "sl_bits sl"] by (metis List.finite_set card_lessThan finite_imageI)
  then have "unat (Remains E sl) = unat (0 :: u64)" using size_in_range [OF ok E] by simp
  then show ?thesis by (simp only: unat_inject)
qed

end

text \<open>
  A volume with a free slot: the block goes to the smallest free slot and the file of that slot.
\<close>

lemma occupy_run:
  assumes B: "slot_bits (bits (ve_slots E)) elems" and ok: "slots_ok elems (vol_slot v)" and S: "ve_store E = spec_store"
    and i: "Next (ve_slots E) (vol_slot v) = Some i"
  obtains m sl where "occupyNextFreeSlot E hash v = Some (Inr i, v \<lparr> vol_store := m, vol_slot := sl \<rparr>)"
    and "Occupied (ve_slots E) i sl" and "sl_hashPairs sl = (sl_hashPairs (vol_slot v))(hash \<mapsto> i)"
proof -
  have free: "i < sl_cap (vol_slot v)" "i \<notin> elems (sl_bits (vol_slot v))"
    using slot_bits.Next_spec [OF B ok refl] i by (auto split: if_splits)
  have "makeRoom E v = Some (Inr (), v)"
    using slot_bits.Remains_free [OF B ok refl free] by (subst makeRoom.simps) simp
  then have n: "nextFreeSlot E v = Some (Inr i, v)" using i by (simp add: nextFreeSlot_def vol_simps)
  obtain bs where bs: "CheckedAdd (bits (ve_slots E)) i (sl_bits (vol_slot v)) = (True, bs)" "i \<in> elems bs"
    using slot_bits.elems_add [OF B, of i "sl_bits (vol_slot v)"] free(2) by (auto simp: prod_eq_iff)
  obtain d where d: "MarshalBinary (bits (ve_slots E)) bs = Inr d" using slot_bits.elems_marshal [OF B, of bs] by blast
  note run = Occupy_run [OF free(1) bs(1) d, of hash "vol_store v"]
  show thesis
    by (rule that) (use n S run bs(2) in \<open>auto simp: occupyNextFreeSlot_def vol_simps Occupied_def slot_bits.elems_contains [OF B]\<close>)
qed


lemma Stat_run:
  assumes "ve_store E = spec_store" and "0 \<le> delta"
  obtains st m where "AddInUseBytes E delta v =
      Some (Inr (), v \<lparr> vol_stat := st, vol_store := m, vol_messages := vol_messages v @ [StatMsg st] \<rparr>)"
    and "st = vol_stat v \<lparr> vs_InuseBytes := vs_InuseBytes (vol_stat v) + word_of_int delta \<rparr>"
proof -
  let ?st = "vol_stat v \<lparr> vs_InuseBytes := vs_InuseBytes (vol_stat v) + word_of_int delta \<rparr>"
  obtain m where m: "stat_persist spec_store ?st (vol_store v) = (Inr (), m)" by (simp add: stat_persist_def spec_store_simps spec_write_run)
  show thesis
    by (rule that [where st = ?st and m = m]) (use assms m in \<open>simp_all add: AddInUseBytes_def Stat_Persist_def vol_simps\<close>)
qed

lemma write_slot_run:
  assumes A: "afero_fs (ve_fs E) files" and S: "ve_store E = spec_store" and un: "\<not> em_locked (vol_evitManager v)"
    and free: "files (vol_engine v) (ToAbs (NewLocation (vol_id v) i)) = None" and d: "container_ok d"
    and "fst (Fs_Create (ve_fs E) (ToAbs (NewLocation (vol_id v) i)) (vol_engine v)) = None"
    and "fst (Fs_Write (ve_fs E) (ToAbs (NewLocation (vol_id v) i)) (Raw (container_block d))
      (snd (Fs_Create (ve_fs E) (ToAbs (NewLocation (vol_id v) i)) (vol_engine v)))) = None"
  obtains v' where "write_slot E d i v = Some (Inr (hex (dc_Hash d)), v')" and "vol_slot v' = vol_slot v" and "vol_id v' = vol_id v"
    and "files (vol_engine v') = (files (vol_engine v))(ToAbs (NewLocation (vol_id v) i) \<mapsto> Raw (container_block d))"
    and "\<not> em_locked (vol_evitManager v')"
    and "vol_stat v' = vol_stat v \<lparr> vs_InuseBytes := vs_InuseBytes (vol_stat v) + of_nat (length (dc_Data d)) \<rparr>"
    and "vol_messages v' = vol_messages v @ [StatMsg (vol_stat v')]"
proof -
  obtain f where f: "WriteBlock (ve_fs E) (NewLocation (vol_id v) i) d (vol_engine v, ()) = (Inr (), f, ())"
      "files f = (files (vol_engine v))(ToAbs (NewLocation (vol_id v) i) \<mapsto> Raw (container_block d))"
    by (rule afero_fs.write_run [OF A free assms(6,7) d])
  obtain em where em: "Expire2Local i (v \<lparr> vol_engine := f \<rparr>) = Some (Inr (), v \<lparr> vol_engine := f, vol_evitManager := em \<rparr>)" "\<not> em_locked em"
    by (rule Expire2Local_run [of "v \<lparr> vol_engine := f \<rparr>" i]) (use un in simp_all)
  let ?v1 = "v \<lparr> vol_engine := f, vol_evitManager := em \<rparr>"
  obtain em2 l where l: "Lru_Put E (sint i) (hex (dc_Hash d)) ?v1 = Some (Inr (), ?v1 \<lparr> vol_blockLru := l, vol_evitManager := em2 \<rparr>)"
      "\<not> em_locked em2"
    by (rule Lru_Put_run [of ?v1 E "sint i" "hex (dc_Hash d)"]) (use em(2) in simp_all)
  let ?v2 = "?v1 \<lparr> vol_blockLru := l, vol_evitManager := em2 \<rparr>"
  obtain st m where st: "AddInUseBytes E (int (length (dc_Data d))) ?v2 =
        Some (Inr (), ?v2 \<lparr> vol_stat := st, vol_store := m, vol_messages := vol_messages ?v2 @ [StatMsg st] \<rparr>)"
      "st = vol_stat ?v2 \<lparr> vs_InuseBytes := vs_InuseBytes (vol_stat ?v2) + word_of_int (int (length (dc_Data d))) \<rparr>"
    by (rule Stat_run [of E "int (length (dc_Data d))" ?v2]) (use S in simp_all)
  show thesis
  proof (rule that)
    show "write_slot E d i v = Some (Inr (hex (dc_Hash d)), ?v2 \<lparr> vol_stat := st, vol_store := m, vol_messages := vol_messages ?v2 @ [StatMsg st] \<rparr>)"
      using f(1) em(1) l(1) st(1) by (simp add: write_slot_def bindV_def onEngine_def returnV_def)
  qed (use f em l st in simp_all)
qed

lemma Vol_Read_run:
  assumes A: "afero_fs (ve_fs E) files" and un: "\<not> em_locked (vol_evitManager v)"
    and i: "GetSlot hash (vol_slot v) = Inr i" "Occupied (ve_slots E) i (vol_slot v)"
    and d: "files (vol_engine v) (ToAbs (NewLocation (vol_id v) i)) = Some (Raw (container_block d))" "container_ok d"
  shows "\<exists>v'. Vol_ReadBlock E hash v = Some (Inr (dc_Data d, Some (container_header d)), v') \<and> vol_messages v' = vol_messages v"
proof -
  let ?h = "container_header d"
  have r: "GetBlockDataCb (ve_fs E) (NewLocation (vol_id v) i) (Some keep_header) (vol_engine v, None) = (Inr (dc_Data d), vol_engine v, Some ?h)"
    using container_file [OF d(2)] d(1) by (simp add: afero_fs.data_run [OF A] keep_header_def bindE_run returnE_run)
  let ?v = "v \<lparr> vol_engine := vol_engine v \<rparr>"
  obtain em where em: "Expire2Local (Index ?h) ?v = Some (Inr (), ?v \<lparr> vol_evitManager := em \<rparr>)" "\<not> em_locked em"
    by (rule Expire2Local_run [of ?v "Index ?h"]) (use un in simp_all)
  let ?v1 = "?v \<lparr> vol_evitManager := em \<rparr>"
  obtain em2 l where l: "Lru_Put E (sint (Index ?h)) (HashReadable ?h) ?v1 = Some (Inr (), ?v1 \<lparr> vol_blockLru := l, vol_evitManager := em2 \<rparr>)"
    by (rule Lru_Put_run [of ?v1 E "sint (Index ?h)" "HashReadable ?h"]) (use em(2) in simp_all)
  show ?thesis using i r em(1) l by (simp add: Vol_ReadBlock_def getLocation_def bindV_def returnV_def)
qed

text \<open>The whole write, for a volume with a free slot.\<close>

lemma Vol_Write_run:
  assumes B: "slot_bits (bits (ve_slots E)) elems" and ok: "slots_ok elems (vol_slot v)" and A: "afero_fs (ve_fs E) files"
    and S: "ve_store E = spec_store" and un: "\<not> em_locked (vol_evitManager v)"
    and new: "GetSlot (hex (dc_Hash d)) (vol_slot v) = Inl ErrSlotEmpty" and d: "container_ok d"
    and i: "Next (ve_slots E) (vol_slot v) = Some i" "files (vol_engine v) (ToAbs (NewLocation (vol_id v) i)) = None"
    and fs: "fst (Fs_Create (ve_fs E) (ToAbs (NewLocation (vol_id v) i)) (vol_engine v)) = None"
      "fst (Fs_Write (ve_fs E) (ToAbs (NewLocation (vol_id v) i)) (Raw (container_block d))
        (snd (Fs_Create (ve_fs E) (ToAbs (NewLocation (vol_id v) i)) (vol_engine v)))) = None"
  obtains v' where "Vol_WriteBlock E now d v = Some (Inr (hex (dc_Hash d)), v')"
    and "vol_messages v' = vol_messages v @ [StatMsg (vol_stat v'), BlockMetaMsg (added_event now d (vol_id v))]"
    and "vol_id v' = vol_id v" and "\<not> em_locked (vol_evitManager v')"
    and "vol_stat v' = vol_stat v \<lparr> vs_InuseBytes := vs_InuseBytes (vol_stat v) + of_nat (length (dc_Data d)) \<rparr>"
    and "GetSlot (hex (dc_Hash d)) (vol_slot v') = Inr i" and "Occupied (ve_slots E) i (vol_slot v')"
    and "files (vol_engine v') (ToAbs (NewLocation (vol_id v') i)) = Some (Raw (container_block d))"
proof -
  obtain m sl where o: "occupyNextFreeSlot E (hex (dc_Hash d)) v = Some (Inr i, v \<lparr> vol_store := m, vol_slot := sl \<rparr>)"
      "Occupied (ve_slots E) i sl" "sl_hashPairs sl = (sl_hashPairs (vol_slot v))(hex (dc_Hash d) \<mapsto> i)"
    by (rule occupy_run [OF B ok S i(1), of "hex (dc_Hash d)"])
  let ?v = "v \<lparr> vol_store := m, vol_slot := sl \<rparr>"
  obtain v1 where w: "write_slot E d i ?v = Some (Inr (hex (dc_Hash d)), v1)" "vol_slot v1 = sl" "vol_id v1 = vol_id v"
      "files (vol_engine v1) = (files (vol_engine v))(ToAbs (NewLocation (vol_id v) i) \<mapsto> Raw (container_block d))"
      "\<not> em_locked (vol_evitManager v1)"
      "vol_stat v1 = vol_stat v \<lparr> vs_InuseBytes := vs_InuseBytes (vol_stat v) + of_nat (length (dc_Data d)) \<rparr>"
      "vol_messages v1 = vol_messages v @ [StatMsg (vol_stat v1)]"
    by (rule write_slot_run [OF A S, of ?v i d]) (use un i(2) d fs in simp_all)
  show thesis
    by (rule that [of "v1 \<lparr> vol_messages := vol_messages v1 @ [BlockMetaMsg (added_event now d (vol_id v))] \<rparr>"])
      (use new o w in \<open>simp_all add: Vol_WriteBlock_def bindV_def returnV_def SendBlockMeta_def Let_def GetSlot_def\<close>)
qed

section \<open>Making room\<close>

text \<open>
  What the cache promises: it holds its entries in the order of their last use, drops the oldest when it is full, and calls
  its callback with every entry it drops.
\<close>

locale lru_contract =
  fixes L :: "'l lru_cache" and entries :: "'l \<Rightarrow> (int \<times> string) list" and capacity :: nat
  assumes add_fits: "length (filter (\<lambda>e. fst e \<noteq> k) (entries l)) < capacity \<Longrightarrow>
      \<exists>l'. lru_Add L k x l = ([], l') \<and> entries l' = filter (\<lambda>e. fst e \<noteq> k) (entries l) @ [(k, x)]"
    and add_evicts: "entries l = e # es \<Longrightarrow> length (entries l) = capacity \<Longrightarrow> k \<notin> fst ` set (entries l) \<Longrightarrow>
      \<exists>l'. lru_Add L k x l = ([e], l') \<and> entries l' = es @ [(k, x)]"
    and oldest: "entries l = e # es \<Longrightarrow> \<exists>l'. lru_RemoveOldest L l = (Some e, [e], l') \<and> entries l' = es"
    and oldest_none: "entries l = [] \<Longrightarrow> \<exists>l'. lru_RemoveOldest L l = (None, [], l') \<and> entries l' = []"
begin

text \<open>With nothing in the cache and no free slot, the loop has no end.\<close>

lemma makeRoom_waits:
  assumes "ve_lru E = L" and "Remains (ve_slots E) (vol_slot v) = 0" and "entries (vol_blockLru v) = []"
  shows "makeRoom E v = None"
proof (rule ccontr)
  assume "makeRoom E v \<noteq> None"
  then obtain y where "makeRoom E v = Some y" by blast
  then have "\<not> (ve_lru E = L \<and> Remains (ve_slots E) (vol_slot v) = 0 \<and> entries (vol_blockLru v) = [])"
  proof (induction rule: makeRoom.raw_induct [rotated 1, consumes 1, case_names step])
    case (step rec E v y)
    show ?case
    proof
      assume a: "ve_lru E = L \<and> Remains (ve_slots E) (vol_slot v) = 0 \<and> entries (vol_blockLru v) = []"
      then obtain l where l: "lru_RemoveOldest (ve_lru E) (vol_blockLru v) = (None, [], l)" "entries l = []"
        using oldest_none [of "vol_blockLru v"] by auto
      then have "rec E (v \<lparr> vol_blockLru := l \<rparr>) = Some y"
        using step(2) a by (simp add: RemoveOldest_def bindV_def returnV_def)
      from step(1) [OF this] a l(2) show False by simp
    qed
  qed
  with assms show False by blast
qed

lemma makeRoom_locked:
  assumes "ve_lru E = L" and "Remains (ve_slots E) (vol_slot v) = 0" and "entries (vol_blockLru v) = e # es"
    and "em_locked (vol_evitManager v)"
  shows "makeRoom E v = None"
proof -
  obtain l where "lru_RemoveOldest (ve_lru E) (vol_blockLru v) = (Some e, [e], l)" using oldest [OF assms(3)] assms(1) by auto
  then show ?thesis using assms(2,4) by (subst makeRoom.simps) (simp add: RemoveOldest_def AddEvitBlock_def vol_simps)
qed

text \<open>
  Otherwise the oldest entry is taken, but the search for it fails, the mutex stays locked and no slot is freed.
\<close>

lemma makeRoom_leaks:
  assumes "ve_lru E = L" and "Remains (ve_slots E) (vol_slot v) = 0" and "entries (vol_blockLru v) = e # es"
    and "\<not> em_locked (vol_evitManager v)"
    and "\<And>t. t \<in> insert e (set (em_pendingBlocks (vol_evitManager v))) \<Longrightarrow> word_of_int (fst t) \<noteq> em_volID (vol_evitManager v)"
  shows "\<exists>v'. makeRoom E v = Some (Inr (), v') \<and> vol_slot v' = vol_slot v \<and> em_locked (vol_evitManager v')"
proof -
  obtain l where l: "lru_RemoveOldest (ve_lru E) (vol_blockLru v) = (Some e, [e], l)" using oldest [OF assms(3)] assms(1) by auto
  have "index_where (\<lambda>t. word_of_int (fst t) = em_volID (vol_evitManager v)) (em_pendingBlocks (vol_evitManager v) @ [e]) = None"
    by (rule index_where_None) (use assms(5) in auto)
  then show ?thesis using assms(2,4) l
    by (subst makeRoom.simps) (simp add: RemoveOldest_def AddEvitBlock_def Expire2Remote_def vol_simps)
qed

end

section \<open>A cache\<close>

definition list_lru :: "nat \<Rightarrow> (int \<times> string) list lru_cache" where
  "list_lru n = \<lparr> lru_Get = \<lambda>k l. (map_of l k, filter (\<lambda>e. fst e \<noteq> k) l @ filter (\<lambda>e. fst e = k) l),
     lru_Add = \<lambda>k x l. (let l' = filter (\<lambda>e. fst e \<noteq> k) l @ [(k, x)] in if length l' > n then ([hd l'], tl l') else ([], l')),
     lru_RemoveOldest = \<lambda>l. (case l of [] \<Rightarrow> (None, [], []) | e # es \<Rightarrow> (Some e, [e], es)),
     lru_Remove = \<lambda>k l. (k \<in> fst ` set l, filter (\<lambda>e. fst e = k) l, filter (\<lambda>e. fst e \<noteq> k) l),
     lru_Purge = \<lambda>l. (l, []) \<rparr>"

interpretation llru: lru_contract "list_lru n" "\<lambda>l. l" n for n
proof
  fix l :: "(int \<times> string) list" and e es k x
  assume l: "l = e # es" "length l = n" "k \<notin> fst ` set l"
  have "filter (\<lambda>e. fst e \<noteq> k) l = l" using l(3) by (auto simp: filter_id_conv)
  then show "\<exists>l'. lru_Add (list_lru n) k x l = ([e], l') \<and> l' = es @ [(k, x)]" using l(1,2) by (simp add: list_lru_def Let_def)
qed (auto simp: list_lru_def Let_def)

text \<open>A volume with two slots, to run examples on.\<close>

definition example_env :: "(spec, u64 list, string \<rightharpoonup> bytes, (int \<times> string) list) vol_env" where
  "example_env = \<lparr> ve_store = spec_store, ve_slots = list_env, ve_fs = mem_fs, ve_lru = list_lru 2 \<rparr>"

definition example_volume :: "u64 list \<Rightarrow> (string \<rightharpoonup> u64) \<Rightarrow> (string \<rightharpoonup> bytes) \<Rightarrow> (int \<times> string) list \<Rightarrow>
    (spec, u64 list, string \<rightharpoonup> bytes, (int \<times> string) list) LocalPhysicalVolume" where
  "example_volume occupied hashes files cached =
     \<lparr> vol_id = 77, vol_stat = \<lparr> vs_VolID = 77, vs_Quota = 4096, vs_Threhold = JNum 1, vs_InuseBytes = 0 \<rparr>,
       vol_slot = \<lparr> sl_bits = occupied, sl_cap = 2, sl_volID = 77, sl_hashPairs = hashes \<rparr>, vol_engine = files,
       vol_store = \<lparr> committed = [], pending = None, seqs = \<lambda>_. 0 \<rparr>, vol_blockLru = cached,
       vol_evitManager = \<lparr> em_volID = 77, em_pendingBlocks = [], em_locked = False \<rparr>, vol_messages = [] \<rparr>"

lemma example_env_simps [simp]:
  "ve_store example_env = spec_store" "ve_slots example_env = list_env" "ve_fs example_env = mem_fs" "ve_lru example_env = list_lru 2"
  by (simp_all add: example_env_def)

lemma mem_fs_succeeds [simp]: "fst (Fs_Create mem_fs n f) = None" "fst (Fs_Write mem_fs n d f) = None"
  by (simp_all add: mem_fs_def)

section \<open>Properties\<close>

text \<open>
  C25. Writing a new block to a volume with a free slot returns its hash when the file of that slot is free and can be
  written; the block then reads back with its data and header, the usage grows by its size, and its event is sent.
\<close>

theorem volume_write_read:
  assumes B: "slot_bits (bits (ve_slots E)) elems" and ok: "slots_ok elems (vol_slot v)" and A: "afero_fs (ve_fs E) files"
    and S: "ve_store E = spec_store" and un: "\<not> em_locked (vol_evitManager v)"
    and new: "GetSlot (hex (dc_Hash d)) (vol_slot v) = Inl ErrSlotEmpty" and d: "container_ok d"
    and i: "Next (ve_slots E) (vol_slot v) = Some i" "files (vol_engine v) (ToAbs (NewLocation (vol_id v) i)) = None"
    and fs: "fst (Fs_Create (ve_fs E) (ToAbs (NewLocation (vol_id v) i)) (vol_engine v)) = None"
      "fst (Fs_Write (ve_fs E) (ToAbs (NewLocation (vol_id v) i)) (Raw (container_block d))
        (snd (Fs_Create (ve_fs E) (ToAbs (NewLocation (vol_id v) i)) (vol_engine v)))) = None"
  shows "\<exists>v' v''. Vol_WriteBlock E now d v = Some (Inr (hex (dc_Hash d)), v')
    \<and> Vol_ReadBlock E (hex (dc_Hash d)) v' = Some (Inr (dc_Data d, Some (container_header d)), v'')
    \<and> vs_InuseBytes (vol_stat v') = vs_InuseBytes (vol_stat v) + of_nat (length (dc_Data d))
    \<and> last (vol_messages v') = BlockMetaMsg (added_event now d (vol_id v))"
proof -
  obtain v' where w: "Vol_WriteBlock E now d v = Some (Inr (hex (dc_Hash d)), v')"
      "vol_messages v' = vol_messages v @ [StatMsg (vol_stat v'), BlockMetaMsg (added_event now d (vol_id v))]"
      "vol_id v' = vol_id v" "\<not> em_locked (vol_evitManager v')"
      "vol_stat v' = vol_stat v \<lparr> vs_InuseBytes := vs_InuseBytes (vol_stat v) + of_nat (length (dc_Data d)) \<rparr>"
      "GetSlot (hex (dc_Hash d)) (vol_slot v') = Inr i" "Occupied (ve_slots E) i (vol_slot v')"
      "files (vol_engine v') (ToAbs (NewLocation (vol_id v') i)) = Some (Raw (container_block d))"
    by (rule Vol_Write_run [OF B ok A S un new d i fs, of now])
  then show ?thesis using Vol_Read_run [OF A w(4,6,7,8) d] by auto
qed

theorem volume_write_read_witness:
  "\<exists>v'. Vol_WriteBlock example_env 9 \<lparr> dc_Index = 7, dc_Data = [1, 2], dc_Hash = replicate 32 171, dc_Crc = 0 \<rparr>
     (example_volume [0] [''ab'' \<mapsto> 0] [''0'' \<mapsto> []] []) = Some (Inr (hex (replicate 32 171)), v')"
proof -
  let ?d = "\<lparr> dc_Index = 7, dc_Data = [1, 2], dc_Hash = replicate 32 171, dc_Crc = 0 \<rparr>"
  let ?v = "example_volume [0] [''ab'' \<mapsto> 0] [''0'' \<mapsto> []] []"
  have n: "Next list_env (vol_slot ?v) = Some 1"
    by (simp add: Next_def example_volume_def list_bitmap_def next_loop.simps)
  have t: "ToAbs (NewLocation 77 1) = ''1''" by code_simp
  have h: "hex (replicate 32 171) \<noteq> ''ab''" by code_simp
  show ?thesis
    using volume_write_read [of example_env set ?v "\<lambda>f. f" ?d 1 9] lbits.slot_bits_axioms memfs.afero_fs_axioms n t h
    by (fastforce simp: example_volume_def slots_ok_def GetSlot_def container_ok_def maxAlloc_def)
qed



text \<open>
  C31. A block that was removed from a volume is lost to it: it cannot be read, and writing it again is refused as already
  there and stores nothing, since the hash is kept when its slot is freed.
\<close>

theorem removed_block_lost:
  assumes B: "slot_bits (bits (ve_slots E)) elems" and A: "afero_fs (ve_fs E) files" and S: "ve_store E = spec_store"
    and i: "GetSlot hash (vol_slot v) = Inr i" "i < sl_cap (vol_slot v)" "Occupied (ve_slots E) i (vol_slot v)"
    and "FindKey (ve_slots E) (sl_hashPairs (vol_slot v)) i = Some found"
    and here: "files (vol_engine v) (ToAbs (NewLocation (vol_id v) i)) \<noteq> None"
    and "fst (Fs_Remove (ve_fs E) (ToAbs (NewLocation (vol_id v) i)) (vol_engine v)) = None"
    and d: "hex (dc_Hash d) = hash"
  shows "\<exists>v' e v''. RemoveLocal E hash v = Some (Inr (), v') \<and> Vol_ReadBlock E hash v' = Some (Inl e, v')
    \<and> Vol_WriteBlock E now d v' = Some (Inl ErrBlockExisted, v'') \<and> files (vol_engine v'') (ToAbs (NewLocation (vol_id v) i)) = None"
proof -
  note con = slot_bits.elems_contains [OF B]
  obtain bs where bs: "CheckedRemove (bits (ve_slots E)) i (sl_bits (vol_slot v)) = (True, bs)" "i \<notin> elems bs"
    using slot_bits.elems_remove [OF B, of i "sl_bits (vol_slot v)"] i(3) con by (auto simp: Occupied_def prod_eq_iff)
  obtain m where free: "Slot_Free spec_store (ve_slots E) i (vol_store v, vol_slot v) = (Inr found, m, vol_slot v \<lparr> sl_bits := bs \<rparr>)"
    using Slot_Free_run [OF _ bs(1) assms(7)] i(2) by auto
  obtain f where f: "DeleteBlock (ve_fs E) (NewLocation (vol_id v) i) (vol_engine v, ()) = (Inr (), f, ())"
      "files f = (files (vol_engine v))(ToAbs (NewLocation (vol_id v) i) := None)"
    by (rule afero_fs.file_delete_run [OF A assms(9) here])
  let ?v = "v \<lparr> vol_store := m, vol_slot := vol_slot v \<lparr> sl_bits := bs \<rparr>, vol_engine := f \<rparr>"
  have "RemoveLocal E hash v = Some (Inr (), ?v)" using i(1) free f(1) S by (simp add: RemoveLocal_def vol_simps NewLocation_def)
  moreover have g: "GetSlot hash (vol_slot ?v) = Inr i" using i(1) by (simp add: GetSlot_def split: option.splits)
  moreover have "\<not> Occupied (ve_slots E) i (vol_slot ?v)" using bs(2) con by (simp add: Occupied_def)
  ultimately show ?thesis using f(2) d
    by (intro exI [of _ ?v] exI conjI) (auto simp: Vol_ReadBlock_def Vol_WriteBlock_def vol_simps)
qed

theorem removed_block_lost_witness:
  "\<exists>v' v''. RemoveLocal example_env ''ab'' (example_volume [0] [''ab'' \<mapsto> 0] [''0'' \<mapsto> []] []) = Some (Inr (), v')
    \<and> Vol_WriteBlock example_env 9 \<lparr> dc_Index = 7, dc_Data = [1, 2], dc_Hash = [171], dc_Crc = 0 \<rparr> v' = Some (Inl ErrBlockExisted, v'')"
proof -
  let ?v = "example_volume [0] [''ab'' \<mapsto> 0] [''0'' \<mapsto> []] []"
  have "ToAbs (NewLocation 77 0) = ''0''" "hex [171] = ''ab''" by code_simp+
  moreover have "FindKey list_env (sl_hashPairs (vol_slot ?v)) 0 = Some ''ab''" by (simp add: list_env_def example_volume_def)
  moreover have "fst (Fs_Remove mem_fs ''0'' [''0'' \<mapsto> []]) = None" by (simp add: mem_fs_def)
  ultimately show ?thesis
    using removed_block_lost [of example_env set "\<lambda>f. f" "''ab''" ?v 0 "''ab''" "\<lparr> dc_Index = 7, dc_Data = [1, 2], dc_Hash = [171], dc_Crc = 0 \<rparr>" 9]
      lbits.slot_bits_axioms memfs.afero_fs_axioms
    by (fastforce simp: example_volume_def GetSlot_def Occupied_def lbits.elems_contains)
qed

text \<open>
  C30. Removing a block that the volume does not have reports success and deletes the block in slot 0, which can no longer be
  read although its slot stays occupied; the same happens when the block is cleaned as invalid.
\<close>

theorem remove_unknown_loses_block:
  assumes A: "afero_fs (ve_fs E) files" and new: "GetSlot hash (vol_slot v) = Inl ErrSlotEmpty"
    and i: "GetSlot victim (vol_slot v) = Inr 0" "Occupied (ve_slots E) 0 (vol_slot v)"
    and here: "files (vol_engine v) (ToAbs (NewLocation (vol_id v) 0)) \<noteq> None"
    and "fst (Fs_Remove (ve_fs E) (ToAbs (NewLocation (vol_id v) 0)) (vol_engine v)) = None"
  shows "\<exists>v'. RemoveLocal E hash v = Some (Inr (), v') \<and> Occupied (ve_slots E) 0 (vol_slot v')
    \<and> Vol_ReadBlock E victim v' = Some (Inl EngErrNotFound, v')
    \<and> (\<exists>r w. CleanInvalidBlock E [hash] v = Some (r, w) \<and> files (vol_engine w) (ToAbs (NewLocation (vol_id v) 0)) = None)"
proof -
  obtain f where f: "DeleteBlock (ve_fs E) (NewLocation (vol_id v) 0) (vol_engine v, ()) = (Inr (), f, ())"
      "files f = (files (vol_engine v))(ToAbs (NewLocation (vol_id v) 0) := None)"
    by (rule afero_fs.file_delete_run [OF A assms(6) here])
  let ?v = "v \<lparr> vol_engine := f \<rparr>"
  have "RemoveLocal E hash v = Some (Inr (), ?v)" using new f(1) by (simp add: RemoveLocal_def vol_simps NewLocation_def)
  moreover have "GetBlockDataCb (ve_fs E) (NewLocation (vol_id v) 0) (Some keep_header) (f, None) = (Inl EngErrNotFound, f, None)"
    using f(2) by (simp add: afero_fs.data_run [OF A] file_block_def file_header_def)
  moreover have "\<exists>r w. CleanInvalidBlock E [hash] v = Some (r, w) \<and> files (vol_engine w) (ToAbs (NewLocation (vol_id v) 0)) = None"
    using new f by (auto simp: vol_simps getLocation_def split: prod.split)
  ultimately show ?thesis using i by (intro exI [of _ ?v]) (auto simp: Vol_ReadBlock_def getLocation_def vol_simps)
qed

theorem remove_unknown_loses_block_witness:
  "\<exists>v'. RemoveLocal example_env ''cd'' (example_volume [0] [''ab'' \<mapsto> 0] [''0'' \<mapsto> []] []) = Some (Inr (), v')
    \<and> Vol_ReadBlock example_env ''ab'' v' = Some (Inl EngErrNotFound, v')"
proof -
  let ?v = "example_volume [0] [''ab'' \<mapsto> 0] [''0'' \<mapsto> []] []"
  have "ToAbs (NewLocation 77 0) = ''0''" by code_simp
  moreover have "fst (Fs_Remove mem_fs ''0'' [''0'' \<mapsto> []]) = None" by (simp add: mem_fs_def)
  ultimately show ?thesis
    using remove_unknown_loses_block [of example_env "\<lambda>f. f" "''cd''" ?v "''ab''"] memfs.afero_fs_axioms
    by (fastforce simp: example_volume_def GetSlot_def Occupied_def lbits.elems_contains)
qed

end
