(* ===== verification/Volume_Selector.thy ===== *)
theory Volume_Selector
  imports Local_Volume
begin

text \<open>
  \<^verbatim>\<open>src/pkg/storage/node/volume_selector.go\<close>: the selector of a storage node, with its volumes, their usage and what is
  known of every block, which is kept in the store as well. Events of the volumes arrive one after the other. The main
  results: the blocks known after any sequence of events survive a restart, and a new block goes to the volume with the most
  remaining capacity, where a volume above its quota counts as the emptiest.
\<close>

section \<open>The stored form of a block event\<close>

text \<open>
  A time is stored as text (\<^verbatim>\<open>time.Time.MarshalJSON\<close>), which is read back to the same time; the text is a parameter.
\<close>

record time_format =
  time_text :: "int \<Rightarrow> string"
  time_parse :: "string \<Rightarrow> int option"

definition time_ok :: "time_format \<Rightarrow> bool" where
  "time_ok T \<longleftrightarrow> (\<forall>t. time_parse T (time_text T t) = Some t)"

definition Event_FormatPrefix :: "BlockMetaEvent \<Rightarrow> string" where
  "Event_FormatPrefix e = ''block/''"

definition Event_FormatKey :: "BlockMetaEvent \<Rightarrow> string" where
  "Event_FormatKey e = Event_FormatPrefix e @ ev_BlockID e"

definition Event_Serialize :: "time_format \<Rightarrow> BlockMetaEvent \<Rightarrow> error + blob" where
  "Event_Serialize T e = Inr (JsonDoc (JObj [(''VolID'', JNum (uint (ev_VolID e))), (''BlockID'', JStr (ev_BlockID e)),
     (''Size'', JNum (uint (ev_Size e))), (''LogicIndex'', JNum (uint (ev_LogicIndex e))), (''Crc32'', JNum (uint (ev_Crc32 e))),
     (''EventType'', JNum (sint (ev_EventType e))), (''State'', JNum (sint (ev_State e))),
     (''CreatedAt'', JStr (time_text T (ev_CreatedAt e)))]))"

definition dec_time :: "time_format \<Rightarrow> json \<Rightarrow> int \<Rightarrow> error + int" where
  "dec_time T j old = (case j of JNull \<Rightarrow> Inr old | JStr s \<Rightarrow> (case time_parse T s of None \<Rightarrow> Inl JsonErr | Some t \<Rightarrow> Inr t)
     | _ \<Rightarrow> Inl JsonErr)"

definition Event_member :: "time_format \<Rightarrow> string \<Rightarrow> json \<Rightarrow> BlockMetaEvent \<Rightarrow> error + BlockMetaEvent" where
  "Event_member T k j e = (let l = map to_lower k in
     if l = ''volid'' then mapR (\<lambda>v. e \<lparr> ev_VolID := v \<rparr>) (dec_uint j (ev_VolID e))
     else if l = ''blockid'' then mapR (\<lambda>v. e \<lparr> ev_BlockID := v \<rparr>) (dec_str j (ev_BlockID e))
     else if l = ''size'' then mapR (\<lambda>v. e \<lparr> ev_Size := v \<rparr>) (dec_uint j (ev_Size e))
     else if l = ''logicindex'' then mapR (\<lambda>v. e \<lparr> ev_LogicIndex := v \<rparr>) (dec_uint j (ev_LogicIndex e))
     else if l = ''crc32'' then mapR (\<lambda>v. e \<lparr> ev_Crc32 := v \<rparr>) (dec_uint j (ev_Crc32 e))
     else if l = ''eventtype'' then mapR (\<lambda>v. e \<lparr> ev_EventType := v \<rparr>) (dec_sint j (ev_EventType e))
     else if l = ''state'' then mapR (\<lambda>v. e \<lparr> ev_State := v \<rparr>) (dec_sint j (ev_State e))
     else if l = ''createdat'' then mapR (\<lambda>v. e \<lparr> ev_CreatedAt := v \<rparr>) (dec_time T j (ev_CreatedAt e))
     else Inr e)"

definition zero_event :: BlockMetaEvent where
  "zero_event = \<lparr> ev_VolID = 0, ev_BlockID = [], ev_Size = 0, ev_LogicIndex = 0, ev_Crc32 = 0, ev_EventType = 0, ev_State = 0,
     ev_CreatedAt = zero_time \<rparr>"

definition Event_Deserialize :: "time_format \<Rightarrow> blob \<Rightarrow> error + BlockMetaEvent" where
  "Event_Deserialize T b = unmarshal (Event_member T) zero_event b"

definition ev_ser :: "time_format \<Rightarrow> BlockMetaEvent \<Rightarrow> BlockMetaEvent Serializer" where
  "ev_ser T e = \<lparr> FormatKey = Event_FormatKey e, FormatPrefix = Event_FormatPrefix e, Serialize = Event_Serialize T e,
     Deserialize = Event_Deserialize T, BeforeSerialize = None, AfterSerialize = None, BeforeDeserialize = None, AfterDeserialize = None \<rparr>"

section \<open>The selector\<close>

text \<open>The volumes are the type \<open>'v\<close>. A map of block events that was not loaded is nil: it can be read but not written.\<close>

record 'v Selector =
  sel_candidates :: "u64 \<rightharpoonup> 'v"
  sel_volStats :: "u64 \<rightharpoonup> VolumeStatistics"
  sel_blockMetas :: "(string \<rightharpoonup> BlockMetaEvent) option"

text \<open>Ranging over a map has some order, and so have its values; the orders are parameters.\<close>

record sel_env =
  se_time :: time_format
  stat_keys :: "(u64 \<rightharpoonup> VolumeStatistics) \<Rightarrow> u64 list"
  meta_keys :: "(string \<rightharpoonup> BlockMetaEvent) \<Rightarrow> string list"
  row_order :: "BlockMetaEvent order"

definition keys_ok :: "(('k \<rightharpoonup> 'a) \<Rightarrow> 'k list) \<Rightarrow> bool" where
  "keys_ok ks \<longleftrightarrow> (\<forall>m. finite (dom m) \<longrightarrow> distinct (ks m) \<and> set (ks m) = dom m)"

type_synonym ('a, 's, 'v) sel_op = "('a, 's \<times> 'v Selector) gom"

definition inDB :: "('a, 's) gom \<Rightarrow> ('a, 's, 'v) sel_op" where
  "inDB p w = (case p (fst w) of (r, s) \<Rightarrow> (r, s, snd w))"

definition metas :: "'v Selector \<Rightarrow> string \<rightharpoonup> BlockMetaEvent" where
  "metas sel = (case sel_blockMetas sel of None \<Rightarrow> Map.empty | Some m \<Rightarrow> m)"

fun put_events :: "BlockMetaEvent list \<Rightarrow> (string \<rightharpoonup> BlockMetaEvent) \<Rightarrow> string \<rightharpoonup> BlockMetaEvent" where
  "put_events [] m = m"
| "put_events (e # es) m = put_events es (m(ev_BlockID e \<mapsto> e))"

definition loadBlockMeta :: "'s Store \<Rightarrow> sel_env \<Rightarrow> (unit, 's, 'v) sel_op" where
  "loadBlockMeta S E = bindE (inDB (DoGetValuesByPrefix S False (Some (ev_ser (se_time E) zero_event))))
     (\<lambda>metaMap w. (Inr (), fst w, (snd w) \<lparr> sel_blockMetas := Some (put_events (row_order E metaMap) Map.empty) \<rparr>))"

definition NewSelector :: "'s Store \<Rightarrow> sel_env \<Rightarrow> ('v Selector, 's) gom" where
  "NewSelector S E s = (case loadBlockMeta S E (s, \<lparr> sel_candidates = Map.empty, sel_volStats = Map.empty, sel_blockMetas = None \<rparr>) of
     (r, s', sel) \<Rightarrow> (if r = Inl Panic then Inl Panic else Inr sel, s'))"

text \<open>The capacity of a volume, a floating-point computation, is an argument.\<close>

definition Sync :: "u64 \<Rightarrow> 'v \<Rightarrow> u64 \<Rightarrow> u64 \<Rightarrow> 'v Selector \<Rightarrow> 'v Selector" where
  "Sync volId volume quota inuseBytes sel = sel \<lparr> sel_candidates := (sel_candidates sel)(volId \<mapsto> volume),
     sel_volStats := (sel_volStats sel)(volId \<mapsto>
       \<lparr> vs_VolID = volId, vs_Quota = quota, vs_Threhold = JNum 0, vs_InuseBytes = inuseBytes \<rparr>) \<rparr>"

text \<open>
  \<^verbatim>\<open>sort.SliceStable\<close> by falling remaining capacity. The first element of an empty slice is a panic. The result is the
  number of the volume along with the volume, which may be nil.
\<close>

definition SelectWrite :: "sel_env \<Rightarrow> 'v Selector \<Rightarrow> error + u64 \<times> 'v option" where
  "SelectWrite E sel = (
     let volStats = map (\<lambda>k. the (sel_volStats sel k)) (stat_keys E (sel_volStats sel))
     in case sort_key (\<lambda>st. - 1 - RemainCap st) volStats of [] \<Rightarrow> Inl Panic
        | st # _ \<Rightarrow> Inr (vs_VolID st, sel_candidates sel (vs_VolID st)))"

definition SelectRead :: "string \<Rightarrow> 'v Selector \<Rightarrow> error + u64 \<times> 'v option" where
  "SelectRead blockID sel = (case metas sel blockID of None \<Rightarrow> Inl ErrBlockNotExisted
     | Some meta \<Rightarrow> Inr (ev_VolID meta, sel_candidates sel (ev_VolID meta)))"

definition Select :: "u64 \<Rightarrow> 'v Selector \<Rightarrow> error + 'v" where
  "Select volId sel = (case sel_candidates sel volId of None \<Rightarrow> Inl (ErrOther ''failed to select volume'') | Some v \<Rightarrow> Inr v)"

definition Exists :: "u64 \<Rightarrow> 'v Selector \<Rightarrow> bool" where
  "Exists volId sel \<longleftrightarrow> sel_candidates sel volId \<noteq> None"

definition setVolStat :: "u64 \<Rightarrow> VolumeStatistics \<Rightarrow> 'v Selector \<Rightarrow> 'v Selector" where
  "setVolStat volId volStat sel = sel \<lparr> sel_volStats := (sel_volStats sel)(volId \<mapsto> volStat) \<rparr>"

definition GetVolStats :: "sel_env \<Rightarrow> 'v Selector \<Rightarrow> VolumeStatistics list" where
  "GetVolStats E sel = map (\<lambda>k. the (sel_volStats sel k)) (stat_keys E (sel_volStats sel))"

definition GetVolStat :: "u64 \<Rightarrow> 'v Selector \<Rightarrow> VolumeStatistics" where
  "GetVolStat volId sel = (case sel_volStats sel volId of
     None \<Rightarrow> \<lparr> vs_VolID = 0, vs_Quota = 0, vs_Threhold = JNum 0, vs_InuseBytes = 0 \<rparr> | Some st \<Rightarrow> st)"

text \<open>Writing to a nil map is a panic. The channel of an added block is closed after all else went well.\<close>

definition addBlockMeta :: "'s Store \<Rightarrow> sel_env \<Rightarrow> BlockMetaEvent \<Rightarrow> (unit, 's, 'v) sel_op" where
  "addBlockMeta S E meta w = (
     let meta = (case metas (snd w) (ev_BlockID meta) of None \<Rightarrow> meta
       | Some old \<Rightarrow> if OnS3Only old then meta \<lparr> ev_State := BlockState_LOCAL_S3 \<rparr> else meta)
     in bindE (inDB (DoSaveInKVPair S False (Some (ev_ser (se_time E) meta)))) (\<lambda>_ w. case sel_blockMetas (snd w) of
         None \<Rightarrow> (Inl Panic, w)
       | Some m \<Rightarrow> (Inr (), fst w, (snd w) \<lparr> sel_blockMetas := Some (m(ev_BlockID meta \<mapsto> meta)) \<rparr>)) w)"

definition deleteBlockMeta :: "'s Store \<Rightarrow> sel_env \<Rightarrow> BlockMetaEvent \<Rightarrow> (unit, 's, 'v) sel_op" where
  "deleteBlockMeta S E meta w = inDB (DoDeleteByKey S False (Some (ev_ser (se_time E) meta)))
     (fst w, (snd w) \<lparr> sel_blockMetas := map_option (\<lambda>m. m(ev_BlockID meta := None)) (sel_blockMetas (snd w)) \<rparr>)"

definition handleBlockMeta :: "'s Store \<Rightarrow> sel_env \<Rightarrow> BlockMetaEvent \<Rightarrow> (unit, 's, 'v) sel_op" where
  "handleBlockMeta S E meta = (if ev_EventType meta = BlockMetaEvent_Delete then deleteBlockMeta S E meta else addBlockMeta S E meta)"

definition GetBlockMeta :: "string \<Rightarrow> 'v Selector \<Rightarrow> BlockMetaEvent option" where
  "GetBlockMeta blockID sel = metas sel blockID"

text \<open>The event is changed in place, also when it cannot be saved.\<close>

definition makeBlockState :: "'s Store \<Rightarrow> sel_env \<Rightarrow> string \<Rightarrow> 32 word \<Rightarrow> (unit, 's, 'v) sel_op" where
  "makeBlockState S E blockID state w = (case metas (snd w) blockID of None \<Rightarrow> (Inr (), w)
     | Some meta \<Rightarrow> let meta = meta \<lparr> ev_State := state \<rparr> in
         inDB (DoSaveInKVPair S False (Some (ev_ser (se_time E) meta)))
           (fst w, (snd w) \<lparr> sel_blockMetas := map_option (\<lambda>m. m(blockID \<mapsto> meta)) (sel_blockMetas (snd w)) \<rparr>))"

definition MarkBlockDestaged :: "'s Store \<Rightarrow> sel_env \<Rightarrow> string \<Rightarrow> (unit, 's, 'v) sel_op" where
  "MarkBlockDestaged S E blockID = makeBlockState S E blockID BlockState_LOCAL_S3"

definition MarkBlockFreeLocal :: "'s Store \<Rightarrow> sel_env \<Rightarrow> string \<Rightarrow> (unit, 's, 'v) sel_op" where
  "MarkBlockFreeLocal S E blockID = makeBlockState S E blockID BlockState_S3_ONLY"

definition GetBlockMetas :: "sel_env \<Rightarrow> 'v Selector \<Rightarrow> BlockMetaEvent list" where
  "GetBlockMetas E sel = map (\<lambda>k. the (metas sel k)) (meta_keys E (metas sel))"

definition Recycle :: "sel_env \<Rightarrow> 'v Selector \<Rightarrow> BlockMetaEvent list" where
  "Recycle E sel = filter OnBoth (GetBlockMetas E sel)"

definition Sel_Warmup :: "sel_env \<Rightarrow> 'v Selector \<Rightarrow> BlockMetaEvent list" where
  "Sel_Warmup E sel = filter OnS3Only (GetBlockMetas E sel)"

text \<open>\<^verbatim>\<open>time.Duration(expired) * time.Second\<close> wraps at 64 bits.\<close>

definition ListStaleBlockMetas :: "sel_env \<Rightarrow> int \<Rightarrow> int \<Rightarrow> 'v Selector \<Rightarrow> BlockMetaEvent list" where
  "ListStaleBlockMetas E now expired sel =
     filter (\<lambda>meta. OnLocal meta \<and> now - sint (word_of_int (expired * 1000000000) :: 64 word) > ev_CreatedAt meta) (GetBlockMetas E sel)"

section \<open>The store\<close>

definition ev_doc :: "time_format \<Rightarrow> BlockMetaEvent \<Rightarrow> blob" where
  "ev_doc T e = JsonDoc (JObj [(''VolID'', JNum (uint (ev_VolID e))), (''BlockID'', JStr (ev_BlockID e)),
     (''Size'', JNum (uint (ev_Size e))), (''LogicIndex'', JNum (uint (ev_LogicIndex e))), (''Crc32'', JNum (uint (ev_Crc32 e))),
     (''EventType'', JNum (sint (ev_EventType e))), (''State'', JNum (sint (ev_State e))),
     (''CreatedAt'', JStr (time_text T (ev_CreatedAt e)))])"

lemma event_names:
  "map to_lower ''VolID'' = ''volid''" "map to_lower ''BlockID'' = ''blockid''" "map to_lower ''Size'' = ''size''"
  "map to_lower ''LogicIndex'' = ''logicindex''" "map to_lower ''Crc32'' = ''crc32''" "map to_lower ''EventType'' = ''eventtype''"
  "map to_lower ''State'' = ''state''" "map to_lower ''CreatedAt'' = ''createdat''"
  by code_simp+

lemma event_doc [simp]: "time_ok T \<Longrightarrow> Event_Deserialize T (ev_doc T e) = Inr e"
  by (cases e) (simp add: Event_Deserialize_def ev_doc_def unmarshal_def Event_member_def Let_def event_names dec_time_def
      time_ok_def zero_event_def del: list.map)

lemma ev_ser_simps [simp]:
  "ev_BlockID e \<noteq> [] \<Longrightarrow> no_hooks (ev_ser T e)" "FormatKey (ev_ser T e) = ''block/'' @ ev_BlockID e"
  "FormatPrefix (ev_ser T e) = ''block/''" "Serialize (ev_ser T e) = Inr (ev_doc T e)" "Deserialize (ev_ser T e) = Event_Deserialize T"
  by (simp_all add: ev_ser_def no_hooks_def Event_FormatKey_def Event_FormatPrefix_def Event_Serialize_def ev_doc_def)

lemma prefix_rows_run:
  "FormatPrefix z \<noteq> [] \<Longrightarrow> DoGetValuesByPrefix spec_store c (Some z) = spec_read c (rows (FormatPrefix z) (Deserialize z))"
proof -
  have f: "(\<lambda>(key, buf). bindE (liftE (Deserialize z buf)) (\<lambda>value. returnE (key, value))) =
      (\<lambda>x. liftE ((\<lambda>(k, b). mapR (Pair k) (Deserialize z b)) x) :: (_, spec) gom)"
    by (auto simp: fun_eq_iff run_simps mapR_def split: sum.split)
  assume "FormatPrefix z \<noteq> []"
  then show ?thesis
    by (auto simp: fun_eq_iff DoGetValuesByPrefix_def f mapE_liftE run_simps spec_read_def rows_def split: option.splits)
qed

lemma in_bucket_block: "in_bucket ''block/'' x \<longleftrightarrow> (\<exists>i. x = ''block/'' @ i)"
  using in_bucket_slash [of "''block''"] by (simp add: prefix_def)

text \<open>The store holds the events of exactly the known blocks.\<close>

definition metas_saved :: "time_format \<Rightarrow> kv \<Rightarrow> (string \<rightharpoonup> BlockMetaEvent) \<Rightarrow> bool" where
  "metas_saved T kv m \<longleftrightarrow> kv_ok kv \<and> (\<forall>i. map_of kv (''block/'' @ i) = map_option (ev_doc T) (m i))
     \<and> (\<forall>i e. m i = Some e \<longrightarrow> ev_BlockID e = i) \<and> m [] = None"

lemma metas_saved_ins:
  "metas_saved T kv m \<Longrightarrow> ev_BlockID e \<noteq> [] \<Longrightarrow>
   metas_saved T (kv_ins (''block/'' @ ev_BlockID e) (ev_doc T e) kv) (m(ev_BlockID e \<mapsto> e))"
  by (auto simp: metas_saved_def)

lemma metas_saved_del:
  "metas_saved T kv m \<Longrightarrow> metas_saved T (kv_del (''block/'' @ i) kv) (m(i := None))"
  by (auto simp: metas_saved_def)

lemma save_event_run:
  "ev_BlockID e \<noteq> [] \<Longrightarrow> inDB (DoSaveInKVPair spec_store False (Some (ev_ser T e))) (s, sel) =
     (Inr (), s \<lparr> committed := kv_ins (''block/'' @ ev_BlockID e) (ev_doc T e) (committed s) \<rparr>, sel)"
  by (simp add: inDB_def save_run spec_write_run)

lemma delete_event_run:
  "ev_BlockID e \<noteq> [] \<Longrightarrow> inDB (DoDeleteByKey spec_store False (Some (ev_ser T e))) (s, sel) =
     (Inr (), s \<lparr> committed := kv_del (''block/'' @ ev_BlockID e) (committed s) \<rparr>, sel)"
  using ev_ser_simps(1) [of e T] by (simp add: inDB_def DoDeleteByKey_def no_hooks_def run_simps)

lemma put_events_Some:
  assumes "\<And>p q. p \<in> set es \<Longrightarrow> q \<in> set es \<Longrightarrow> ev_BlockID p = ev_BlockID q \<Longrightarrow> p = q"
  shows "put_events es m k = Some e \<longleftrightarrow> (e \<in> set es \<and> ev_BlockID e = k) \<or> m k = Some e \<and> (\<forall>p \<in> set es. ev_BlockID p \<noteq> k)"
  using assms
proof (induction es arbitrary: m)
  case (Cons p es)
  have "put_events es (m(ev_BlockID p \<mapsto> p)) k = Some e \<longleftrightarrow> (e \<in> set es \<and> ev_BlockID e = k)
      \<or> (m(ev_BlockID p \<mapsto> p)) k = Some e \<and> (\<forall>p \<in> set es. ev_BlockID p \<noteq> k)"
    by (rule Cons.IH) (use Cons.prems in simp)
  moreover have "q = p" if "q \<in> set es" "ev_BlockID q = ev_BlockID p" for q using Cons.prems [of q p] that by simp
  ultimately show ?case by (auto split: if_splits)
qed simp

lemma load_saved:
  assumes T: "time_ok (se_time E)" and ord: "order_ok (row_order E)" and sv: "metas_saved (se_time E) (committed s) m"
  shows "loadBlockMeta spec_store E (s, sel) = (Inr (), s, sel \<lparr> sel_blockMetas := Some m \<rparr>)"
proof -
  let ?D = "Event_Deserialize (se_time E)"
  have at: "map_of (committed s) (''block/'' @ i) = map_option (ev_doc (se_time E)) (m i)" for i using sv by (simp add: metas_saved_def)
  have id: "ev_BlockID e = i" if "m i = Some e" for i e using sv that by (simp add: metas_saved_def)
  obtain r where r: "rows ''block/'' ?D (committed s) = Inr r"
    and mem: "\<And>k e. (k, e) \<in> set r \<longleftrightarrow> in_bucket ''block/'' k \<and> (\<exists>b. map_of (committed s) k = Some b \<and> ?D b = Inr e)"
  proof (rule rows_all [of "committed s" "''block/''" ?D])
    show "kv_ok (committed s)" using sv by (simp add: metas_saved_def)
    show "\<exists>e. ?D b = Inr e" if "in_bucket ''block/'' x" "map_of (committed s) x = Some b" for x b
      using that T at by (auto simp: in_bucket_block)
  qed blast+
  have es: "e \<in> set (row_order E r) \<longleftrightarrow> m (ev_BlockID e) = Some e" for e
  proof -
    have "e \<in> set (row_order E r) \<longleftrightarrow> (\<exists>k. (k, e) \<in> set r)" unfolding order_okD [OF ord] by force
    also have "\<dots> \<longleftrightarrow> (\<exists>i b. map_of (committed s) (''block/'' @ i) = Some b \<and> ?D b = Inr e)" unfolding mem in_bucket_block by blast
    also have "\<dots> \<longleftrightarrow> (\<exists>i x. m i = Some x \<and> ?D (ev_doc (se_time E) x) = Inr e)" unfolding at map_option_eq_Some by blast
    also have "\<dots> \<longleftrightarrow> (\<exists>i. m i = Some e)" unfolding event_doc [OF T] by simp
    also have "\<dots> \<longleftrightarrow> m (ev_BlockID e) = Some e" using id by blast
    finally show ?thesis .
  qed
  have "put_events (row_order E r) Map.empty k = Some e \<longleftrightarrow> e \<in> set (row_order E r) \<and> ev_BlockID e = k" for k e
  proof (subst put_events_Some)
    show "p = q" if "p \<in> set (row_order E r)" "q \<in> set (row_order E r)" "ev_BlockID p = ev_BlockID q" for p q
      using that es [of p] es [of q] by simp
  qed simp
  then have "put_events (row_order E r) Map.empty k = Some e \<longleftrightarrow> m k = Some e" for k e
    using es [of e] id [of k e] by auto
  then have "put_events (row_order E r) Map.empty = m" by (intro ext) (metis option.exhaust)
  then show ?thesis using r
    by (simp add: loadBlockMeta_def bindE_run inDB_def prefix_rows_run spec_read_run)
qed

section \<open>Requests to the selector\<close>

datatype sel_req = Event BlockMetaEvent | Destaged string | FreeLocal string

fun sel_serve :: "'s Store \<Rightarrow> sel_env \<Rightarrow> sel_req \<Rightarrow> (unit, 's, 'v) sel_op" where
  "sel_serve S E (Event e) = handleBlockMeta S E e"
| "sel_serve S E (Destaged i) = MarkBlockDestaged S E i"
| "sel_serve S E (FreeLocal i) = MarkBlockFreeLocal S E i"

text \<open>The errors are only logged.\<close>

fun sel_run :: "'s Store \<Rightarrow> sel_env \<Rightarrow> sel_req list \<Rightarrow> (unit, 's, 'v) sel_op" where
  "sel_run S E [] = returnE ()"
| "sel_run S E (r # rs) = tryE (sel_serve S E r) (\<lambda>_. sel_run S E rs)"

text \<open>What a request does to the known blocks.\<close>

definition set_state :: "32 word \<Rightarrow> string \<Rightarrow> (string \<rightharpoonup> BlockMetaEvent) \<Rightarrow> string \<rightharpoonup> BlockMetaEvent" where
  "set_state st i m = m(i := map_option (\<lambda>e. e \<lparr> ev_State := st \<rparr>) (m i))"

fun known_step :: "sel_req \<Rightarrow> (string \<rightharpoonup> BlockMetaEvent) \<Rightarrow> string \<rightharpoonup> BlockMetaEvent" where
  "known_step (Event e) m = (if ev_EventType e = BlockMetaEvent_Delete then m(ev_BlockID e := None)
     else m(ev_BlockID e \<mapsto> (case m (ev_BlockID e) of Some old \<Rightarrow> if OnS3Only old then e \<lparr> ev_State := BlockState_LOCAL_S3 \<rparr> else e
       | None \<Rightarrow> e)))"
| "known_step (Destaged i) m = set_state BlockState_LOCAL_S3 i m"
| "known_step (FreeLocal i) m = set_state BlockState_S3_ONLY i m"

definition req_ok :: "sel_req \<Rightarrow> bool" where
  "req_ok r \<longleftrightarrow> (case r of Event e \<Rightarrow> ev_BlockID e \<noteq> [] | _ \<Rightarrow> True)"

lemma metas_Some [simp]: "sel_blockMetas sel = Some m \<Longrightarrow> metas sel = m"
  by (simp add: metas_def)

lemma makeBlockState_run:
  assumes sv: "metas_saved (se_time E) (committed s) m" and sel: "sel_blockMetas sel = Some m"
  obtains s' where "makeBlockState spec_store E i st (s, sel) = (Inr (), s', sel \<lparr> sel_blockMetas := Some (set_state st i m) \<rparr>)"
    and "metas_saved (se_time E) (committed s') (set_state st i m)"
proof (cases "m i")
  case None
  then show thesis using that [of s] sv sel by (simp add: makeBlockState_def set_state_def fun_upd_idem)
next
  case (Some e)
  have i: "ev_BlockID e = i" "i \<noteq> []" using sv Some by (auto simp: metas_saved_def)
  let ?e = "e \<lparr> ev_State := st \<rparr>"
  have st: "set_state st i m = m(i \<mapsto> ?e)" using Some by (simp add: set_state_def)
  show thesis
    by (rule that [of "s \<lparr> committed := kv_ins (''block/'' @ i) (ev_doc (se_time E) ?e) (committed s) \<rparr>"])
      (use sel i Some st save_event_run [of ?e "se_time E" s "sel \<lparr> sel_blockMetas := Some (m(i \<mapsto> ?e)) \<rparr>"] metas_saved_ins [OF sv, of ?e]
      in \<open>simp_all add: makeBlockState_def Let_def\<close>)
qed

lemma add_event_run:
  assumes "ev_BlockID e \<noteq> []" and "sel_blockMetas sel = Some m" and "m (ev_BlockID e) = None"
  shows "\<exists>s'. addBlockMeta spec_store E e (s, sel) = (Inr (), s', sel \<lparr> sel_blockMetas := Some (m(ev_BlockID e \<mapsto> e)) \<rparr>)"
  using assms save_event_run [of e "se_time E" s sel] by (simp add: addBlockMeta_def bindE_run Let_def)

lemma sel_serve_run:
  assumes sv: "metas_saved (se_time E) (committed s) m" and sel: "sel_blockMetas sel = Some m" and ok: "req_ok r"
  obtains s' where "sel_serve spec_store E r (s, sel) = (Inr (), s', sel \<lparr> sel_blockMetas := Some (known_step r m) \<rparr>)"
    and "metas_saved (se_time E) (committed s') (known_step r m)"
proof (cases r)
  case (Event e)
  then have id: "ev_BlockID e \<noteq> []" using ok by (simp add: req_ok_def)
  show thesis
  proof (cases "ev_EventType e = BlockMetaEvent_Delete")
    case True
    then show thesis using that [of "s \<lparr> committed := kv_del (''block/'' @ ev_BlockID e) (committed s) \<rparr>"]
      Event id sel metas_saved_del [OF sv, of "ev_BlockID e"] delete_event_run [OF id, of "se_time E" s "sel \<lparr> sel_blockMetas := Some (m(ev_BlockID e := None)) \<rparr>"]
      by (simp add: handleBlockMeta_def deleteBlockMeta_def)
  next
    case False
    define f where "f = (case m (ev_BlockID e) of Some old \<Rightarrow> if OnS3Only old then e \<lparr> ev_State := BlockState_LOCAL_S3 \<rparr> else e | None \<Rightarrow> e)"
    have f: "ev_BlockID f = ev_BlockID e" by (simp add: f_def split: option.split)
    have k: "known_step r m = m(ev_BlockID e \<mapsto> f)" using Event False by (simp add: f_def)
    have "handleBlockMeta spec_store E e (s, sel) = bindE (inDB (DoSaveInKVPair spec_store False (Some (ev_ser (se_time E) f)))) (\<lambda>_ w.
        case sel_blockMetas (snd w) of None \<Rightarrow> (Inl Panic, w)
        | Some m \<Rightarrow> (Inr (), fst w, (snd w) \<lparr> sel_blockMetas := Some (m(ev_BlockID f \<mapsto> f)) \<rparr>)) (s, sel)"
      unfolding f_def using False sel by (simp add: handleBlockMeta_def addBlockMeta_def Let_def)
    then have "sel_serve spec_store E r (s, sel) = (Inr (), s \<lparr> committed := kv_ins (''block/'' @ ev_BlockID e) (ev_doc (se_time E) f) (committed s) \<rparr>,
        sel \<lparr> sel_blockMetas := Some (known_step r m) \<rparr>)"
      using Event id sel f k save_event_run [of f "se_time E" s sel] by (simp add: bindE_run)
    then show thesis by (rule that) (use metas_saved_ins [OF sv, of f] f id k in simp)
  qed
next
  case (Destaged i)
  show thesis
    by (rule makeBlockState_run [OF sv sel, of i BlockState_LOCAL_S3]) (use that Destaged in \<open>simp add: MarkBlockDestaged_def\<close>)
next
  case (FreeLocal i)
  show thesis
    by (rule makeBlockState_run [OF sv sel, of i BlockState_S3_ONLY]) (use that FreeLocal in \<open>simp add: MarkBlockFreeLocal_def\<close>)
qed

lemma sel_run_saved:
  assumes "metas_saved (se_time E) (committed s) m" and "sel_blockMetas sel = Some m" and "list_all req_ok rs"
  shows "\<exists>s'. sel_run spec_store E rs (s, sel) = (Inr (), s', sel \<lparr> sel_blockMetas := Some (fold known_step rs m) \<rparr>)
    \<and> metas_saved (se_time E) (committed s') (fold known_step rs m)"
  using assms
proof (induction rs arbitrary: s sel m)
  case Nil
  then have "sel \<lparr> sel_blockMetas := Some m \<rparr> = sel" by (cases sel) simp
  then show ?case using Nil by (simp add: returnE_run)
next
  case (Cons r rs)
  have ok: "req_ok r" using Cons.prems(3) by simp
  obtain s1 where s1: "sel_serve spec_store E r (s, sel) = (Inr (), s1, sel \<lparr> sel_blockMetas := Some (known_step r m) \<rparr>)"
      "metas_saved (se_time E) (committed s1) (known_step r m)"
    by (rule sel_serve_run [OF Cons.prems(1,2) ok])
  show ?case using Cons.IH [OF s1(2), of "sel \<lparr> sel_blockMetas := Some (known_step r m) \<rparr>"] Cons.prems(3) s1(1)
    by (simp add: tryE_run)
qed

section \<open>Choosing a volume\<close>

lemma neg_le_iff: "- 1 - a \<le> - 1 - b \<longleftrightarrow> b \<le> (a :: u64)"
proof -
  have n: "unat (- 1 - c) = 18446744073709551615 - unat c" for c :: u64
    using unat_sub [of c "- 1"] by (simp add: unsigned_minus_1_eq_mask mask_eq_exp_minus_1)
  have "unat a \<le> 18446744073709551615" "unat b \<le> 18446744073709551615"
    using u64_bound [of a] u64_bound [of b] by linarith+
  then show ?thesis unfolding word_le_nat_alt n by linarith
qed

lemma RemainCap_wraps:
  assumes "vs_Quota st < 2 ^ 63" and "vs_InuseBytes st < 2 ^ 63"
  shows "2 ^ 63 < RemainCap st \<longleftrightarrow> vs_Quota st < vs_InuseBytes st"
proof -
  have b: "unat (vs_Quota st) < 2 ^ 63" "unat (vs_InuseBytes st) < 2 ^ 63" using assms by (simp_all add: word_less_nat_alt)
  show ?thesis
  proof (cases "vs_InuseBytes st \<le> vs_Quota st")
    case True
    then have "unat (RemainCap st) = unat (vs_Quota st) - unat (vs_InuseBytes st)" by (simp add: RemainCap_def unat_sub)
    then show ?thesis using True b by (simp add: word_less_nat_alt word_le_nat_alt)
  next
    case False
    then have "unat (vs_Quota st) < unat (vs_InuseBytes st)" by (simp add: word_le_nat_alt)
    moreover from this have "unat (RemainCap st) = 2 ^ 64 + unat (vs_Quota st) - unat (vs_InuseBytes st)"
      by (simp add: RemainCap_def unat_sub_if')
    ultimately show ?thesis using b by (simp add: word_less_nat_alt)
  qed
qed

lemma sort_key_hd:
  assumes "sort_key f xs = y # ys"
  shows "y \<in> set xs" and "x \<in> set xs \<Longrightarrow> f y \<le> f x"
proof -
  have "sorted (map f (y # ys))" and set: "set xs = set (y # ys)"
    using sorted_sort_key [of f xs] set_sort [of f xs] unfolding assms by auto
  then show "y \<in> set xs" and "x \<in> set xs \<Longrightarrow> f y \<le> f x" by auto
qed

section \<open>An environment\<close>

definition number_time :: time_format where
  "number_time = \<lparr> time_text = fmt_i,
     time_parse = \<lambda>s. Some (if CHR ''-'' \<in> set s then - int (dec_value (tl s)) else int (dec_value s)) \<rparr>"

lemma number_time_ok [simp]: "time_ok number_time"
  by (auto simp: time_ok_def number_time_def fmt_i_def fmt_d_no)

definition sorted_keys :: "('k::linorder \<rightharpoonup> 'a) \<Rightarrow> 'k list" where "sorted_keys m = sorted_list_of_set (dom m)"

lemma sorted_keys_ok [simp]: "keys_ok sorted_keys"
  by (simp add: keys_ok_def sorted_keys_def)

definition example_sel_env :: sel_env where
  "example_sel_env = \<lparr> se_time = number_time, stat_keys = sorted_keys, meta_keys = sorted_keys, row_order = map snd \<rparr>"

lemma example_sel_env_simps [simp]:
  "se_time example_sel_env = number_time" "stat_keys example_sel_env = sorted_keys" "meta_keys example_sel_env = sorted_keys"
  "row_order example_sel_env = map snd"
  by (simp_all add: example_sel_env_def)

section \<open>Properties\<close>

text \<open>
  C26. After any sequence of events and marks the selector knows of every block what the sequence says of it, and so does the
  store: a selector made anew from the store knows the same blocks.
\<close>

theorem known_blocks_survive:
  fixes sel :: "'v Selector"
  assumes "time_ok (se_time E)" and "order_ok (row_order E)" and "metas_saved (se_time E) (committed s) m"
    and "sel_blockMetas sel = Some m" and "list_all req_ok rs"
  shows "\<exists>s' sel' sel2. sel_run spec_store E rs (s, sel) = (Inr (), s', sel')
    \<and> (\<forall>i. GetBlockMeta i sel' = fold known_step rs m i)
    \<and> NewSelector spec_store E s' = (Inr (sel2 :: 'v Selector), s') \<and> (\<forall>i. GetBlockMeta i sel2 = fold known_step rs m i)"
proof -
  obtain s' where s': "sel_run spec_store E rs (s, sel) = (Inr (), s', sel \<lparr> sel_blockMetas := Some (fold known_step rs m) \<rparr>)"
      "metas_saved (se_time E) (committed s') (fold known_step rs m)"
    using sel_run_saved [OF assms(3,4,5)] by auto
  then show ?thesis
    using load_saved [OF assms(1,2) s'(2), of "\<lparr> sel_candidates = Map.empty, sel_volStats = Map.empty, sel_blockMetas = None \<rparr> :: 'v Selector"]
    by (simp add: NewSelector_def GetBlockMeta_def)
qed

theorem known_blocks_survive_witness:
  "\<exists>s' sel'. sel_run spec_store example_sel_env [Event (zero_event \<lparr> ev_BlockID := ''ab'' \<rparr>), FreeLocal ''ab'']
     (\<lparr> committed = [], pending = None, seqs = \<lambda>_. 0 \<rparr>,
      \<lparr> sel_candidates = (Map.empty :: u64 \<rightharpoonup> nat), sel_volStats = Map.empty, sel_blockMetas = Some Map.empty \<rparr>) = (Inr (), s', sel')
   \<and> GetBlockMeta ''ab'' sel' = Some (zero_event \<lparr> ev_BlockID := ''ab'', ev_State := BlockState_S3_ONLY \<rparr>)"
proof -
  have "metas_saved number_time [] Map.empty" by (simp add: metas_saved_def)
  then show ?thesis
    using known_blocks_survive [of example_sel_env "\<lparr> committed = [], pending = None, seqs = \<lambda>_. 0 \<rparr>" Map.empty
        "\<lparr> sel_candidates = (Map.empty :: u64 \<rightharpoonup> nat), sel_volStats = Map.empty, sel_blockMetas = Some Map.empty \<rparr>"
        "[Event (zero_event \<lparr> ev_BlockID := ''ab'' \<rparr>), FreeLocal ''ab'']"]
    by (auto simp: order_ok_def req_ok_def set_state_def zero_event_def BlockMetaEvent_Delete_def)
qed

text \<open>
  C28. A new block goes to a volume with the most remaining capacity. That number wraps, so a volume that holds more than its
  quota is chosen before every volume with room.
\<close>

theorem select_write_most_remaining:
  assumes ks: "keys_ok (stat_keys E)" and fin: "finite (dom (sel_volStats sel))" "sel_volStats sel \<noteq> Map.empty"
    and ids: "\<forall>k st. sel_volStats sel k = Some st \<longrightarrow> vs_VolID st = k \<and> vs_Quota st < 2 ^ 63 \<and> vs_InuseBytes st < 2 ^ 63"
  shows "\<exists>k st. sel_volStats sel k = Some st \<and> SelectWrite E sel = Inr (k, sel_candidates sel k)
    \<and> (\<forall>j st'. sel_volStats sel j = Some st' \<longrightarrow> RemainCap st' \<le> RemainCap st)
    \<and> ((\<exists>j st'. sel_volStats sel j = Some st' \<and> vs_Quota st' < vs_InuseBytes st') \<longrightarrow> vs_Quota st < vs_InuseBytes st)"
proof -
  let ?L = "map (\<lambda>k. the (sel_volStats sel k)) (stat_keys E (sel_volStats sel))"
  have keys: "set (stat_keys E (sel_volStats sel)) = dom (sel_volStats sel)" using ks fin(1) by (simp add: keys_ok_def)
  then have L: "st \<in> set ?L \<longleftrightarrow> (\<exists>k. sel_volStats sel k = Some st)" for st by (force simp: dom_def)
  have "stat_keys E (sel_volStats sel) \<noteq> []" using keys fin(2) by fastforce
  then have "length (sort_key (\<lambda>st. - 1 - RemainCap st) ?L) \<noteq> 0" by simp
  then have "sort_key (\<lambda>st. - 1 - RemainCap st) ?L \<noteq> []" by blast
  then obtain st rest where st: "sort_key (\<lambda>st. - 1 - RemainCap st) ?L = st # rest" by (meson neq_Nil_conv)
  obtain k where k: "sel_volStats sel k = Some st" using sort_key_hd(1) [OF st] L by blast
  have most: "RemainCap st' \<le> RemainCap st" if "sel_volStats sel j = Some st'" for j st'
    using sort_key_hd(2) [OF st, of st'] L [of st'] that by (auto simp: neg_le_iff)
  have "vs_Quota st < vs_InuseBytes st" if "sel_volStats sel j = Some st'" "vs_Quota st' < vs_InuseBytes st'" for j st'
  proof -
    have "2 ^ 63 < RemainCap st'" using RemainCap_wraps [of st'] ids that by blast
    then have "2 ^ 63 < RemainCap st" using most [OF that(1)] by (rule less_le_trans)
    then show ?thesis using RemainCap_wraps [of st] ids k by blast
  qed
  moreover have "SelectWrite E sel = Inr (k, sel_candidates sel k)" using ids k by (simp add: SelectWrite_def st)
  ultimately show ?thesis using k most by blast
qed

theorem select_write_most_remaining_witness:
  "SelectWrite example_sel_env \<lparr> sel_candidates = [1 \<mapsto> 8 :: nat], sel_volStats =
     [1 \<mapsto> \<lparr> vs_VolID = 1, vs_Quota = 10, vs_Threhold = JNum 1, vs_InuseBytes = 11 \<rparr>,
      2 \<mapsto> \<lparr> vs_VolID = 2, vs_Quota = 10, vs_Threhold = JNum 1, vs_InuseBytes = 0 \<rparr>], sel_blockMetas = None \<rparr> = Inr (1, Some 8)"
proof -
  let ?sel = "\<lparr> sel_candidates = [1 \<mapsto> 8 :: nat], sel_volStats =
     [1 \<mapsto> \<lparr> vs_VolID = 1, vs_Quota = 10, vs_Threhold = JNum 1, vs_InuseBytes = 11 \<rparr>,
      2 \<mapsto> \<lparr> vs_VolID = 2, vs_Quota = 10, vs_Threhold = JNum 1, vs_InuseBytes = 0 \<rparr>], sel_blockMetas = None \<rparr>"
  have "\<forall>k st. sel_volStats ?sel k = Some st \<longrightarrow> vs_VolID st = k \<and> vs_Quota st < 2 ^ 63 \<and> vs_InuseBytes st < 2 ^ 63"
    by (auto split: if_splits)
  from select_write_most_remaining [OF _ _ _ this, of example_sel_env]
  obtain k st where k: "sel_volStats ?sel k = Some st" "SelectWrite example_sel_env ?sel = Inr (k, sel_candidates ?sel k)"
      "(\<exists>j st'. sel_volStats ?sel j = Some st' \<and> vs_Quota st' < vs_InuseBytes st') \<longrightarrow> vs_Quota st < vs_InuseBytes st"
    by (auto simp del: fun_upd_apply)
  have "\<exists>j st'. sel_volStats ?sel j = Some st' \<and> vs_Quota st' < vs_InuseBytes st'" by (rule exI [of _ 1]) simp
  then have "vs_Quota st < vs_InuseBytes st" using k(3) by blast
  then have "k = 1" using k(1) by (auto split: if_splits)
  then show ?thesis using k(2) by simp
qed

end
