(* ===== verification/Storage_Node.thy ===== *)
theory Storage_Node
  imports Volume_Selector
begin

text \<open>
  \<^verbatim>\<open>src/pkg/storage/node/service.go\<close>: the requests of a storage node on its volumes and its selector. The volumes use the store
  of the node, which \<^verbatim>\<open>store.GetStore\<close> shares. The messages of a volume are handled by the loop of the selector
  (\<^verbatim>\<open>statLoop\<close>); requests run one after the other, so they are handled when the operation of the volume ends. The goroutines
  of a read are run in the order in which they are started. The main result: a block that is written is read back by its
  hash, writing it again changes nothing, and data that do not fit their checksum are refused.
\<close>

section \<open>Messages and requests\<close>

record WriteBlock_Request =
  wq_Ino :: u64
  wq_BlockIdx :: "u64 option"
  wq_BlockData :: bytes
  wq_Crc32 :: u32

record WriteBlock_Response =
  wr_Ino :: u64
  wr_BlockIdx :: u64
  wr_BlockId :: string
  wr_VolId :: u64
  wr_NodeId :: u64
  wr_Crc32 :: u32
  wr_Len :: u64

record pb_Block =
  pbb_Id :: string
  pbb_Data :: bytes
  pbb_Len :: u32
  pbb_Index :: u64
  pbb_Crc32 :: u32

record ListBlocks_BlockMeta =
  lb_BlockId :: string
  lb_NodeId :: u64
  lb_Size :: u64
  lb_VolId :: u64
  lb_State :: "32 word"
  lb_Crc :: u32

record ('s, 'b, 'f, 'l) Node =
  nd_ID :: u64
  nd_store :: 's
  nd_selector :: "('s, 'b, 'f, 'l) LocalPhysicalVolume Selector"

record ('s, 'b, 'f, 'l) node_env =
  ne_vol :: "('s, 'b, 'f, 'l) vol_env"
  ne_sel :: sel_env

type_synonym ('a, 's, 'b, 'f, 'l) node_op = "('a, ('s, 'b, 'f, 'l) Node) vop"

section \<open>Operations of a volume\<close>

text \<open>
  One message in the loop of the selector. The result says whether it was handled without an error; only then the channel on
  which a writer waits is closed.
\<close>

definition statLoop_step :: "('s, 'b, 'f, 'l) node_env \<Rightarrow> message \<Rightarrow> (bool, 's, 'b, 'f, 'l) node_op" where
  "statLoop_step E msg nd = (case msg of
     StatMsg stat \<Rightarrow> returnV True (nd \<lparr> nd_selector := setVolStat (vs_VolID stat) stat (nd_selector nd) \<rparr>)
   | BlockMetaMsg meta \<Rightarrow> (case handleBlockMeta (ve_store (ne_vol E)) (ne_sel E) meta (nd_store nd, nd_selector nd) of (r, s, sel) \<Rightarrow>
       let nd = nd \<lparr> nd_store := s, nd_selector := sel \<rparr> in
       if r = Inl Panic then throwV Panic nd else returnV (\<not> isl r) nd))"

fun deliver :: "('s, 'b, 'f, 'l) node_env \<Rightarrow> message list \<Rightarrow> (bool, 's, 'b, 'f, 'l) node_op" where
  "deliver E [] nd = returnV True nd"
| "deliver E (msg # msgs) nd = bindV (statLoop_step E msg) (\<lambda>a. bindV (deliver E msgs) (\<lambda>b. returnV (a \<and> b))) nd"

text \<open>
  An operation of a volume of the selector. A volume that is nil is a panic. The result of the operation comes with
  whether its messages were handled.
\<close>

definition onVolume :: "('s, 'b, 'f, 'l) node_env \<Rightarrow> u64 \<Rightarrow> ('a, 's, 'b, 'f, 'l) volume_op \<Rightarrow>
    ((error + 'a) \<times> bool, 's, 'b, 'f, 'l) node_op" where
  "onVolume E volId f nd = (case sel_candidates (nd_selector nd) volId of None \<Rightarrow> throwV Panic nd
     | Some v \<Rightarrow> (case f (v \<lparr> vol_store := nd_store nd, vol_messages := [] \<rparr>) of None \<Rightarrow> None
       | Some (r, v') \<Rightarrow> bindV (deliver E (vol_messages v')) (\<lambda>handled. if r = Inl Panic then throwV Panic else returnV (r, handled))
           (nd \<lparr> nd_store := vol_store v',
             nd_selector := (nd_selector nd) \<lparr> sel_candidates := (sel_candidates (nd_selector nd))(volId \<mapsto> v') \<rparr> \<rparr>)))"

section \<open>The service\<close>

text \<open>
  A block that is only in the object storage is fetched by a job in the background; what is returned depends on how far the
  job has come, and is an argument.
\<close>

fun read_blocks :: "('s, 'b, 'f, 'l) node_env \<Rightarrow> (BlockMetaEvent \<Rightarrow> error + bytes) \<Rightarrow> string list \<Rightarrow> pb_Block list \<Rightarrow> error option \<Rightarrow>
    (pb_Block list, 's, 'b, 'f, 'l) node_op" where
  "read_blocks E restore [] blocks err nd = (case err of None \<Rightarrow> returnV blocks nd | Some e \<Rightarrow> throwV e nd)"
| "read_blocks E restore (blockId # ids) blocks err nd = (case GetBlockMeta blockId (nd_selector nd) of None \<Rightarrow> throwV ErrBlockNotExisted nd
     | Some meta \<Rightarrow>
       if OnS3Only meta then (case restore meta of Inl _ \<Rightarrow> read_blocks E restore ids blocks err nd
         | Inr d \<Rightarrow> read_blocks E restore ids (blocks @ [\<lparr> pbb_Id = blockId, pbb_Data = d, pbb_Len = of_nat (length d),
             pbb_Index = ev_LogicIndex meta, pbb_Crc32 = ev_Crc32 meta \<rparr>]) err nd)
       else (case SelectRead blockId (nd_selector nd) of Inl e \<Rightarrow> throwV e nd
         | Inr (volId, _) \<Rightarrow> bindV (onVolume E volId (Vol_ReadBlock (ne_vol E) blockId)) (\<lambda>(r, _). case r of
               Inl e \<Rightarrow> read_blocks E restore ids blocks (case err of None \<Rightarrow> Some e | Some _ \<Rightarrow> err)
             | Inr (d, None) \<Rightarrow> throwV Panic
             | Inr (d, Some h) \<Rightarrow> read_blocks E restore ids (blocks @ [\<lparr> pbb_Id = HashReadable h, pbb_Data = d,
                 pbb_Len = ucast (DataLen h), pbb_Index = Index h, pbb_Crc32 = Crc32 h \<rparr>]) err) nd))"

definition Node_Read :: "('s, 'b, 'f, 'l) node_env \<Rightarrow> (BlockMetaEvent \<Rightarrow> error + bytes) \<Rightarrow> string list \<Rightarrow> (pb_Block list, 's, 'b, 'f, 'l) node_op" where
  "Node_Read E restore ids = read_blocks E restore ids [] None"

text \<open>The writer waits until the event of the block is handled; when that fails it waits forever.\<close>

definition Node_Write :: "('s, 'b, 'f, 'l) node_env \<Rightarrow> int \<Rightarrow> WriteBlock_Request \<Rightarrow> (WriteBlock_Response, 's, 'b, 'f, 'l) node_op" where
  "Node_Write E now req nd = (
     let crc = crc32 (wq_BlockData req); hash = sha256 (wq_BlockData req); len = of_nat (length (wq_BlockData req)) in
     if crc \<noteq> wq_Crc32 req then throwV (Status FailedPrecondition) nd
     else (case wq_BlockIdx req of None \<Rightarrow> throwV Panic nd | Some idx \<Rightarrow>
       (case GetBlockMeta (hex hash) (nd_selector nd) of
         Some existMeta \<Rightarrow> returnV \<lparr> wr_Ino = wq_Ino req, wr_BlockIdx = idx, wr_BlockId = ev_BlockID existMeta, wr_VolId = ev_VolID existMeta,
           wr_NodeId = nd_ID nd, wr_Crc32 = crc, wr_Len = len \<rparr> nd
       | None \<Rightarrow> (case SelectWrite (ne_sel E) (nd_selector nd) of Inl e \<Rightarrow> throwV e nd | Inr (volId, vol) \<Rightarrow>
           bindV (onVolume E volId (Vol_WriteBlock (ne_vol E) now \<lparr> dc_Index = idx, dc_Data = wq_BlockData req, dc_Hash = hash, dc_Crc = crc \<rparr>))
             (\<lambda>(r, handled) nd. case r of Inl e \<Rightarrow> throwV (Wrapped e) nd
              | Inr blockId \<Rightarrow> if \<not> handled then None
                  else returnV \<lparr> wr_Ino = wq_Ino req, wr_BlockIdx = idx, wr_BlockId = blockId, wr_VolId = (case vol of None \<Rightarrow> 0 | Some v \<Rightarrow> vol_id v),
                    wr_NodeId = nd_ID nd, wr_Crc32 = crc, wr_Len = len \<rparr> nd) nd))))"

text \<open>The blocks to delete are grouped by volume; the volumes come in some order, which is an argument.\<close>

fun group_blocks :: "('s, 'b, 'f, 'l) Node \<Rightarrow> string list \<Rightarrow> (u64 \<rightharpoonup> string list) \<Rightarrow> u64 \<rightharpoonup> string list" where
  "group_blocks nd [] m = m"
| "group_blocks nd (blockId # ids) m = (case GetBlockMeta blockId (nd_selector nd) of None \<Rightarrow> group_blocks nd ids m
     | Some meta \<Rightarrow> group_blocks nd ids (m(ev_VolID meta \<mapsto> (case m (ev_VolID meta) of None \<Rightarrow> [blockId] | Some bs \<Rightarrow> bs @ [blockId]))))"

fun clean_volumes :: "('s, 'b, 'f, 'l) node_env \<Rightarrow> (u64 \<rightharpoonup> string list) \<Rightarrow> u64 list \<Rightarrow> error option \<Rightarrow> (unit, 's, 'b, 'f, 'l) node_op" where
  "clean_volumes E m [] err nd = (case err of None \<Rightarrow> returnV () nd | Some e \<Rightarrow> throwV e nd)"
| "clean_volumes E m (volId # vols) err nd = (case Select volId (nd_selector nd) of Inl e \<Rightarrow> throwV e nd
     | Inr _ \<Rightarrow> bindV (onVolume E volId (CleanInvalidBlock (ne_vol E) (the (m volId)))) (\<lambda>(r, _).
         clean_volumes E m vols (case (r, err) of (Inl e, None) \<Rightarrow> Some e | _ \<Rightarrow> err)) nd)"

definition Node_DeleteBlock :: "('s, 'b, 'f, 'l) node_env \<Rightarrow> ((u64 \<rightharpoonup> string list) \<Rightarrow> u64 list) \<Rightarrow> string list \<Rightarrow> (unit, 's, 'b, 'f, 'l) node_op" where
  "Node_DeleteBlock E ks ids nd = (let m = group_blocks nd ids Map.empty in clean_volumes E m (ks m) None nd)"

definition ListBlocks :: "('s, 'b, 'f, 'l) node_env \<Rightarrow> (ListBlocks_BlockMeta list, 's, 'b, 'f, 'l) node_op" where
  "ListBlocks E nd = returnV (map (\<lambda>item. \<lparr> lb_BlockId = ev_BlockID item, lb_NodeId = nd_ID nd, lb_Size = ev_Size item,
     lb_VolId = ev_VolID item, lb_State = ev_State item, lb_Crc = ev_Crc32 item \<rparr>) (GetBlockMetas (ne_sel E) (nd_selector nd))) nd"

text \<open>The errors of removing and marking a block are dropped.\<close>

fun recycle_blocks :: "('s, 'b, 'f, 'l) node_env \<Rightarrow> BlockMetaEvent list \<Rightarrow> (unit, 's, 'b, 'f, 'l) node_op" where
  "recycle_blocks E [] nd = returnV () nd"
| "recycle_blocks E (meta # ms) nd =
     bindV (onVolume E (ev_VolID meta) (RemoveLocal (ne_vol E) (ev_BlockID meta))) (\<lambda>_ nd.
       case MarkBlockFreeLocal (ve_store (ne_vol E)) (ne_sel E) (ev_BlockID meta) (nd_store nd, nd_selector nd) of (r, s, sel) \<Rightarrow>
         let nd = nd \<lparr> nd_store := s, nd_selector := sel \<rparr> in
         if r = Inl Panic then throwV Panic nd else recycle_blocks E ms nd) nd"

definition RecycleSpace :: "('s, 'b, 'f, 'l) node_env \<Rightarrow> (unit, 's, 'b, 'f, 'l) node_op" where
  "RecycleSpace E nd = recycle_blocks E (Recycle (ne_sel E) (nd_selector nd)) nd"

section \<open>Running a node\<close>

lemma hex_Nil [simp]: "hex bs = [] \<longleftrightarrow> bs = []"
  by (cases bs) (simp_all add: hex_def)

lemma sha256_not_Nil [simp]: "sha256 d \<noteq> []"
  using length_sha256 [of d] by (metis list.size(3) zero_neq_numeral)

definition block_of :: "WriteBlock_Request \<Rightarrow> u64 \<Rightarrow> DataContainer" where
  "block_of req idx = \<lparr> dc_Index = idx, dc_Data = wq_BlockData req, dc_Hash = sha256 (wq_BlockData req), dc_Crc = crc32 (wq_BlockData req) \<rparr>"

lemma block_of_simps [simp]:
  "dc_Data (block_of req idx) = wq_BlockData req" "dc_Hash (block_of req idx) = sha256 (wq_BlockData req)"
  "length (wq_BlockData req) \<le> maxAlloc \<Longrightarrow> container_ok (block_of req idx)"
  "container_header (block_of req idx) = \<lparr> Kind = 1, DataLen = of_nat (length (wq_BlockData req)), Index = idx,
     Crc32 = crc32 (wq_BlockData req), Checksum = sha256 (wq_BlockData req), Canceled = 0 \<rparr>"
  using length_sha256 [of "wq_BlockData req"] by (auto simp: block_of_def container_ok_def container_header_def)

text \<open>A volume that takes the block, as the volume the selector chooses.\<close>

definition takes_block :: "('s, 'b, 'f, 'l) node_env \<Rightarrow> ('b \<Rightarrow> u64 set) \<Rightarrow> ('f \<Rightarrow> string \<rightharpoonup> bytes) \<Rightarrow> DataContainer \<Rightarrow> u64 \<Rightarrow>
    ('s, 'b, 'f, 'l) LocalPhysicalVolume \<Rightarrow> bool" where
  "takes_block E elems files d i v \<longleftrightarrow> (let VE = ne_vol E; n = ToAbs (NewLocation (vol_id v) i) in
     slots_ok elems (vol_slot v) \<and> \<not> em_locked (vol_evitManager v) \<and> GetSlot (hex (dc_Hash d)) (vol_slot v) = Inl ErrSlotEmpty
     \<and> Next (ve_slots VE) (vol_slot v) = Some i \<and> files (vol_engine v) n = None
     \<and> fst (Fs_Create (ve_fs VE) n (vol_engine v)) = None
     \<and> fst (Fs_Write (ve_fs VE) n (Raw (container_block d)) (snd (Fs_Create (ve_fs VE) n (vol_engine v)))) = None)"

lemma onVolume_write:
  assumes B: "slot_bits (bits (ve_slots (ne_vol E))) elems" and A: "afero_fs (ve_fs (ne_vol E)) files" and S: "ve_store (ne_vol E) = spec_store"
    and v: "sel_candidates (nd_selector nd) k = Some v" "takes_block E elems files d i v" and d: "container_ok d" "hex (dc_Hash d) \<noteq> []"
    and m: "sel_blockMetas (nd_selector nd) = Some m" "m (hex (dc_Hash d)) = None"
  obtains nd' v' where "onVolume E k (Vol_WriteBlock (ne_vol E) now d) nd = Some (Inr (Inr (hex (dc_Hash d)), True), nd')"
    and "sel_candidates (nd_selector nd') k = Some v'" and "nd_ID nd' = nd_ID nd"
    and "sel_blockMetas (nd_selector nd') = Some (m(hex (dc_Hash d) \<mapsto> added_event now d (vol_id v)))"
    and "\<not> em_locked (vol_evitManager v')" and "GetSlot (hex (dc_Hash d)) (vol_slot v') = Inr i"
    and "Occupied (ve_slots (ne_vol E)) i (vol_slot v')"
    and "files (vol_engine v') (ToAbs (NewLocation (vol_id v') i)) = Some (Raw (container_block d))"
proof -
  let ?v = "v \<lparr> vol_store := nd_store nd, vol_messages := [] \<rparr>" and ?e = "added_event now d (vol_id v)"
  obtain v' where w: "Vol_WriteBlock (ne_vol E) now d ?v = Some (Inr (hex (dc_Hash d)), v')"
      "vol_messages v' = vol_messages ?v @ [StatMsg (vol_stat v'), BlockMetaMsg (added_event now d (vol_id ?v))]"
      "vol_id v' = vol_id ?v" "\<not> em_locked (vol_evitManager v')"
      "GetSlot (hex (dc_Hash d)) (vol_slot v') = Inr i" "Occupied (ve_slots (ne_vol E)) i (vol_slot v')"
      "files (vol_engine v') (ToAbs (NewLocation (vol_id v') i)) = Some (Raw (container_block d))"
    by (rule Vol_Write_run [OF B _ A S, of ?v d i now]) (use v(2) d(1) in \<open>simp_all add: takes_block_def Let_def\<close>)
  let ?nd = "nd \<lparr> nd_store := vol_store v', nd_selector := (nd_selector nd) \<lparr> sel_candidates := (sel_candidates (nd_selector nd))(k \<mapsto> v') \<rparr> \<rparr>"
  let ?sel = "setVolStat (vs_VolID (vol_stat v')) (vol_stat v') (nd_selector ?nd)"
  have e: "ev_BlockID ?e = hex (dc_Hash d)" "ev_EventType ?e \<noteq> BlockMetaEvent_Delete"
    by (simp_all add: added_event_def BlockMetaEvent_Add_def BlockMetaEvent_Delete_def)
  obtain s where s: "handleBlockMeta spec_store (ne_sel E) ?e (vol_store v', ?sel) =
      (Inr (), s, ?sel \<lparr> sel_blockMetas := Some (m(hex (dc_Hash d) \<mapsto> ?e)) \<rparr>)"
    using add_event_run [of ?e ?sel m "ne_sel E" "vol_store v'"] e d(2) m by (auto simp: handleBlockMeta_def setVolStat_def)
  show thesis
    by (rule that [of "?nd \<lparr> nd_store := s, nd_selector := ?sel \<lparr> sel_blockMetas := Some (m(hex (dc_Hash d) \<mapsto> ?e)) \<rparr> \<rparr>" v'])
      (use v(1) w s S in \<open>simp_all add: onVolume_def statLoop_step_def vol_simps setVolStat_def\<close>)
qed

lemma onVolume_read:
  assumes A: "afero_fs (ve_fs (ne_vol E)) files" and v: "sel_candidates (nd_selector nd) k = Some v" "\<not> em_locked (vol_evitManager v)"
    and i: "GetSlot hash (vol_slot v) = Inr i" "Occupied (ve_slots (ne_vol E)) i (vol_slot v)"
    and d: "files (vol_engine v) (ToAbs (NewLocation (vol_id v) i)) = Some (Raw (container_block d))" "container_ok d"
  shows "\<exists>nd'. onVolume E k (Vol_ReadBlock (ne_vol E) hash) nd = Some (Inr (Inr (dc_Data d, Some (container_header d)), True), nd')"
proof -
  let ?v = "v \<lparr> vol_store := nd_store nd, vol_messages := [] \<rparr>"
  obtain v' where r: "Vol_ReadBlock (ne_vol E) hash ?v = Some (Inr (dc_Data d, Some (container_header d)), v')"
      "vol_messages v' = vol_messages ?v"
    using Vol_Read_run [OF A, of ?v hash i d] v(2) i d by auto
  then show ?thesis using v(1) by (simp add: onVolume_def vol_simps)
qed

section \<open>Properties\<close>

text \<open>
  C8. A node refuses data that do not fit their checksum. When the volume it selects takes the block, the write returns the
  hash of the data, reading that hash returns the data with their index and checksum, and writing the same data again
  returns the same block and changes nothing.
\<close>

theorem node_write_read:
  assumes B: "slot_bits (bits (ve_slots (ne_vol E))) elems" and A: "afero_fs (ve_fs (ne_vol E)) files" and S: "ve_store (ne_vol E) = spec_store"
    and sel: "SelectWrite (ne_sel E) (nd_selector nd) = Inr (k, Some v)" "sel_candidates (nd_selector nd) k = Some v" "vol_id v = k"
    and m: "sel_blockMetas (nd_selector nd) = Some m" "m (hex (sha256 (wq_BlockData req))) = None"
    and req: "wq_Crc32 req = crc32 (wq_BlockData req)" "wq_BlockIdx req = Some idx" "length (wq_BlockData req) \<le> maxAlloc"
    and v: "takes_block E elems files (block_of req idx) i v"
  shows "\<exists>nd' nd'' r. Node_Write E now req nd = Some (Inr r, nd') \<and> wr_BlockId r = hex (sha256 (wq_BlockData req)) \<and> wr_VolId r = k
    \<and> Node_Read E restore [wr_BlockId r] nd' = Some (Inr [\<lparr> pbb_Id = wr_BlockId r, pbb_Data = wq_BlockData req,
        pbb_Len = ucast (of_nat (length (wq_BlockData req)) :: u64), pbb_Index = idx, pbb_Crc32 = wq_Crc32 req \<rparr>], nd'')
    \<and> (\<forall>now'. Node_Write E now' req nd' = Some (Inr r, nd'))
    \<and> (\<forall>now' bad. wq_Crc32 bad \<noteq> crc32 (wq_BlockData bad) \<longrightarrow> Node_Write E now' bad nd' = Some (Inl (Status FailedPrecondition), nd'))"
proof -
  let ?d = "block_of req idx" and ?h = "hex (sha256 (wq_BlockData req))"
  let ?e = "added_event now ?d (vol_id v)"
  have d: "container_ok ?d" "hex (dc_Hash ?d) \<noteq> []" "m (hex (dc_Hash ?d)) = None" using req(3) m(2) by simp_all
  obtain nd' v' where w: "onVolume E k (Vol_WriteBlock (ne_vol E) now ?d) nd = Some (Inr (Inr (hex (dc_Hash ?d)), True), nd')"
      "sel_candidates (nd_selector nd') k = Some v'" "nd_ID nd' = nd_ID nd"
      "sel_blockMetas (nd_selector nd') = Some (m(hex (dc_Hash ?d) \<mapsto> ?e))"
      "\<not> em_locked (vol_evitManager v')" "GetSlot (hex (dc_Hash ?d)) (vol_slot v') = Inr i"
      "Occupied (ve_slots (ne_vol E)) i (vol_slot v')"
      "files (vol_engine v') (ToAbs (NewLocation (vol_id v') i)) = Some (Raw (container_block ?d))"
    by (rule onVolume_write [OF B A S sel(2) v d(1,2) m(1) d(3), of now])
  let ?r = "\<lparr> wr_Ino = wq_Ino req, wr_BlockIdx = idx, wr_BlockId = ?h, wr_VolId = k, wr_NodeId = nd_ID nd,
    wr_Crc32 = crc32 (wq_BlockData req), wr_Len = of_nat (length (wq_BlockData req)) \<rparr>"
  have known: "GetBlockMeta ?h (nd_selector nd') = Some ?e" using w(4) by (simp add: GetBlockMeta_def)
  have e: "ev_BlockID ?e = ?h" "ev_VolID ?e = k" "\<not> OnS3Only ?e"
    using sel(3) by (simp_all add: added_event_def OnS3Only_def BlockState_LOCAL_def BlockState_S3_ONLY_def)
  have "Node_Write E now req nd = Some (Inr ?r, nd')"
    using req sel m w(1,3) by (simp add: Node_Write_def Let_def GetBlockMeta_def bindV_def returnV_def block_of_def)
  moreover have "Node_Write E now' req nd' = Some (Inr ?r, nd')" for now'
    using req known e w(3) by (simp add: Node_Write_def Let_def returnV_def)
  moreover obtain nd'' where "onVolume E k (Vol_ReadBlock (ne_vol E) ?h) nd' = Some (Inr (Inr (dc_Data ?d, Some (container_header ?d)), True), nd'')"
    using onVolume_read [OF A w(2,5,6,7,8) d(1)] by auto
  then have "Node_Read E restore [?h] nd' = Some (Inr [\<lparr> pbb_Id = ?h, pbb_Data = wq_BlockData req,
      pbb_Len = ucast (of_nat (length (wq_BlockData req)) :: u64), pbb_Index = idx, pbb_Crc32 = wq_Crc32 req \<rparr>], nd'')"
    using known e w(2) req(1) by (simp add: Node_Read_def SelectRead_def GetBlockMeta_def bindV_def returnV_def HashReadable_def)
  ultimately show ?thesis
    by (intro exI [of _ nd'] exI [of _ nd''] exI [of _ ?r]) (simp add: Node_Write_def throwV_def Let_def)
qed

theorem node_write_read_witness:
  "\<exists>r nd'. Node_Write \<lparr> ne_vol = example_env, ne_sel = example_sel_env \<rparr> 9
      \<lparr> wq_Ino = 3, wq_BlockIdx = Some 7, wq_BlockData = [1, 2], wq_Crc32 = crc32 [1, 2] \<rparr>
      \<lparr> nd_ID = 4, nd_store = \<lparr> committed = [], pending = None, seqs = \<lambda>_. 0 \<rparr>, nd_selector =
        \<lparr> sel_candidates = [77 \<mapsto> example_volume [] Map.empty Map.empty []],
          sel_volStats = [77 \<mapsto> \<lparr> vs_VolID = 77, vs_Quota = 4096, vs_Threhold = JNum 1, vs_InuseBytes = 0 \<rparr>],
          sel_blockMetas = Some Map.empty \<rparr> \<rparr> = Some (Inr r, nd') \<and> wr_VolId r = 77"
proof -
  let ?E = "\<lparr> ne_vol = example_env, ne_sel = example_sel_env \<rparr>" and ?v = "example_volume [] Map.empty Map.empty []"
  let ?req = "\<lparr> wq_Ino = 3, wq_BlockIdx = Some 7, wq_BlockData = [1, 2], wq_Crc32 = crc32 [1, 2] \<rparr>"
  let ?nd = "\<lparr> nd_ID = 4, nd_store = \<lparr> committed = [], pending = None, seqs = \<lambda>_. 0 \<rparr>, nd_selector =
        \<lparr> sel_candidates = [77 \<mapsto> ?v],
          sel_volStats = [77 \<mapsto> \<lparr> vs_VolID = 77, vs_Quota = 4096, vs_Threhold = JNum 1, vs_InuseBytes = 0 \<rparr>],
          sel_blockMetas = Some Map.empty \<rparr> \<rparr>"
  have "Next list_env (vol_slot ?v) = Some 0" by (simp add: Next_def example_volume_def list_bitmap_def next_loop.simps)
  then have "takes_block ?E set (\<lambda>f. f) (block_of ?req 7) 0 ?v"
    by (simp add: takes_block_def Let_def) (simp add: example_volume_def slots_ok_def GetSlot_def)
  moreover have "SelectWrite example_sel_env (nd_selector ?nd) = Inr (77, Some ?v)" by (simp add: SelectWrite_def sorted_keys_def)
  moreover have "vol_id ?v = 77" by (simp add: example_volume_def)
  ultimately show ?thesis
    using node_write_read [of ?E set "\<lambda>f. f" ?nd 77 ?v Map.empty ?req 7 0 9 "\<lambda>_. Inl Panic"] lbits.slot_bits_axioms memfs.afero_fs_axioms
    by (auto simp: maxAlloc_def)
qed

end
