(* ===== verification/Spec2Isabelle.thy ===== *)
theory Spec2Isabelle
  imports Block_Format Inode_Props Mem_Block_Props Meta_Service File_Locks Storage_Node
begin

text \<open>
  A verification development for \<^verbatim>\<open>hugofs\<close>, a distributed file system in Go. The sources are under \<^verbatim>\<open>src/\<close>.

  \<^bold>\<open>The program.\<close> A metadata server keeps the name space (inodes and directory entries), file locks, the storage nodes of
  the cluster, their volumes, and for every file the map from block numbers to places, all in a transactional key-value
  store. A storage node keeps blocks of file data: its selector chooses a volume, the volume finds a free slot, and an engine
  writes the block into a file named after the slot; the hash of its data is the name of a block. A client mounts the file
  system. It collects writes in blocks in memory, which know the intervals that were written, and flushes them to a
  storage backend, in the end to the storage nodes.

  \<^bold>\<open>Conventions.\<close> Structs are records, with a prefix to the fields where names clash. A function that changes a state and
  may fail maps the state to a result and the next state; the error \<open>Panic\<close> is a panic, and \<^const>\<open>None\<close> a call that
  never returns, where a call may not. Integers have their width, except offsets in files, which are assumed to stay in
  64 bits. The clock, random numbers, the caller, the order in which Go ranges over a map and the choice of an unstable sort
  are arguments. Third-party code (the database Badger, the protobuf codec, the file system \<^verbatim>\<open>afero\<close>, the roaring bitmap, the
  LRU cache, the text form of times) is a record of functions whose documented behaviour is a locale or a predicate;
  each has an instance, on which the examples run. JSON is a document tree and not text, its strings are taken to be
  valid. Operations under one mutex are atomic; where the interleaving matters (\<open>Block_Key\<close>) threads are explicit.

  \<^bold>\<open>Basics.\<close>
  \<^item> \<open>Hugo_Prelude\<close>, \<open>Go_Hash\<close>: machine integers, slices and \<^verbatim>\<open>copy\<close>, little-endian and decimal numbers, \<^verbatim>\<open>strings\<close>, CRC-32 and
    SHA-256.

  \<^bold>\<open>The store.\<close>
  \<^item> \<open>KV_Store\<close> (\<^verbatim>\<open>pkg/store/store.go\<close>): the interface, serializers, the generic operations and \<^verbatim>\<open>DoInTxn\<close>.
  \<^item> \<open>Store_Spec\<close>: the specification, a sorted association list with one open transaction, and the contract
    \<open>kv_refines\<close>, under which every program of the model behaves as on the specification.
  \<^item> \<open>Badger_Store\<close> (\<^verbatim>\<open>store_badger.go\<close>, \<^verbatim>\<open>txn_badger.go\<close>): the store over the database; it meets the contract.

  \<^bold>\<open>The inode service\<close> (\<^verbatim>\<open>pkg/meta/inode\<close>).
  \<^item> \<open>Inode_Types\<close>, \<open>Inode_Store\<close>, \<open>Inode_Service\<close>: attributes and entries with their codecs and keys, and every handler.
  \<^item> \<open>Inode_FS\<close>, \<open>Inode_Inv\<close>: two maps, of attributes and of entries, as the abstract file system, which the handlers refine;
    the invariant of the name space.
  \<^item> \<open>Inode_Refine\<close>, \<open>Inode_Atomic\<close>, \<open>Inode_Requests\<close>: any sequence of requests on the Badger store answers as on the
    specification, keeps the invariant, and leaves no trace of a request that fails.
  \<^item> \<open>Inode_Props\<close>: what each request does, with its errors. \<open>doDeleteDir\<close> has a bound on its recursion; it is shown that
    any bound gives the same result.
  \<^item> \<open>File_Locks\<close> (\<^verbatim>\<open>cntl.go\<close>): locks cannot be read back.

  \<^bold>\<open>Cluster and storage metadata\<close> (\<^verbatim>\<open>pkg/meta/cluster\<close>, \<^verbatim>\<open>pkg/meta/storage_meta\<close>).
  \<^item> \<open>Meta_Table\<close>: records under one prefix, shared by the services.
  \<^item> \<open>Meta_Cluster\<close>, \<open>Meta_Volume\<close>, \<open>Meta_Blocks\<close>, \<open>Meta_Service\<close>: nodes and their peers, candidates for new data,
    volumes, the block map with its history, heartbeats.

  \<^bold>\<open>Blocks on the client\<close> (\<^verbatim>\<open>pkg/storage/adaptor\<close>, \<^verbatim>\<open>pkg/hugofs/vfs/buffer/block\<close>, \<^verbatim>\<open>pkg/util/mem\<close>).
  \<^item> \<open>Interval_List\<close>, \<open>Interval_Copy\<close>: the doubly linked list of written intervals on an explicit heap.
  \<^item> \<open>Slot_Pool\<close>: pools of buffers, which share arrays with blocks.
  \<^item> \<open>Block_Key\<close>: keys of blocks and the lock of each key, as a step relation of threads.
  \<^item> \<open>Block_Backend\<close>: the storage interface with its contract \<open>block_storage\<close>, met by the memory backend.
  \<^item> \<open>Mem_Block\<close>, \<open>Mem_Block_Props\<close>: a block reads as the plain sequence of its writes, and what a flush stores.

  \<^bold>\<open>Blocks on a storage node\<close> (\<^verbatim>\<open>pkg/storage\<close>).
  \<^item> \<open>Block_Format\<close> (\<^verbatim>\<open>block/block.go\<close>): the header and the data of a stored block.
  \<^item> \<open>Block_Slot\<close> (\<^verbatim>\<open>volume/slot.go\<close>): the free slot that is found, the range of slots, and that they survive a restart.
  \<^item> \<open>Block_Engine\<close> (\<^verbatim>\<open>engine\<close>): a map from slots to blocks that never overwrites.
  \<^item> \<open>Local_Volume\<close> (\<^verbatim>\<open>volume/physical_local.go\<close>, \<^verbatim>\<open>evit_block.go\<close>, \<^verbatim>\<open>lru.go\<close>, \<^verbatim>\<open>physical_volume.go\<close>): reading, writing, removing
    and evicting; a full volume hangs.
  \<^item> \<open>Volume_Selector\<close>, \<open>Storage_Node\<close> (\<^verbatim>\<open>node/volume_selector.go\<close>, \<^verbatim>\<open>node/service.go\<close>): the choice of a volume, what is known of
    blocks, and that a block written to a node reads back.

  \<^bold>\<open>Loops.\<close> Loops over lists are structural. The loops that may not end (\<open>write_loop\<close>, \<open>next_loop\<close>, \<open>makeRoom\<close>) are
  partial functions into options, so that both returning and not returning are proved. Walks along the linked list of
  intervals take the number of allocated nodes as fuel, which the length of the list never exceeds.

  \<^bold>\<open>Not modelled.\<close> The virtual file system and its buffers (\<^verbatim>\<open>pkg/hugofs/vfs\<close>, but for memory blocks) and the gateway: objects
  filled by remote calls and moved on by goroutines, channels and timers, whose behaviour is that of the scheduler and the
  network; the blocks and services they use are modelled. FUSE adapters, TCP and gRPC transport, object storage and the TiKV
  store: wrappers of libraries and remote systems. The jobs that copy blocks to the object storage, and the start of nodes
  and volumes. Command line, logging, tracing and generated code. Floating-point numbers: a threshold is kept as it is
  printed or as its bits, and the capacities computed from it are arguments. Snapshots and collections, which the program
  leaves unimplemented.
\<close>

end
